(* ===== verification/Prelude.thy ===== *)
theory Prelude
  imports Main
begin

text \<open>
  Shared vocabulary of the modmail model: the identifier and time types, the error values
  every handler may raise, the result type of a handler that may throw part-way through
  (the world at the point of the throw is kept, since the writes made before an
  \<^verbatim>\<open>await\<close> that rejects are not rolled back), the sequencing combinator that plays
  the role of \<^verbatim>\<open>await\<close>, the \<^verbatim>\<open>for ... of\<close> loop over it, and the list lemmas
  the component theories share.
\<close>

section \<open>Identifiers and time\<close>

type_synonym user_id = nat
type_synonym channel_id = nat
type_synonym guild_id = nat
type_synonym thread_id = nat

text \<open>
  \<open>ms\<close> is a wall-clock instant in milliseconds (\<^verbatim>\<open>moment.utc()\<close>); \<open>db_time\<close> is a
  timestamp column stored as \<^verbatim>\<open>'YYYY-MM-DD HH:mm:ss'\<close>, that is whole seconds. String
  comparison of that fixed-width format coincides with numeric comparison of seconds.
\<close>

type_synonym ms = nat
type_synonym db_time = nat

definition db_format :: "ms \<Rightarrow> db_time" where
  "db_format t = t div 1000"

section \<open>Errors and results\<close>

text \<open>
  \<open>Rejected\<close>: a lifecycle operation invoked in the wrong state (a precondition
  violation); \<open>StoreFailure\<close>: the persistence layer failed a write; \<open>NullDeref\<close>:
  the JavaScript \<^verbatim>\<open>TypeError\<close> of reading a property of \<^verbatim>\<open>null\<close>.
\<close>

datatype error = Rejected | StoreFailure | NullDeref

type_synonym 's result = "(error \<times> 's) + 's"

named_theorems frame "an operation leaves a part of the world unchanged"

fun andThen :: "'s result \<Rightarrow> ('s \<Rightarrow> 's result) \<Rightarrow> 's result" where
  "andThen (Inl p) f = Inl p"
| "andThen (Inr s) f = f s"

fun foreach_r :: "('a \<Rightarrow> 's \<Rightarrow> 's result) \<Rightarrow> 'a list \<Rightarrow> 's \<Rightarrow> 's result" where
  "foreach_r f [] s = Inr s"
| "foreach_r f (x # xs) s = andThen (f x s) (foreach_r f xs)"

definition final_state :: "'s result \<Rightarrow> 's" where
  "final_state r = (case r of Inl (e, s) \<Rightarrow> s | Inr s \<Rightarrow> s)"

text \<open>An invariant of every state a result can leave behind, thrown or not.\<close>

definition holds_after :: "('s \<Rightarrow> bool) \<Rightarrow> 's result \<Rightarrow> bool" where
  "holds_after P r = P (final_state r)"

section \<open>Updating the rows of a table by key\<close>

text \<open>\<^verbatim>\<open>UPDATE ... WHERE id = k\<close> over a table kept as a list of rows.\<close>

definition update_by :: "('a \<Rightarrow> 'k) \<Rightarrow> 'k \<Rightarrow> ('a \<Rightarrow> 'a) \<Rightarrow> 'a list \<Rightarrow> 'a list" where
  "update_by key k f xs = map (\<lambda>x. if key x = k then f x else x) xs"

section \<open>Lemmas on the combinators\<close>

lemma final_state_simps [simp]:
  "final_state (Inl (e, s)) = s" "final_state (Inr s) = s"
  by (simp_all add: final_state_def)

lemma holds_after_simps [simp]:
  "holds_after P (Inl (e, s)) = P s" "holds_after P (Inr s) = P s"
  by (simp_all add: holds_after_def)

lemma andThen_Inr_iff:
  "andThen r f = Inr s' \<longleftrightarrow> (\<exists>s. r = Inr s \<and> f s = Inr s')"
  by (cases r) auto

lemma andThen_assoc:
  "andThen (andThen r f) g = andThen r (\<lambda>s. andThen (f s) g)"
  by (cases r) auto

lemma holds_after_andThen:
  assumes "holds_after P r"
    and "\<And>s. r = Inr s \<Longrightarrow> holds_after P (f s)"
  shows "holds_after P (andThen r f)"
  using assms by (cases r) auto

lemma holds_after_andThenI:
  assumes "holds_after P r"
    and "\<And>s. r = Inr s \<Longrightarrow> P s \<Longrightarrow> holds_after P (f s)"
  shows "holds_after P (andThen r f)"
  using assms by (cases r) auto

lemma andThen_Inr_Inl:
  "andThen r (\<lambda>s. Inr (g s)) = Inl p \<longleftrightarrow> r = Inl p"
  by (cases r) auto

lemma foreach_r_append:
  "foreach_r f (xs @ ys) s = andThen (foreach_r f xs s) (foreach_r f ys)"
proof (induction xs arbitrary: s)
  case Nil
  then show ?case by simp
next
  case (Cons x xs)
  then show ?case by (cases "f x s") auto
qed

text \<open>
  The loop keeps every invariant its body keeps, including in the state in which a body
  throws: this is what a \<^verbatim>\<open>try\<close> around the loop observes.
\<close>

lemma foreach_r_holds_after:
  assumes "P s"
    and "\<And>x s. x \<in> set xs \<Longrightarrow> P s \<Longrightarrow> holds_after P (f x s)"
  shows "holds_after P (foreach_r f xs s)"
  using assms
proof (induction xs arbitrary: s)
  case Nil
  then show ?case by simp
next
  case (Cons x xs)
  have step: "holds_after P (f x s)" using Cons.prems by simp
  show ?case
  proof (cases "f x s")
    case (Inl p)
    with step show ?thesis by (cases p) simp
  next
    case (Inr s')
    with step have "P s'" by simp
    with Cons.IH Cons.prems(2) have "holds_after P (foreach_r f xs s')" by simp
    with Inr show ?thesis by simp
  qed
qed

lemma foreach_r_Inr_iff:
  "foreach_r f (x # xs) s = Inr s'' \<longleftrightarrow> (\<exists>s'. f x s = Inr s' \<and> foreach_r f xs s' = Inr s'')"
  by (simp add: andThen_Inr_iff)

section \<open>Lemmas on updating rows by key\<close>

lemma update_by_Nil [simp]: "update_by key k f [] = []"
  by (simp add: update_by_def)

lemma update_by_Cons [simp]:
  "update_by key k f (x # xs) = (if key x = k then f x else x) # update_by key k f xs"
  by (simp add: update_by_def)

lemma length_update_by [simp]: "length (update_by key k f xs) = length xs"
  by (simp add: update_by_def)

lemma map_key_update_by:
  "(\<And>x. key (f x) = key x) \<Longrightarrow> map key (update_by key k f xs) = map key xs"
  by (induction xs) auto

lemma map_update_by_keep:
  "(\<And>x. g (f x) = g x) \<Longrightarrow> map g (update_by key k f xs) = map g xs"
  by (induction xs) auto

lemma update_by_other:
  "k \<notin> key ` set xs \<Longrightarrow> update_by key k f xs = xs"
  by (induction xs) auto

lemma set_update_by:
  "set (update_by key k f xs) = {x \<in> set xs. key x \<noteq> k} \<union> f ` {x \<in> set xs. key x = k}"
  by (induction xs) auto

lemma find_update_by_same:
  "(\<And>x. key (f x) = key x) \<Longrightarrow>
   find (\<lambda>x. key x = k) (update_by key k f xs) = map_option f (find (\<lambda>x. key x = k) xs)"
  by (induction xs) auto

lemma find_update_by_other:
  "(\<And>x. key (f x) = key x) \<Longrightarrow> j \<noteq> k \<Longrightarrow>
   find (\<lambda>x. key x = j) (update_by key k f xs) = find (\<lambda>x. key x = j) xs"
  by (induction xs) auto

lemma map_if_update_by:
  "(\<And>x. key (f x) = key x) \<Longrightarrow> (\<And>x. f (f x) = f x) \<Longrightarrow>
   map (\<lambda>x. if key x \<in> K then f x else x) (update_by key k f xs) =
   map (\<lambda>x. if key x \<in> insert k K then f x else x) xs"
  by (induction xs) auto

lemma find_update_by_keep:
  "(\<And>x. P (f x) = P x) \<Longrightarrow>
   find P (update_by key k f xs) = map_option (\<lambda>x. if key x = k then f x else x) (find P xs)"
  by (induction xs) auto

lemma find_append_Some:
  "find P xs = Some x \<Longrightarrow> find P (xs @ ys) = Some x"
  by (induction xs) (auto split: if_splits)

lemma find_None_iff: "find P xs = None \<longleftrightarrow> (\<forall>x \<in> set xs. \<not> P x)"
  by (induction xs) auto

lemma find_Some_mem: "find P xs = Some x \<Longrightarrow> x \<in> set xs \<and> P x"
  by (induction xs) (auto split: if_splits)

lemma find_filter_cong: "(\<And>x. x \<in> set xs \<Longrightarrow> P x \<Longrightarrow> Q x) \<Longrightarrow> find P (filter Q xs) = find P xs"
  by (induction xs) auto

lemma filter_update_by_other:
  "(\<And>x. x \<in> set xs \<Longrightarrow> key x = k \<Longrightarrow> \<not> P x \<and> \<not> P (f x)) \<Longrightarrow> filter P (update_by key k f xs) = filter P xs"
  by (induction xs) (auto simp: update_by_def)

lemma list_all_tl: "list_all P xs \<Longrightarrow> list_all P (tl xs)"
  by (cases xs) simp_all

lemma find_key_distinct:
  "distinct (map key xs) \<Longrightarrow> x \<in> set xs \<Longrightarrow> find (\<lambda>y. key y = key x) xs = Some x"
  by (induction xs) (auto simp: image_iff)

text \<open>After a pass that maps every selected row out of the selection, nothing is selected.\<close>

lemma filter_map_if_empty:
  assumes "\<And>x. \<not> P (f x)"
  shows "filter P (map (\<lambda>r. if key r \<in> key ` set (filter P xs) then f r else r) xs) = []"
proof -
  have "\<not> P (if key r \<in> key ` set (filter P xs) then f r else r)" if "r \<in> set xs" for r
  proof (cases "key r \<in> key ` set (filter P xs)")
    case True
    then show ?thesis using assms by simp
  next
    case False
    with that have "\<not> P r" by auto
    with False show ?thesis by simp
  qed
  then show ?thesis unfolding filter_empty_conv set_map by blast
qed
lemma mem_update_by:
  "r \<in> set (update_by key k f xs) \<longleftrightarrow> (\<exists>x \<in> set xs. r = (if key x = k then f x else x))"
  by (induction xs) auto

lemma distinct_key_eq:
  "distinct (map key xs) \<Longrightarrow> x \<in> set xs \<Longrightarrow> y \<in> set xs \<Longrightarrow> key x = key y \<Longrightarrow> x = y"
  by (metis distinct_map inj_onD)

lemma update_by_update_by:
  "update_by key k f (update_by key k g xs) = update_by key k (\<lambda>x. f (g x)) xs"
  if "\<And>x. key (g x) = key x"
  using that by (induction xs) auto

lemma update_by_id:
  "(\<And>x. x \<in> set xs \<Longrightarrow> key x = k \<Longrightarrow> f x = x) \<Longrightarrow> update_by key k f xs = xs"
  by (induction xs) auto

lemma update_by_roundtrip:
  assumes "distinct (map key xs)" "t \<in> set xs" "g (f t) = t" and fk: "\<And>x. key (f x) = key x"
  shows "update_by key (key t) g (update_by key (key t) f xs) = xs"
proof -
  have "update_by key (key t) g (update_by key (key t) f xs) = update_by key (key t) (\<lambda>x. g (f x)) xs"
    by (rule update_by_update_by) (rule fk)
  also have "\<dots> = xs"
  proof (rule update_by_id)
    fix x assume "x \<in> set xs" "key x = key t"
    then have "x = t" using assms(1,2) distinct_key_eq [of key xs x t] by simp
    then show "g (f x) = x" using assms(3) by simp
  qed
  finally show ?thesis .
qed

end
