(* ===== verification/Store.thy ===== *)
theory Store
  imports Prelude
begin

text \<open>
  The thread store and the world it lives in. The thread table, the \<open>Thread\<close> record
  and the queries of \<^verbatim>\<open>data/threads.js\<close> are not among the sources of this
  repository; they are modelled from the specification (sections 3 and 4.1). The world
  also records, as a list of events, every effect the handlers have on the outside:
  direct messages to users, system messages in thread channels, audit-log posts and
  channel deletions; and it holds the environment the handlers read: the clock, the
  blocked users, the users who cannot receive direct messages, the bot's user cache and
  the thread rows whose writes fail.
\<close>

section \<open>Threads\<close>

datatype thread_status = OPEN | CLOSED | SUSPENDED

record thread =
  thread_id :: thread_id
  user_id :: user_id
  user_name :: string
  channel_id :: channel_id
  status :: thread_status
  scheduled_close_at :: "db_time option"
  scheduled_close_id :: "user_id option"
  scheduled_close_name :: "string option"
  scheduled_close_silent :: bool
  scheduled_suspend_at :: "db_time option"
  scheduled_suspend_id :: "user_id option"
  scheduled_suspend_name :: "string option"
  alert_id :: "user_id option"

text \<open>The message author (\<^verbatim>\<open>msg.author\<close>, an Eris user).\<close>

record author =
  author_id :: user_id
  username :: string
  discriminator :: string

section \<open>Observable effects\<close>

text \<open>
  One constructor per system message the handlers post. \<open>CloseScheduledMsg s d\<close> is
  the reply to a timed close: \<open>s\<close> is whether its wording announces a silent close,
  \<open>d\<close> the delay in milliseconds.
\<close>

datatype sysmsg =
    ClosedByUserMsg
  | CloseCancelledMsg
  | InvalidDelayMsg
  | CloseScheduledMsg bool nat
  | ScheduledSuspendMsg "string option"
  | SuspendCancelledMsg
  | NotScheduledToSuspendMsg
  | SuspendScheduledMsg nat
  | SuspendedMsg
  | NotSuspendedMsg
  | NotInThreadMsg
  | OtherOpenThreadMsg channel_id
  | UnsuspendedMsg
  | AlertCancelledMsg
  | AlertSetMsg string string
  | UserNotFoundMsg
  | ExistingThreadMsg channel_id
  | OpenedByMsg string string
  | ThreadOpenedMsg channel_id

text \<open>
  Audit-log entries (\<^verbatim>\<open>utils.postLog\<close>); the last field is the thread whose
  transcript the log URL (\<^verbatim>\<open>thread.getLogUrl()\<close>) references.
\<close>

datatype log_entry =
    LogScheduledClose string user_id "string option" thread_id
  | LogClosedBy string user_id string thread_id
  | LogChannelDeleted string user_id thread_id

datatype event =
    DirectMessage user_id string
  | SystemMessage thread_id sysmsg
  | ChannelMessage channel_id sysmsg
  | AuditLog log_entry
  | ChannelDeleted channel_id
  | ConsoleError error

section \<open>The world\<close>

record world =
  threads :: "thread list"
  clock :: ms
  next_id :: nat
  blocked :: "user_id list"
  unreachable :: "user_id list"
  known_users :: "(user_id \<times> string) list"
  failing :: "thread_id list"
  out :: "event list"

definition emit :: "event \<Rightarrow> world \<Rightarrow> world" where
  "emit e w = w\<lparr>out := out w @ [e]\<rparr>"

section \<open>Queries (data/threads.js, from the specification)\<close>

definition get_thread :: "thread_id \<Rightarrow> world \<Rightarrow> thread option" where
  "get_thread tid w = find (\<lambda>t. thread_id t = tid) (threads w)"

definition findOpenThreadByUserId :: "user_id \<Rightarrow> world \<Rightarrow> thread option" where
  "findOpenThreadByUserId u w = find (\<lambda>t. user_id t = u \<and> status t = OPEN) (threads w)"

definition findOpenThreadByChannelId :: "channel_id \<Rightarrow> world \<Rightarrow> thread option" where
  "findOpenThreadByChannelId c w = find (\<lambda>t. channel_id t = c \<and> status t = OPEN) (threads w)"

definition findSuspendedThreadByChannelId :: "channel_id \<Rightarrow> world \<Rightarrow> thread option" where
  "findSuspendedThreadByChannelId c w =
     find (\<lambda>t. channel_id t = c \<and> status t = SUSPENDED) (threads w)"

text \<open>A scheduled timestamp is due when it is set and not after the poll time.\<close>

definition is_due :: "db_time option \<Rightarrow> ms \<Rightarrow> bool" where
  "is_due at now = (case at of None \<Rightarrow> False | Some a \<Rightarrow> a \<le> db_format now)"

definition getThreadsThatShouldBeClosed :: "world \<Rightarrow> thread list" where
  "getThreadsThatShouldBeClosed w =
     filter (\<lambda>t. status t = OPEN \<and> is_due (scheduled_close_at t) (clock w)) (threads w)"

definition getThreadsThatShouldBeSuspended :: "world \<Rightarrow> thread list" where
  "getThreadsThatShouldBeSuspended w =
     filter (\<lambda>t. status t = OPEN \<and> is_due (scheduled_suspend_at t) (clock w)) (threads w)"

section \<open>Writes\<close>

text \<open>
  \<open>store_update tid f\<close> is one \<^verbatim>\<open>UPDATE threads SET ... WHERE id = tid\<close>; it raises
  when the persistence layer fails for that row.
\<close>

definition store_update :: "thread_id \<Rightarrow> (thread \<Rightarrow> thread) \<Rightarrow> world \<Rightarrow> world result" where
  "store_update tid f w =
     (if tid \<in> set (failing w) then Inl (StoreFailure, w)
      else Inr (w\<lparr>threads := update_by thread_id tid f (threads w)\<rparr>))"

definition new_thread :: "thread_id \<Rightarrow> user_id \<Rightarrow> string \<Rightarrow> channel_id \<Rightarrow> thread" where
  "new_thread tid u name c =
     \<lparr>thread_id = tid, user_id = u, user_name = name, channel_id = c, status = OPEN,
      scheduled_close_at = None, scheduled_close_id = None, scheduled_close_name = None,
      scheduled_close_silent = False, scheduled_suspend_at = None,
      scheduled_suspend_id = None, scheduled_suspend_name = None, alert_id = None\<rparr>"

text \<open>
  \<^verbatim>\<open>createNewThreadForUser(user, quiet, ignoreRequirements)\<close>: a fresh row and a fresh
  inbox channel, both numbered by \<open>next_id\<close>; it checks nothing (specification 4.1,
  \<^verbatim>\<open>create(userId, channelId)\<close>).
\<close>

definition createNewThreadForUser :: "user_id \<Rightarrow> string \<Rightarrow> world \<Rightarrow> thread \<times> world" where
  "createNewThreadForUser u name w =
     (let t = new_thread (next_id w) u name (next_id w)
      in (t, w\<lparr>threads := threads w @ [t], next_id := Suc (next_id w)\<rparr>))"

section \<open>Configuration and incoming messages\<close>

text \<open>
  The options of \<^verbatim>\<open>config.js\<close> the handlers read. \<^verbatim>\<open>closeMessage\<close> is unset
  (\<open>None\<close>) or a string; JavaScript treats the empty string as false.
\<close>

record config =
  closeMessage :: "string option"
  allowUserClose :: bool
  prefix :: string
  inbox_guild :: guild_id

definition js_truthy :: "string option \<Rightarrow> bool" where
  "js_truthy s = (case s of None \<Rightarrow> False | Some x \<Rightarrow> x \<noteq> [])"

text \<open>\<^verbatim>\<open>utils.readMultilineConfigValue(config.closeMessage)\<close> of a string option.\<close>

definition close_text :: "config \<Rightarrow> string" where
  "close_text cfg = (case closeMessage cfg of None \<Rightarrow> [] | Some x \<Rightarrow> x)"

text \<open>
  The channel a message or a deletion event is about: a direct-message channel
  (\<^verbatim>\<open>Eris.PrivateChannel\<close>), a guild text channel (\<^verbatim>\<open>Eris.TextChannel\<close>), or any
  other kind.
\<close>

datatype chan = PrivateChannel | TextChannel guild_id channel_id | OtherChannel

record message =
  msg_author :: author
  msg_channel :: chan
  author_is_staff :: bool

definition messageIsOnInboxServer :: "config \<Rightarrow> message \<Rightarrow> bool" where
  "messageIsOnInboxServer cfg msg =
     (case msg_channel msg of TextChannel g c \<Rightarrow> g = inbox_guild cfg | _ \<Rightarrow> False)"

definition msg_channel_id :: "message \<Rightarrow> channel_id option" where
  "msg_channel_id msg = (case msg_channel msg of TextChannel g c \<Rightarrow> Some c | _ \<Rightarrow> None)"

text \<open>
  The delay-string helpers of \<^verbatim>\<open>utils.js\<close> (not among the sources) are parameters of
  the handlers that use them: a test of \<^verbatim>\<open>utils.delayStringRegex\<close> and
  \<^verbatim>\<open>utils.convertDelayStringToMS\<close>, which answers \<^verbatim>\<open>null\<close> for a malformed string.
\<close>

record delay_parser =
  delayStringRegex_test :: "string \<Rightarrow> bool"
  convertDelayStringToMS :: "string \<Rightarrow> nat option"

section \<open>Example data\<close>

text \<open>A staff member's message in inbox channel \<open>c\<close> (guild 1).\<close>

definition example_staff_msg :: "channel_id \<Rightarrow> message" where
  "example_staff_msg c =
     \<lparr>msg_author = \<lparr>author_id = 99, username = ''mod'', discriminator = ''0001''\<rparr>,
      msg_channel = TextChannel 1 c, author_is_staff = True\<rparr>"

section \<open>Invariants of the table\<close>

text \<open>
  The specification's main invariant (section 3): at most one open thread per user. Two
  open rows of the same user are the same row.
\<close>

definition one_open_per_user :: "world \<Rightarrow> bool" where
  "one_open_per_user w =
     (\<forall>r \<in> set (threads w). \<forall>r' \<in> set (threads w).
        status r = OPEN \<longrightarrow> status r' = OPEN \<longrightarrow> user_id r = user_id r' \<longrightarrow>
        thread_id r = thread_id r')"

section \<open>Observations\<close>

text \<open>The audit-log posts among the events, in order.\<close>

fun audit_logs :: "event list \<Rightarrow> log_entry list" where
  "audit_logs [] = []"
| "audit_logs (AuditLog l # es) = l # audit_logs es"
| "audit_logs (_ # es) = audit_logs es"

text \<open>The system messages among the events, in order, with the thread they were posted in.\<close>

fun sys_messages :: "event list \<Rightarrow> (thread_id \<times> sysmsg) list" where
  "sys_messages [] = []"
| "sys_messages (SystemMessage tid m # es) = (tid, m) # sys_messages es"
| "sys_messages (_ # es) = sys_messages es"

section \<open>Basic facts\<close>

lemma audit_logs_append [simp]: "audit_logs (es @ fs) = audit_logs es @ audit_logs fs"
  by (induction es rule: audit_logs.induct) auto

lemma sys_messages_append [simp]: "sys_messages (es @ fs) = sys_messages es @ sys_messages fs"
  by (induction es rule: sys_messages.induct) auto

lemma get_thread_row:
  "distinct (map thread_id (threads w)) \<Longrightarrow> r \<in> set (threads w) \<Longrightarrow>
   get_thread (thread_id r) w = Some r"
  by (simp add: get_thread_def find_key_distinct)

lemma emit_simps [simp, frame]:
  "threads (emit e w) = threads w" "clock (emit e w) = clock w"
  "next_id (emit e w) = next_id w" "blocked (emit e w) = blocked w"
  "unreachable (emit e w) = unreachable w" "known_users (emit e w) = known_users w"
  "failing (emit e w) = failing w" "out (emit e w) = out w @ [e]"
  by (simp_all add: emit_def)

lemma store_update_Inr:
  "store_update tid f w = Inr w' \<longleftrightarrow>
     tid \<notin> set (failing w) \<and> w' = w\<lparr>threads := update_by thread_id tid f (threads w)\<rparr>"
  by (auto simp: store_update_def)

lemma store_update_Inl:
  "store_update tid f w = Inl (e, w') \<longleftrightarrow> tid \<in> set (failing w) \<and> e = StoreFailure \<and> w' = w"
  by (auto simp: store_update_def)

lemma get_thread_SomeD:
  "get_thread tid w = Some t \<Longrightarrow> t \<in> set (threads w) \<and> thread_id t = tid"
  by (auto simp: get_thread_def find_Some_iff)

lemma find_open_SomeD:
  "findOpenThreadByUserId u w = Some t \<Longrightarrow> t \<in> set (threads w) \<and> user_id t = u \<and> status t = OPEN"
  "findOpenThreadByChannelId c w = Some t \<Longrightarrow> t \<in> set (threads w) \<and> channel_id t = c \<and> status t = OPEN"
  "findSuspendedThreadByChannelId c w = Some t \<Longrightarrow>
     t \<in> set (threads w) \<and> channel_id t = c \<and> status t = SUSPENDED"
  by (auto simp: findOpenThreadByUserId_def findOpenThreadByChannelId_def
      findSuspendedThreadByChannelId_def find_Some_iff)

lemma findOpenThreadByUserId_None:
  "findOpenThreadByUserId u w = None \<longleftrightarrow> (\<forall>t \<in> set (threads w). user_id t = u \<longrightarrow> status t \<noteq> OPEN)"
  by (auto simp: findOpenThreadByUserId_def find_None_iff)

end
