(* ===== verification/Thread.thy ===== *)
theory Thread
  imports Store
begin

text \<open>
  The lifecycle methods of a \<open>Thread\<close> (\<^verbatim>\<open>data/Thread.js\<close>, not among the sources;
  modelled from the specification, section 4.2). Each method re-reads the current row,
  validates the transition against it, writes the row back, and only then has its side
  effect: an invalid precondition is the error \<open>Rejected\<close>, a failed write is
  \<open>StoreFailure\<close>, and in both cases nothing has been written. The notification helpers
  (\<^verbatim>\<open>postSystemMessage\<close>, \<^verbatim>\<open>postToUser(...).catch(() => {})\<close>, \<^verbatim>\<open>utils.postLog\<close>)
  append to the event list; a direct message to an unreachable user is swallowed.
\<close>

section \<open>Guarded writes\<close>

definition checked_update ::
  "thread_id \<Rightarrow> (thread \<Rightarrow> bool) \<Rightarrow> (thread \<Rightarrow> thread) \<Rightarrow> world \<Rightarrow> world result" where
  "checked_update tid ok f w =
     (case get_thread tid w of
        None \<Rightarrow> Inl (Rejected, w)
      | Some t \<Rightarrow> if ok t then store_update tid f w else Inl (Rejected, w))"

definition clear_close_schedule :: "thread \<Rightarrow> thread" where
  "clear_close_schedule t =
     t\<lparr>scheduled_close_at := None, scheduled_close_id := None,
       scheduled_close_name := None, scheduled_close_silent := False\<rparr>"

definition clear_suspend_schedule :: "thread \<Rightarrow> thread" where
  "clear_suspend_schedule t =
     t\<lparr>scheduled_suspend_at := None, scheduled_suspend_id := None,
       scheduled_suspend_name := None\<rparr>"

text \<open>The row a successful \<^verbatim>\<open>close\<close> writes.\<close>

definition close_row :: "thread \<Rightarrow> thread" where
  "close_row t = (clear_suspend_schedule (clear_close_schedule t))\<lparr>status := CLOSED\<rparr>"

text \<open>The row a successful \<^verbatim>\<open>suspend\<close> writes.\<close>

definition suspend_row :: "thread \<Rightarrow> thread" where
  "suspend_row t = (clear_suspend_schedule (clear_close_schedule t))\<lparr>status := SUSPENDED\<rparr>"

section \<open>Lifecycle methods\<close>

text \<open>\<^verbatim>\<open>close\<close>: from OPEN or SUSPENDED; clears both schedules, then tears the channel down.\<close>

definition thread_close :: "thread_id \<Rightarrow> world \<Rightarrow> world result" where
  "thread_close tid w =
     (case get_thread tid w of
        None \<Rightarrow> Inl (Rejected, w)
      | Some t \<Rightarrow>
          andThen
            (checked_update tid (\<lambda>t. status t \<noteq> CLOSED) close_row w)
            (\<lambda>w'. Inr (emit (ChannelDeleted (channel_id t)) w')))"

definition thread_suspend :: "thread_id \<Rightarrow> world \<Rightarrow> world result" where
  "thread_suspend tid = checked_update tid (\<lambda>t. status t = OPEN) suspend_row"

definition thread_unsuspend :: "thread_id \<Rightarrow> world \<Rightarrow> world result" where
  "thread_unsuspend tid =
     checked_update tid (\<lambda>t. status t = SUSPENDED) (\<lambda>t. t\<lparr>status := OPEN\<rparr>)"

definition thread_scheduleClose ::
  "thread_id \<Rightarrow> db_time \<Rightarrow> author \<Rightarrow> bool \<Rightarrow> world \<Rightarrow> world result" where
  "thread_scheduleClose tid at a silent =
     checked_update tid (\<lambda>t. status t = OPEN)
       (\<lambda>t. t\<lparr>scheduled_close_at := Some at, scheduled_close_id := Some (author_id a),
              scheduled_close_name := Some (username a), scheduled_close_silent := silent\<rparr>)"

definition thread_cancelScheduledClose :: "thread_id \<Rightarrow> world \<Rightarrow> world result" where
  "thread_cancelScheduledClose tid =
     checked_update tid (\<lambda>t. scheduled_close_at t \<noteq> None) clear_close_schedule"

definition thread_scheduleSuspend :: "thread_id \<Rightarrow> db_time \<Rightarrow> author \<Rightarrow> world \<Rightarrow> world result" where
  "thread_scheduleSuspend tid at a =
     checked_update tid (\<lambda>t. status t = OPEN)
       (\<lambda>t. t\<lparr>scheduled_suspend_at := Some at, scheduled_suspend_id := Some (author_id a),
              scheduled_suspend_name := Some (username a)\<rparr>)"

definition thread_cancelScheduledSuspend :: "thread_id \<Rightarrow> world \<Rightarrow> world result" where
  "thread_cancelScheduledSuspend tid =
     checked_update tid (\<lambda>t. scheduled_suspend_at t \<noteq> None) clear_suspend_schedule"

text \<open>\<^verbatim>\<open>setAlert\<close> is independent of the status: a plain write.\<close>

definition thread_setAlert :: "thread_id \<Rightarrow> user_id option \<Rightarrow> world \<Rightarrow> world result" where
  "thread_setAlert tid a = store_update tid (\<lambda>t. t\<lparr>alert_id := a\<rparr>)"

section \<open>Notifications\<close>

definition postSystemMessage :: "thread_id \<Rightarrow> sysmsg \<Rightarrow> world \<Rightarrow> world" where
  "postSystemMessage tid m = emit (SystemMessage tid m)"

text \<open>\<^verbatim>\<open>thread.postToUser(text).catch(() => {})\<close>: delivery failure is swallowed.\<close>

definition postToUser_caught :: "user_id \<Rightarrow> string \<Rightarrow> world \<Rightarrow> world" where
  "postToUser_caught u text w =
     (if u \<in> set (unreachable w) then w else emit (DirectMessage u text) w)"

definition postLog :: "log_entry \<Rightarrow> world \<Rightarrow> world" where
  "postLog l = emit (AuditLog l)"

section \<open>Facts about the methods\<close>

lemma checked_update_Inr:
  "checked_update tid ok f w = Inr w' \<longleftrightarrow>
     (\<exists>t. get_thread tid w = Some t \<and> ok t \<and> tid \<notin> set (failing w) \<and>
          w' = w\<lparr>threads := update_by thread_id tid f (threads w)\<rparr>)"
  by (auto simp: checked_update_def store_update_Inr split: option.splits)

lemma checked_update_Inl:
  "checked_update tid ok f w = Inl (e, w') \<Longrightarrow> w' = w"
  by (auto simp: checked_update_def store_update_def split: option.splits if_splits)

lemma thread_close_Inr:
  "thread_close tid w = Inr w' \<longleftrightarrow>
     (\<exists>t. get_thread tid w = Some t \<and> status t \<noteq> CLOSED \<and> tid \<notin> set (failing w) \<and>
          w' = emit (ChannelDeleted (channel_id t))
                 (w\<lparr>threads := update_by thread_id tid close_row (threads w)\<rparr>))"
  by (auto simp: thread_close_def andThen_Inr_iff checked_update_Inr split: option.splits)

lemma thread_close_Inl:
  "thread_close tid w = Inl (e, w') \<Longrightarrow> w' = w"
  by (cases "checked_update tid (\<lambda>t. status t \<noteq> CLOSED) close_row w")
     (auto simp: thread_close_def dest: checked_update_Inl split: option.splits)

lemma close_row_simps [simp]:
  "thread_id (close_row t) = thread_id t" "user_id (close_row t) = user_id t"
  "user_name (close_row t) = user_name t"
  "channel_id (close_row t) = channel_id t" "status (close_row t) = CLOSED"
  "scheduled_close_at (close_row t) = None" "scheduled_suspend_at (close_row t) = None"
  "close_row (close_row t) = close_row t"
  by (simp_all add: close_row_def clear_close_schedule_def clear_suspend_schedule_def)

lemma suspend_row_simps [simp]:
  "thread_id (suspend_row t) = thread_id t" "user_id (suspend_row t) = user_id t"
  "channel_id (suspend_row t) = channel_id t" "status (suspend_row t) = SUSPENDED"
  "scheduled_close_at (suspend_row t) = None" "scheduled_suspend_at (suspend_row t) = None"
  "suspend_row (suspend_row t) = suspend_row t"
  by (simp_all add: suspend_row_def clear_close_schedule_def clear_suspend_schedule_def)

lemma close_row_if_keys [simp]:
  "thread_id (if c then close_row t else t) = thread_id t"
  "user_id (if c then close_row t else t) = user_id t"
  "channel_id (if c then close_row t else t) = channel_id t"
  "thread_id (if c then suspend_row t else t) = thread_id t"
  "user_id (if c then suspend_row t else t) = user_id t"
  "channel_id (if c then suspend_row t else t) = channel_id t"
  by simp_all

lemma postToUser_caught_out [simp]:
  "audit_logs (out (postToUser_caught u x w)) = audit_logs (out w)"
  by (simp add: postToUser_caught_def)

lemmas thread_method_defs =
  thread_suspend_def thread_unsuspend_def thread_scheduleClose_def
  thread_cancelScheduledClose_def thread_scheduleSuspend_def
  thread_cancelScheduledSuspend_def

lemma notification_frame [simp, frame]:
  "threads (postSystemMessage tid m w) = threads w"
  "threads (postToUser_caught u text w) = threads w"
  "threads (postLog l w) = threads w"
  "next_id (postSystemMessage tid m w) = next_id w"
  "next_id (postToUser_caught u text w) = next_id w"
  "next_id (postLog l w) = next_id w"
  "clock (postSystemMessage tid m w) = clock w"
  "clock (postToUser_caught u text w) = clock w"
  "clock (postLog l w) = clock w"
  "failing (postSystemMessage tid m w) = failing w"
  "failing (postToUser_caught u text w) = failing w"
  "failing (postLog l w) = failing w"
  by (simp_all add: postSystemMessage_def postToUser_caught_def postLog_def)

section \<open>Passes over a list of rows\<close>

text \<open>
  A pass is a \<^verbatim>\<open>for ... of\<close> over row snapshots whose body, on success, rewrites
  the row with the snapshot's id by an idempotent \<open>f\<close> and appends one observation
  \<open>g t\<close>. The scheduled-close and scheduled-suspend passes are both of this shape.
\<close>

lemma foreach_rows_Inr:
  assumes spec: "\<And>t w w'. P t \<Longrightarrow> step t w = Inr w' \<Longrightarrow>
        threads w' = update_by thread_id (thread_id t) f (threads w) \<and> obs (out w') = obs (out w) @ [g t]
        \<and> clock w' = clock w \<and> failing w' = failing w"
    and f: "\<And>x. thread_id (f x) = thread_id x" "\<And>x. f (f x) = f x"
    and P: "\<forall>t \<in> set L. P t"
    and run: "foreach_r step L w = Inr w'"
  shows "threads w' = map (\<lambda>r. if thread_id r \<in> thread_id ` set L then f r else r) (threads w)
       \<and> obs (out w') = obs (out w) @ map g L \<and> clock w' = clock w \<and> failing w' = failing w"
  using P run
proof (induction L arbitrary: w)
  case Nil
  then show ?case by simp
next
  case (Cons t L)
  then obtain w1 where w1: "step t w = Inr w1" and rest: "foreach_r step L w1 = Inr w'"
    by (auto simp: andThen_Inr_iff)
  have "threads w1 = update_by thread_id (thread_id t) f (threads w) \<and> obs (out w1) = obs (out w) @ [g t]
        \<and> clock w1 = clock w \<and> failing w1 = failing w"
    using spec [OF _ w1] Cons.prems(1) by simp
  with Cons.IH [OF _ rest] Cons.prems(1) show ?case by (simp add: map_if_update_by f)
qed

lemma foreach_rows_final:
  assumes spec: "\<And>t w w'. P t \<Longrightarrow> step t w = Inr w' \<Longrightarrow>
        threads w' = update_by thread_id (thread_id t) f (threads w) \<and> obs (out w') = obs (out w) @ [g t]"
    and fail: "\<And>t w e w'. P t \<Longrightarrow> step t w = Inl (e, w') \<Longrightarrow>
        threads w' = threads w \<and> obs (out w') = obs (out w)"
    and f: "\<And>x. thread_id (f x) = thread_id x" "\<And>x. f (f x) = f x"
    and P: "\<forall>t \<in> set L. P t"
  shows "\<exists>n. threads (final_state (foreach_r step L w)) =
         map (\<lambda>r. if thread_id r \<in> thread_id ` set (take n L) then f r else r) (threads w)
     \<and> obs (out (final_state (foreach_r step L w))) = obs (out w) @ map g (take n L)"
  using P
proof (induction L arbitrary: w)
  case Nil
  then show ?case by simp
next
  case (Cons t L)
  show ?case
  proof (cases "step t w")
    case (Inl p)
    then obtain e w' where p: "step t w = Inl (e, w')" by (cases p) auto
    then show ?thesis
      using fail [OF _ p] Cons.prems by (intro exI [of _ 0]) simp
  next
    case (Inr w1)
    from Cons.IH [of w1] Cons.prems obtain n where
      "threads (final_state (foreach_r step L w1)) =
         map (\<lambda>r. if thread_id r \<in> thread_id ` set (take n L) then f r else r) (threads w1)"
      "obs (out (final_state (foreach_r step L w1))) = obs (out w1) @ map g (take n L)"
      by auto
    with Inr spec [OF _ Inr] Cons.prems show ?thesis
      by (intro exI [of _ "Suc n"]) (simp add: map_if_update_by f)
  qed
qed

lemma foreach_rows_progress:
  assumes spec: "\<And>t w w'. P t \<Longrightarrow> step t w = Inr w' \<Longrightarrow>
        threads w' = update_by thread_id (thread_id t) f (threads w) \<and> failing w' = failing w"
    and go: "\<And>t w r. P t \<Longrightarrow> distinct (map thread_id (threads w)) \<Longrightarrow>
        r \<in> set (threads w) \<Longrightarrow> thread_id r = thread_id t \<Longrightarrow> ok r \<Longrightarrow>
        thread_id t \<notin> set (failing w) \<Longrightarrow> \<exists>w'. step t w = Inr w'"
    and f: "\<And>x. thread_id (f x) = thread_id x"
    and ids: "distinct (map thread_id (threads w))" and dL: "distinct (map thread_id L)"
    and P: "\<forall>t \<in> set L. P t"
    and rows: "\<forall>t \<in> set L. thread_id t \<notin> set (failing w) \<and>
           (\<exists>r \<in> set (threads w). thread_id r = thread_id t \<and> ok r)"
  shows "\<exists>w'. foreach_r step L w = Inr w'"
  using ids dL P rows
proof (induction L arbitrary: w)
  case Nil
  then show ?case by simp
next
  case (Cons t L)
  then obtain r where r: "r \<in> set (threads w)" "thread_id r = thread_id t" "ok r"
    and nf: "thread_id t \<notin> set (failing w)" by auto
  with Cons.prems(1,3) go obtain w1 where w1: "step t w = Inr w1" by fastforce
  have facts: "threads w1 = update_by thread_id (thread_id t) f (threads w)" "failing w1 = failing w"
    using spec [OF _ w1] Cons.prems(3) by simp_all
  have "\<forall>t' \<in> set L. thread_id t' \<notin> set (failing w1) \<and>
           (\<exists>r \<in> set (threads w1). thread_id r = thread_id t' \<and> ok r)"
  proof
    fix t' assume t': "t' \<in> set L"
    then have ne: "thread_id t' \<noteq> thread_id t" using Cons.prems(2) by (auto simp: image_iff)
    from t' Cons.prems(4) obtain r' where "r' \<in> set (threads w)" "thread_id r' = thread_id t'"
        "ok r'" "thread_id t' \<notin> set (failing w)" by auto
    with ne facts show "thread_id t' \<notin> set (failing w1) \<and>
           (\<exists>r \<in> set (threads w1). thread_id r = thread_id t' \<and> ok r)"
      by (auto simp: set_update_by)
  qed
  moreover have "distinct (map thread_id (threads w1))"
    using Cons.prems(1) facts(1) by (simp add: map_key_update_by f)
  ultimately obtain w' where "foreach_r step L w1 = Inr w'"
    using Cons.IH [of w1] Cons.prems(2,3) by auto
  with w1 show ?case by simp
qed

section \<open>The one-open-thread invariant under row updates\<close>

lemma one_open_per_userD:
  "one_open_per_user w \<Longrightarrow> r \<in> set (threads w) \<Longrightarrow> r' \<in> set (threads w) \<Longrightarrow>
   status r = OPEN \<Longrightarrow> status r' = OPEN \<Longrightarrow> user_id r = user_id r' \<Longrightarrow> thread_id r = thread_id r'"
  unfolding one_open_per_user_def by blast

lemma one_open_per_user_threads:
  "threads w' = threads w \<Longrightarrow> one_open_per_user w' = one_open_per_user w"
  by (simp add: one_open_per_user_def)

lemma one_open_update_by:
  assumes inv: "one_open_per_user w"
    and st: "\<And>r. status (f r) = OPEN \<Longrightarrow> status r = OPEN"
    and keys: "\<And>r. user_id (f r) = user_id r" "\<And>r. thread_id (f r) = thread_id r"
  shows "one_open_per_user (w\<lparr>threads := update_by thread_id tid f (threads w)\<rparr>)"
  unfolding one_open_per_user_def
proof (intro ballI impI)
  fix r r' assume r: "r \<in> set (threads (w\<lparr>threads := update_by thread_id tid f (threads w)\<rparr>))"
    and r': "r' \<in> set (threads (w\<lparr>threads := update_by thread_id tid f (threads w)\<rparr>))"
    and o: "status r = OPEN" and o': "status r' = OPEN" and u: "user_id r = user_id r'"
  from r obtain x where x: "x \<in> set (threads w)" "r = (if thread_id x = tid then f x else x)"
    by (auto simp: mem_update_by)
  from r' obtain x' where x': "x' \<in> set (threads w)" "r' = (if thread_id x' = tid then f x' else x')"
    by (auto simp: mem_update_by)
  have "status x = OPEN" using x(2) o st by (auto split: if_splits)
  moreover have "status x' = OPEN" using x'(2) o' st by (auto split: if_splits)
  moreover have "user_id x = user_id x'" using x(2) x'(2) u keys by (auto split: if_splits)
  ultimately have "thread_id x = thread_id x'" using one_open_per_userD [OF inv x(1) x'(1)] by blast
  then show "thread_id r = thread_id r'" using x(2) x'(2) keys by (auto split: if_splits)
qed

lemma one_open_update_reopen:
  assumes inv: "one_open_per_user w"
    and none: "\<forall>r \<in> set (threads w). user_id r = u \<longrightarrow> status r \<noteq> OPEN"
    and same: "\<forall>r \<in> set (threads w). thread_id r = tid \<longrightarrow> user_id r = u"
  shows "one_open_per_user (w\<lparr>threads := update_by thread_id tid (\<lambda>r. r\<lparr>status := OPEN\<rparr>) (threads w)\<rparr>)"
  unfolding one_open_per_user_def
proof (intro ballI impI)
  fix r r' assume r: "r \<in> set (threads (w\<lparr>threads := update_by thread_id tid (\<lambda>r. r\<lparr>status := OPEN\<rparr>) (threads w)\<rparr>))"
    and r': "r' \<in> set (threads (w\<lparr>threads := update_by thread_id tid (\<lambda>r. r\<lparr>status := OPEN\<rparr>) (threads w)\<rparr>))"
    and o: "status r = OPEN" and o': "status r' = OPEN" and ur: "user_id r = user_id r'"
  from r obtain x where x: "x \<in> set (threads w)" "r = (if thread_id x = tid then x\<lparr>status := OPEN\<rparr> else x)"
    by (auto simp: mem_update_by)
  from r' obtain x' where x': "x' \<in> set (threads w)" "r' = (if thread_id x' = tid then x'\<lparr>status := OPEN\<rparr> else x')"
    by (auto simp: mem_update_by)
  show "thread_id r = thread_id r'"
  proof (cases "thread_id x = tid"; cases "thread_id x' = tid")
    assume "thread_id x = tid" "thread_id x' = tid"
    then show ?thesis using x(2) x'(2) by simp
  next
    assume a: "thread_id x = tid" "thread_id x' \<noteq> tid"
    then have "user_id x' = u" "status x' = OPEN" using x x' same o' ur by auto
    with none x'(1) show ?thesis by auto
  next
    assume a: "thread_id x \<noteq> tid" "thread_id x' = tid"
    then have "user_id x = u" "status x = OPEN" using x x' same o ur by auto
    with none x(1) show ?thesis by auto
  next
    assume a: "thread_id x \<noteq> tid" "thread_id x' \<noteq> tid"
    then have "x = r" "x' = r'" using x(2) x'(2) by simp_all
    then show ?thesis using one_open_per_userD [OF inv x(1) x'(1)] o o' ur by blast
  qed
qed

lemma one_open_notifications [simp]:
  "one_open_per_user (postSystemMessage tid m w) = one_open_per_user w"
  "one_open_per_user (postToUser_caught u x w) = one_open_per_user w"
  "one_open_per_user (postLog l w) = one_open_per_user w"
  "one_open_per_user (emit e w) = one_open_per_user w"
  by (simp_all add: one_open_per_user_def)

lemma one_open_append:
  assumes inv: "one_open_per_user w"
    and none: "\<forall>r \<in> set (threads w). user_id r = user_id t \<longrightarrow> status r \<noteq> OPEN"
  shows "one_open_per_user (w\<lparr>threads := threads w @ [t], next_id := n\<rparr>)"
  unfolding one_open_per_user_def
proof (intro ballI impI)
  fix r r' assume r: "r \<in> set (threads (w\<lparr>threads := threads w @ [t], next_id := n\<rparr>))"
    and r': "r' \<in> set (threads (w\<lparr>threads := threads w @ [t], next_id := n\<rparr>))"
    and o: "status r = OPEN" and o': "status r' = OPEN" and u: "user_id r = user_id r'"
  show "thread_id r = thread_id r'"
  proof (cases "r = t"; cases "r' = t")
    assume "r = t" "r' \<noteq> t"
    with r' o' u none show ?thesis by auto
  next
    assume "r \<noteq> t" "r' = t"
    with r o u none show ?thesis by auto
  next
    assume "r \<noteq> t" "r' \<noteq> t"
    with r r' have "r \<in> set (threads w)" "r' \<in> set (threads w)" by auto
    from one_open_per_userD [OF inv this o o' u] show ?thesis .
  qed simp
qed

end
