(* ===== verification/Close.thy ===== *)
theory Close
  imports Thread
begin

text \<open>
  \<^verbatim>\<open>src/modmailbot/src/modules/close.js\<close>: the scheduled-close pass and its polling
  loop, the \<^verbatim>\<open>close\<close> command (a user closing their own thread from direct messages,
  or a staff member closing, scheduling or cancelling in the thread channel), and the
  automatic close when a thread channel is deleted. Each handler is one definition over
  the world; an \<^verbatim>\<open>await\<close> that rejects ends the handler with the error and the world
  as it was at that point.
\<close>

section \<open>Scheduled closes (close.js, lines 10--39)\<close>

text \<open>
  One iteration of the loop body of \<^verbatim>\<open>applyScheduledCloses\<close>, for a thread snapshot
  taken by the query at the start of the pass.
\<close>

definition scheduled_close_log :: "thread \<Rightarrow> log_entry" where
  "scheduled_close_log t =
     LogScheduledClose (user_name t) (user_id t) (scheduled_close_name t) (thread_id t)"

definition close_due :: "config \<Rightarrow> thread \<Rightarrow> world \<Rightarrow> world result" where
  "close_due cfg t w =
     (let w1 = (if js_truthy (closeMessage cfg) \<and> \<not> scheduled_close_silent t
                then postToUser_caught (user_id t) (close_text cfg) w else w)
      in andThen (thread_close (thread_id t) w1) (\<lambda>w2. Inr (postLog (scheduled_close_log t) w2)))"

definition applyScheduledCloses :: "config \<Rightarrow> world \<Rightarrow> world result" where
  "applyScheduledCloses cfg w = foreach_r (close_due cfg) (getThreadsThatShouldBeClosed w) w"

text \<open>
  One run of \<^verbatim>\<open>scheduledCloseLoop\<close> up to its \<^verbatim>\<open>setTimeout\<close>: the pass, with an
  exception caught and logged to the console. The next run is scheduled 2000 ms later.
\<close>

definition scheduledCloseLoop_tick :: "config \<Rightarrow> world \<Rightarrow> world" where
  "scheduledCloseLoop_tick cfg w =
     (case applyScheduledCloses cfg w of
        Inl (e, w') \<Rightarrow> emit (ConsoleError e) w'
      | Inr w' \<Rightarrow> w')"

definition close_loop_period :: ms where
  "close_loop_period = 2000"

section \<open>The close command (close.js, lines 41--129)\<close>

text \<open>Lines 118--128: the farewell message and the audit log after a close.\<close>

definition close_epilogue :: "config \<Rightarrow> thread \<Rightarrow> bool \<Rightarrow> string \<Rightarrow> world \<Rightarrow> world result" where
  "close_epilogue cfg t silentClose closedBy w =
     (let w1 = (if js_truthy (closeMessage cfg) \<and> \<not> silentClose
                then postToUser_caught (user_id t) (close_text cfg) w else w)
      in Inr (postLog (LogClosedBy (user_name t) (user_id t) closedBy (thread_id t)) w1))"

text \<open>
  Lines 88--110: a timed close. The reply's wording is the same on both branches of the
  \<^verbatim>\<open>if (silentClose)\<close>: both announce a silent close.
\<close>

definition timed_close ::
  "delay_parser \<Rightarrow> author \<Rightarrow> thread \<Rightarrow> bool \<Rightarrow> string \<Rightarrow> world \<Rightarrow> world result" where
  "timed_close dp a t silentClose delayStringArg w =
     (case convertDelayStringToMS dp delayStringArg of
        None \<Rightarrow> Inr (postSystemMessage (thread_id t) InvalidDelayMsg w)
      | Some delay \<Rightarrow>
          if delay = 0 then Inr (postSystemMessage (thread_id t) InvalidDelayMsg w)
          else andThen
                 (thread_scheduleClose (thread_id t) (db_format (clock w + delay)) a silentClose w)
                 (\<lambda>w'. Inr (postSystemMessage (thread_id t)
                              (CloseScheduledMsg (if silentClose then True else True) delay) w')))"

text \<open>Lines 64--116: a staff member in the thread channel, thread already found.\<close>

definition staff_close ::
  "config \<Rightarrow> delay_parser \<Rightarrow> author \<Rightarrow> string list \<Rightarrow> thread \<Rightarrow> world \<Rightarrow> world result" where
  "staff_close cfg dp a opts t w =
     (if opts \<noteq> [] \<and> (''cancel'' \<in> set opts \<or> ''c'' \<in> set opts) then
        (if scheduled_close_at t \<noteq> None
         then andThen (thread_cancelScheduledClose (thread_id t) w)
                (\<lambda>w'. Inr (postSystemMessage (thread_id t) CloseCancelledMsg w'))
         else Inr w)
      else
        (let silentClose = (opts \<noteq> [] \<and> (''silent'' \<in> set opts \<or> ''s'' \<in> set opts))
         in case (if opts \<noteq> [] then find (delayStringRegex_test dp) opts else None) of
              Some d \<Rightarrow> timed_close dp a t silentClose d w
            | None \<Rightarrow> andThen (thread_close (thread_id t) w)
                        (close_epilogue cfg t silentClose (username a))))"

text \<open>
  Lines 48--63: the user closes their own thread from direct messages. The close runs
  through \<^verbatim>\<open>messageQueue.add\<close>; in this sequential model nothing else is queued, so the
  queued function runs at once and its failure is the caller's (theory \<open>Interleave\<close>
  lets another handler run at the \<^verbatim>\<open>await\<close> before it).
\<close>

definition user_close :: "config \<Rightarrow> author \<Rightarrow> world \<Rightarrow> world result" where
  "user_close cfg a w =
     (if \<not> allowUserClose cfg then Inr w
      else if author_id a \<in> set (blocked w) then Inr w
      else case findOpenThreadByUserId (author_id a) w of
             None \<Rightarrow> Inr w
           | Some t \<Rightarrow>
               andThen (thread_close (thread_id t) (postSystemMessage (thread_id t) ClosedByUserMsg w))
                 (close_epilogue cfg t False ''the user''))"

definition close_cmd ::
  "config \<Rightarrow> delay_parser \<Rightarrow> message \<Rightarrow> string list \<Rightarrow> world \<Rightarrow> world result" where
  "close_cmd cfg dp msg opts w =
     (case msg_channel msg of
        PrivateChannel \<Rightarrow> user_close cfg (msg_author msg) w
      | TextChannel g c \<Rightarrow>
          if \<not> messageIsOnInboxServer cfg msg then Inr w
          else if \<not> author_is_staff msg then Inr w
          else (case findOpenThreadByChannelId c w of
                  None \<Rightarrow> Inr w
                | Some t \<Rightarrow> staff_close cfg dp (msg_author msg) opts t w)
      | OtherChannel \<Rightarrow> Inr w)"

section \<open>Channel deletion (close.js, lines 131--152)\<close>

definition channelDelete :: "config \<Rightarrow> chan \<Rightarrow> world \<Rightarrow> world result" where
  "channelDelete cfg ch w =
     (case ch of
        TextChannel g c \<Rightarrow>
          if g \<noteq> inbox_guild cfg then Inr w
          else (case findOpenThreadByChannelId c w of
                  None \<Rightarrow> Inr w
                | Some t \<Rightarrow>
                    let w1 = (if js_truthy (closeMessage cfg)
                              then postToUser_caught (user_id t) (close_text cfg) w else w)
                    in andThen (thread_close (thread_id t) w1)
                         (\<lambda>w2. Inr (postLog (LogChannelDeleted (user_name t) (user_id t)
                                                 (thread_id t)) w2)))
      | _ \<Rightarrow> Inr w)"

section \<open>Example worlds\<close>

text \<open>
  Two open threads whose scheduled close times (5 s and 7 s) have passed at the clock
  10 000 ms, the first with a farewell; \<open>fails\<close> lists the rows whose writes fail.
\<close>

definition example_thread :: "thread_id \<Rightarrow> user_id \<Rightarrow> string \<Rightarrow> db_time \<Rightarrow> thread" where
  "example_thread tid u name at =
     (new_thread tid u name tid)\<lparr>scheduled_close_at := Some at, scheduled_close_id := Some 99,
                                  scheduled_close_name := Some ''mod''\<rparr>"

definition example_world :: "thread_id list \<Rightarrow> world" where
  "example_world fails =
     \<lparr>threads = [example_thread 1 10 ''ana'' 5, example_thread 2 20 ''bo'' 7],
      clock = 10000, next_id = 3, blocked = [], unreachable = [], known_users = [],
      failing = fails, out = []\<rparr>"

definition example_config :: config where
  "example_config =
     \<lparr>closeMessage = Some ''bye'', allowUserClose = True, prefix = ''!'', inbox_guild = 1\<rparr>"

section \<open>The scheduled-close pass\<close>

lemma close_due_Inr:
  assumes "close_due cfg t w = Inr w'"
  shows "threads w' = update_by thread_id (thread_id t) close_row (threads w)"
    and "audit_logs (out w') = audit_logs (out w) @ [scheduled_close_log t]"
    and "clock w' = clock w" "failing w' = failing w" "next_id w' = next_id w"
  using assms
  by (auto simp: close_due_def Let_def andThen_Inr_iff thread_close_Inr postLog_def
      postToUser_caught_def split: if_splits)

lemma close_due_Inl:
  assumes "close_due cfg t w = Inl (e, w')"
  shows "threads w' = threads w" and "audit_logs (out w') = audit_logs (out w)"
proof -
  define w1 where "w1 = (if js_truthy (closeMessage cfg) \<and> \<not> scheduled_close_silent t
                then postToUser_caught (user_id t) (close_text cfg) w else w)"
  have "thread_close (thread_id t) w1 = Inl (e, w')"
    using assms by (simp add: close_due_def w1_def andThen_Inr_Inl)
  then have "w' = w1" by (rule thread_close_Inl)
  then show "threads w' = threads w" and "audit_logs (out w') = audit_logs (out w)"
    by (simp_all add: w1_def postToUser_caught_out)
qed

lemma close_due_progress:
  assumes "get_thread (thread_id t) w = Some r" "status r \<noteq> CLOSED" "thread_id t \<notin> set (failing w)"
  shows "\<exists>w'. close_due cfg t w = Inr w'"
  using assms
  by (auto simp: close_due_def Let_def thread_close_def checked_update_def store_update_def
      get_thread_def postToUser_caught_def)

lemma close_due_pass_Inr:
  "foreach_r (close_due cfg) L w = Inr w' \<Longrightarrow>
   threads w' = map (\<lambda>r. if thread_id r \<in> thread_id ` set L then close_row r else r) (threads w)
   \<and> audit_logs (out w') = audit_logs (out w) @ map scheduled_close_log L
   \<and> clock w' = clock w \<and> failing w' = failing w"
  by (rule foreach_rows_Inr [where P = "\<lambda>_. True"]) (simp_all add: close_due_Inr)

lemma close_due_pass_progress:
  assumes "distinct (map thread_id (threads w))" "distinct (map thread_id L)"
    and "\<forall>t \<in> set L. thread_id t \<notin> set (failing w) \<and>
           (\<exists>r \<in> set (threads w). thread_id r = thread_id t \<and> status r \<noteq> CLOSED)"
  shows "\<exists>w'. foreach_r (close_due cfg) L w = Inr w'"
proof (rule foreach_rows_progress [where P = "\<lambda>_. True" and f = close_row])
  show "\<And>t w w'. True \<Longrightarrow> close_due cfg t w = Inr w' \<Longrightarrow>
        threads w' = update_by thread_id (thread_id t) close_row (threads w) \<and> failing w' = failing w"
    by (simp add: close_due_Inr)
  show "\<And>t w r. True \<Longrightarrow> distinct (map thread_id (threads w)) \<Longrightarrow>
        r \<in> set (threads w) \<Longrightarrow> thread_id r = thread_id t \<Longrightarrow> status r \<noteq> CLOSED \<Longrightarrow>
        thread_id t \<notin> set (failing w) \<Longrightarrow> \<exists>w'. close_due cfg t w = Inr w'"
    by (metis close_due_progress get_thread_row)
qed (use assms in simp_all)

lemma close_due_pass_final:
  "\<exists>n. threads (final_state (foreach_r (close_due cfg) L w)) =
         map (\<lambda>r. if thread_id r \<in> thread_id ` set (take n L) then close_row r else r) (threads w)
     \<and> audit_logs (out (final_state (foreach_r (close_due cfg) L w))) =
         audit_logs (out w) @ map scheduled_close_log (take n L)"
  by (rule foreach_rows_final [where P = "\<lambda>_. True"]) (simp_all add: close_due_Inr close_due_Inl)

lemma close_due_fail:
  assumes "get_thread (thread_id t) w = Some r" "status r \<noteq> CLOSED" "thread_id t \<in> set (failing w)"
  shows "\<exists>w'. close_due cfg t w = Inl (StoreFailure, w') \<and> threads w' = threads w
              \<and> audit_logs (out w') = audit_logs (out w)"
  using assms
  by (auto simp: close_due_def Let_def thread_close_def checked_update_def store_update_def
      get_thread_def postToUser_caught_def)

lemma due_rows:
  "t \<in> set (getThreadsThatShouldBeClosed w) \<Longrightarrow>
     t \<in> set (threads w) \<and> status t = OPEN \<and> is_due (scheduled_close_at t) (clock w)"
  by (simp add: getThreadsThatShouldBeClosed_def)

lemma distinct_due:
  "distinct (map thread_id (threads w)) \<Longrightarrow> distinct (map thread_id (getThreadsThatShouldBeClosed w))"
  by (simp add: getThreadsThatShouldBeClosed_def distinct_map_filter)

text \<open>
  C1. One pass of the scheduled-close loop fires every due thread exactly once: when no
  due thread's row fails to write, the pass completes, every thread that was open with a
  scheduled close at or before the poll time is closed with both schedules cleared, every
  other row is unchanged, exactly one scheduled-close audit entry is posted per due thread
  in query order, and afterwards no thread is due any more.
\<close>

theorem applyScheduledCloses_fires_due:
  assumes ids: "distinct (map thread_id (threads w))"
    and ok: "\<forall>t \<in> set (getThreadsThatShouldBeClosed w). thread_id t \<notin> set (failing w)"
  shows "\<exists>w'. applyScheduledCloses cfg w = Inr w' \<and>
     threads w' = map (\<lambda>r. if thread_id r \<in> thread_id ` set (getThreadsThatShouldBeClosed w)
                           then close_row r else r) (threads w) \<and>
     audit_logs (out w') = audit_logs (out w) @ map scheduled_close_log (getThreadsThatShouldBeClosed w) \<and>
     getThreadsThatShouldBeClosed w' = []"
proof -
  let ?D = "getThreadsThatShouldBeClosed w"
  have "\<forall>t \<in> set ?D. thread_id t \<notin> set (failing w) \<and>
           (\<exists>r \<in> set (threads w). thread_id r = thread_id t \<and> status r \<noteq> CLOSED)"
  proof
    fix t assume t: "t \<in> set ?D"
    then have "t \<in> set (threads w) \<and> status t = OPEN" by (simp add: getThreadsThatShouldBeClosed_def)
    with t ok show "thread_id t \<notin> set (failing w) \<and>
           (\<exists>r \<in> set (threads w). thread_id r = thread_id t \<and> status r \<noteq> CLOSED)" by auto
  qed
  then obtain w' where w': "foreach_r (close_due cfg) ?D w = Inr w'"
    using close_due_pass_progress [OF ids distinct_due [OF ids]] by blast
  note facts = close_due_pass_Inr [OF w']
  have "getThreadsThatShouldBeClosed w' = []"
    using facts filter_map_if_empty [of "\<lambda>t. status t = OPEN \<and> is_due (scheduled_close_at t) (clock w)"
        close_row thread_id "threads w"]
    by (simp add: getThreadsThatShouldBeClosed_def)
  with w' facts show ?thesis unfolding applyScheduledCloses_def by blast
qed

text \<open>
  C2. Whatever its outcome, a pass of the scheduled-close loop acts on a prefix of the due
  list and on nothing else: it never closes, or logs, a thread whose scheduled close is
  unset or later than the poll time.
\<close>

theorem applyScheduledCloses_due_prefix:
  "\<exists>n. threads (final_state (applyScheduledCloses cfg w)) =
         map (\<lambda>r. if thread_id r \<in> thread_id ` set (take n (getThreadsThatShouldBeClosed w))
                  then close_row r else r) (threads w)
     \<and> audit_logs (out (final_state (applyScheduledCloses cfg w))) =
         audit_logs (out w) @ map scheduled_close_log (take n (getThreadsThatShouldBeClosed w))"
  unfolding applyScheduledCloses_def by (rule close_due_pass_final)

text \<open>
  C3. A failure on one due thread is not isolated: if the write of a due thread fails,
  the pass raises there, and every due thread after it in the query order is left open
  and due for this tick (the loop's \<^verbatim>\<open>try\<close> encloses the whole pass, not one
  thread), while the threads before it have been closed and logged.
\<close>

theorem applyScheduledCloses_failure_skips_rest:
  assumes ids: "distinct (map thread_id (threads w))"
    and due: "getThreadsThatShouldBeClosed w = xs @ t # ys"
    and ok: "\<forall>x \<in> set xs. thread_id x \<notin> set (failing w)"
    and bad: "thread_id t \<in> set (failing w)"
  shows "\<exists>w'. applyScheduledCloses cfg w = Inl (StoreFailure, w') \<and> set ys \<subseteq> set (threads w')
             \<and> audit_logs (out w') = audit_logs (out w) @ map scheduled_close_log xs"
proof -
  have dD: "distinct (map thread_id (xs @ t # ys))" using distinct_due [OF ids] due by simp
  have rows: "\<forall>y \<in> set (xs @ t # ys). y \<in> set (threads w) \<and> status y = OPEN"
    using due_rows [of _ w] unfolding due by blast
  have "\<forall>x \<in> set xs. thread_id x \<notin> set (failing w) \<and>
           (\<exists>r \<in> set (threads w). thread_id r = thread_id x \<and> status r \<noteq> CLOSED)"
    using ok rows by fastforce
  moreover have "distinct (map thread_id xs)" using dD by simp
  ultimately obtain w1 where w1: "foreach_r (close_due cfg) xs w = Inr w1"
    using close_due_pass_progress [OF ids] by blast
  note f1 = close_due_pass_Inr [OF w1]
  have keep: "y \<in> set (threads w1)" if "y \<in> set (t # ys)" for y
  proof -
    from that dD have "thread_id y \<notin> thread_id ` set xs" by auto
    with that rows f1 show ?thesis by force
  qed
  have ids1: "distinct (map thread_id (threads w1))"
    using ids f1 by (simp add: comp_def)
  have "get_thread (thread_id t) w1 = Some t"
    using get_thread_row [OF ids1 keep] by simp
  with rows bad f1 obtain w2 where w2: "close_due cfg t w1 = Inl (StoreFailure, w2)"
      "threads w2 = threads w1" "audit_logs (out w2) = audit_logs (out w1)"
    using close_due_fail [of t w1 t] by auto
  have "applyScheduledCloses cfg w = Inl (StoreFailure, w2)"
    by (simp add: applyScheduledCloses_def due foreach_r_append w1 w2)
  with w2 keep f1 show ?thesis by auto
qed

lemmas example_defs =
  example_world_def example_thread_def example_config_def new_thread_def
  getThreadsThatShouldBeClosed_def is_due_def db_format_def

theorem applyScheduledCloses_fires_due_witness:
  "distinct (map thread_id (threads (example_world []))) \<and>
   map thread_id (getThreadsThatShouldBeClosed (example_world [])) = [1, 2] \<and>
   failing (example_world []) = [] \<and>
   (\<exists>w'. applyScheduledCloses example_config (example_world []) = Inr w' \<and>
         getThreadsThatShouldBeClosed w' = [])"
proof -
  have h1: "distinct (map thread_id (threads (example_world [])))"
    by (simp add: example_defs)
  have h2: "\<forall>t \<in> set (getThreadsThatShouldBeClosed (example_world [])).
      thread_id t \<notin> set (failing (example_world []))"
    by (simp add: example_defs)
  have h3: "map thread_id (getThreadsThatShouldBeClosed (example_world [])) = [1, 2]"
    by (simp add: example_defs)
  have h4: "failing (example_world []) = []"
    by (simp add: example_defs)
  from applyScheduledCloses_fires_due [OF h1 h2, of example_config] h1 h3 h4 show ?thesis
    by blast
qed

theorem applyScheduledCloses_failure_skips_rest_witness:
  "distinct (map thread_id (threads (example_world [1]))) \<and>
   getThreadsThatShouldBeClosed (example_world [1]) = [] @ example_thread 1 10 ''ana'' 5 # [example_thread 2 20 ''bo'' 7] \<and>
   (\<exists>w'. applyScheduledCloses example_config (example_world [1]) = Inl (StoreFailure, w') \<and>
         example_thread 2 20 ''bo'' 7 \<in> set (threads w'))"
proof -
  have h1: "distinct (map thread_id (threads (example_world [1])))"
    by (simp add: example_defs)
  have h2: "getThreadsThatShouldBeClosed (example_world [1]) =
              [] @ example_thread 1 10 ''ana'' 5 # [example_thread 2 20 ''bo'' 7]"
    by (simp add: example_defs)
  have h3: "\<forall>x \<in> set []. thread_id x \<notin> set (failing (example_world [1]))" by simp
  have h4: "thread_id (example_thread 1 10 ''ana'' 5) \<in> set (failing (example_world [1]))"
    by (simp add: example_defs)
  from applyScheduledCloses_failure_skips_rest [OF h1 h2 h3 h4, of example_config] h1 h2
  show ?thesis by auto
qed

end
