(* ===== verification/Suspend.thy ===== *)
theory Suspend
  imports Thread
begin

text \<open>
  \<^verbatim>\<open>src/modmailbot/src/modules/suspend.js\<close>: the scheduled-suspend pass and its
  polling loop, and the \<^verbatim>\<open>suspend cancel\<close>, \<^verbatim>\<open>suspend [delay]\<close> and
  \<^verbatim>\<open>unsuspend\<close> commands. The inbox-thread commands receive the open thread of the
  channel they were typed in (the command framework finds it and does not run the
  handler without one); \<^verbatim>\<open>unsuspend\<close> is an inbox-server command and receives that
  thread or \<^verbatim>\<open>null\<close>.
\<close>

section \<open>Scheduled suspensions (suspend.js, lines 9--30)\<close>

definition suspend_due :: "thread \<Rightarrow> world \<Rightarrow> world result" where
  "suspend_due t w =
     (if status t = OPEN
      then andThen (thread_suspend (thread_id t) w)
             (\<lambda>w'. Inr (postSystemMessage (thread_id t) (ScheduledSuspendMsg (scheduled_suspend_name t)) w'))
      else Inr w)"

definition applyScheduledSuspensions :: "world \<Rightarrow> world result" where
  "applyScheduledSuspensions w = foreach_r suspend_due (getThreadsThatShouldBeSuspended w) w"

definition scheduledSuspendLoop_tick :: "world \<Rightarrow> world" where
  "scheduledSuspendLoop_tick w =
     (case applyScheduledSuspensions w of
        Inl (e, w') \<Rightarrow> emit (ConsoleError e) w'
      | Inr w' \<Rightarrow> w')"

definition suspend_loop_period :: ms where
  "suspend_loop_period = 2000"

section \<open>Commands (suspend.js, lines 32--76)\<close>

definition suspend_cancel_cmd :: "thread \<Rightarrow> world \<Rightarrow> world result" where
  "suspend_cancel_cmd t w =
     (if scheduled_suspend_at t \<noteq> None
      then andThen (thread_cancelScheduledSuspend (thread_id t) w)
             (\<lambda>w'. Inr (postSystemMessage (thread_id t) SuspendCancelledMsg w'))
      else Inr (postSystemMessage (thread_id t) NotScheduledToSuspendMsg w))"

text \<open>
  \<^verbatim>\<open>args.delay\<close> is the parsed delay in milliseconds, absent when none was given; a
  delay of 0 is falsy in \<^verbatim>\<open>if (args.delay)\<close> and suspends at once.
\<close>

definition suspend_cmd :: "author \<Rightarrow> nat option \<Rightarrow> thread \<Rightarrow> world \<Rightarrow> world result" where
  "suspend_cmd a delay t w =
     (case delay of
        Some d \<Rightarrow>
          if d \<noteq> 0
          then andThen (thread_scheduleSuspend (thread_id t) (db_format (clock w + d)) a w)
                 (\<lambda>w'. Inr (postSystemMessage (thread_id t) (SuspendScheduledMsg d) w'))
          else andThen (thread_suspend (thread_id t) w)
                 (\<lambda>w'. Inr (postSystemMessage (thread_id t) SuspendedMsg w'))
      | None \<Rightarrow> andThen (thread_suspend (thread_id t) w)
                 (\<lambda>w'. Inr (postSystemMessage (thread_id t) SuspendedMsg w')))"

text \<open>
  Lines 56--76. With no suspended thread in the channel the handler calls
  \<^verbatim>\<open>thread.postSystemMessage\<close> on \<^verbatim>\<open>null\<close>: a \<^verbatim>\<open>TypeError\<close>.
\<close>

definition unsuspend_cmd :: "message \<Rightarrow> thread option \<Rightarrow> world \<Rightarrow> world result" where
  "unsuspend_cmd msg thr w =
     (case thr of
        Some t \<Rightarrow> Inr (postSystemMessage (thread_id t) NotSuspendedMsg w)
      | None \<Rightarrow>
          (case (case msg_channel_id msg of
                   Some c \<Rightarrow> findSuspendedThreadByChannelId c w
                 | None \<Rightarrow> None) of
             None \<Rightarrow> Inl (NullDeref, w)
           | Some t \<Rightarrow>
               (case findOpenThreadByUserId (user_id t) w of
                  Some other \<Rightarrow>
                    Inr (postSystemMessage (thread_id t) (OtherOpenThreadMsg (channel_id other)) w)
                | None \<Rightarrow>
                    andThen (thread_unsuspend (thread_id t) w)
                      (\<lambda>w'. Inr (postSystemMessage (thread_id t) UnsuspendedMsg w')))))"

section \<open>Example worlds\<close>

text \<open>
  Thread 1 (user 10, channel 1) in the given status with a scheduled suspend at 5 s;
  optionally thread 2 (user 10, channel 2) open; the clock at 10 000 ms.
\<close>

definition example_sthread :: "thread_id \<Rightarrow> thread_status \<Rightarrow> thread" where
  "example_sthread tid st =
     (new_thread tid 10 ''ana'' tid)\<lparr>status := st, scheduled_suspend_at := Some 5,
                                     scheduled_suspend_name := Some ''mod''\<rparr>"

definition example_sworld :: "thread list \<Rightarrow> world" where
  "example_sworld ts =
     \<lparr>threads = ts, clock = 10000, next_id = 3, blocked = [], unreachable = [], known_users = [],
      failing = [], out = []\<rparr>"

section \<open>The scheduled-suspend pass\<close>

lemma suspend_due_Inr:
  assumes "status t = OPEN" "suspend_due t w = Inr w'"
  shows "threads w' = update_by thread_id (thread_id t) suspend_row (threads w)
    \<and> sys_messages (out w') = sys_messages (out w) @ [(thread_id t, ScheduledSuspendMsg (scheduled_suspend_name t))]
    \<and> clock w' = clock w \<and> failing w' = failing w"
  using assms
  by (auto simp: suspend_due_def thread_suspend_def andThen_Inr_iff checked_update_Inr postSystemMessage_def)

lemma suspend_due_Inl:
  "suspend_due t w = Inl (e, w') \<Longrightarrow> threads w' = threads w \<and> sys_messages (out w') = sys_messages (out w)"
  by (auto simp: suspend_due_def thread_suspend_def andThen_Inr_Inl dest: checked_update_Inl split: if_splits)

lemma suspend_due_progress:
  "status t = OPEN \<Longrightarrow> get_thread (thread_id t) w = Some r \<Longrightarrow> status r = OPEN \<Longrightarrow>
   thread_id t \<notin> set (failing w) \<Longrightarrow> \<exists>w'. suspend_due t w = Inr w'"
  by (auto simp: suspend_due_def thread_suspend_def checked_update_def store_update_def)

lemma due_suspend_rows:
  "t \<in> set (getThreadsThatShouldBeSuspended w) \<Longrightarrow>
     t \<in> set (threads w) \<and> status t = OPEN \<and> is_due (scheduled_suspend_at t) (clock w)"
  by (simp add: getThreadsThatShouldBeSuspended_def)

text \<open>With no failing write among the due rows, the pass completes.\<close>

lemma applyScheduledSuspensions_progress:
  assumes ids: "distinct (map thread_id (threads w))"
    and ok: "\<forall>t \<in> set (getThreadsThatShouldBeSuspended w). thread_id t \<notin> set (failing w)"
  shows "\<exists>w'. applyScheduledSuspensions w = Inr w'"
  unfolding applyScheduledSuspensions_def
proof (rule foreach_rows_progress [where P = "\<lambda>t. status t = OPEN" and f = suspend_row
      and ok = "\<lambda>r. status r = OPEN"])
  show "\<And>t w w'. status t = OPEN \<Longrightarrow> suspend_due t w = Inr w' \<Longrightarrow>
      threads w' = update_by thread_id (thread_id t) suspend_row (threads w) \<and> failing w' = failing w"
    by (simp add: suspend_due_Inr)
  show "\<And>t w r. status t = OPEN \<Longrightarrow> distinct (map thread_id (threads w)) \<Longrightarrow>
      r \<in> set (threads w) \<Longrightarrow> thread_id r = thread_id t \<Longrightarrow> status r = OPEN \<Longrightarrow>
      thread_id t \<notin> set (failing w) \<Longrightarrow> \<exists>w'. suspend_due t w = Inr w'"
    by (metis suspend_due_progress get_thread_row)
  show "distinct (map thread_id (getThreadsThatShouldBeSuspended w))"
    using ids by (simp add: getThreadsThatShouldBeSuspended_def distinct_map_filter)
  show "\<forall>t \<in> set (getThreadsThatShouldBeSuspended w). thread_id t \<notin> set (failing w) \<and>
      (\<exists>r \<in> set (threads w). thread_id r = thread_id t \<and> status r = OPEN)"
    using ok due_suspend_rows by blast
qed (use ids due_suspend_rows in auto)

text \<open>A completed pass suspends exactly the due rows and posts one message for each.\<close>

lemma applyScheduledSuspensions_Inr:
  assumes "applyScheduledSuspensions w = Inr w'"
  shows "threads w' = map (\<lambda>r. if thread_id r \<in> thread_id ` set (getThreadsThatShouldBeSuspended w)
                                 then suspend_row r else r) (threads w)
     \<and> sys_messages (out w') = sys_messages (out w) @
         map (\<lambda>t. (thread_id t, ScheduledSuspendMsg (scheduled_suspend_name t))) (getThreadsThatShouldBeSuspended w)
     \<and> clock w' = clock w \<and> failing w' = failing w"
  by (rule foreach_rows_Inr [where P = "\<lambda>t. status t = OPEN"])
     (use assms due_suspend_rows in \<open>simp_all add: suspend_due_Inr applyScheduledSuspensions_def\<close>)

text \<open>
  C4. One pass of the scheduled-suspend loop suspends every due thread exactly once: when
  no due row fails to write, every open thread whose scheduled suspend is at or before the
  poll time becomes suspended with its schedules cleared, every other row is unchanged,
  one system message announcing the scheduled suspension is posted in each of those
  threads in query order, and afterwards no thread is due for suspension.
\<close>

theorem applyScheduledSuspensions_fires_due:
  assumes ids: "distinct (map thread_id (threads w))"
    and ok: "\<forall>t \<in> set (getThreadsThatShouldBeSuspended w). thread_id t \<notin> set (failing w)"
  shows "\<exists>w'. applyScheduledSuspensions w = Inr w' \<and>
     threads w' = map (\<lambda>r. if thread_id r \<in> thread_id ` set (getThreadsThatShouldBeSuspended w)
                           then suspend_row r else r) (threads w) \<and>
     sys_messages (out w') = sys_messages (out w) @
        map (\<lambda>t. (thread_id t, ScheduledSuspendMsg (scheduled_suspend_name t))) (getThreadsThatShouldBeSuspended w) \<and>
     getThreadsThatShouldBeSuspended w' = []"
proof -
  let ?D = "getThreadsThatShouldBeSuspended w"
  obtain w' where w': "applyScheduledSuspensions w = Inr w'"
    using applyScheduledSuspensions_progress [OF ids ok] by blast
  note facts = applyScheduledSuspensions_Inr [OF w']
  have "getThreadsThatShouldBeSuspended w' = []"
    using facts filter_map_if_empty [of "\<lambda>t. status t = OPEN \<and> is_due (scheduled_suspend_at t) (clock w)"
        suspend_row thread_id "threads w"]
    by (simp add: getThreadsThatShouldBeSuspended_def)
  with w' facts show ?thesis by blast
qed

text \<open>
  C5. Unsuspending keeps the specification's main invariant: if at most one thread per
  user is open before an \<^verbatim>\<open>unsuspend\<close> command, the same holds after it, on every
  path (rejection, success, and the paths that throw).
\<close>

theorem unsuspend_cmd_keeps_one_open:
  assumes inv: "one_open_per_user w" and ids: "distinct (map thread_id (threads w))"
  shows "one_open_per_user (final_state (unsuspend_cmd msg thr w))"
proof (cases thr)
  case (Some t)
  with inv show ?thesis by (simp add: unsuspend_cmd_def)
next
  case None
  show ?thesis
  proof (cases "case msg_channel_id msg of Some c \<Rightarrow> findSuspendedThreadByChannelId c w | None \<Rightarrow> None")
    case None': None
    with None inv show ?thesis by (simp add: unsuspend_cmd_def)
  next
    case (Some t)
    then have t: "t \<in> set (threads w)" "status t = SUSPENDED"
      by (auto dest: find_open_SomeD split: option.splits)
    show ?thesis
    proof (cases "findOpenThreadByUserId (user_id t) w")
      case (Some d)
      with None \<open>_ = Some t\<close> inv show ?thesis by (simp add: unsuspend_cmd_def)
    next
      case None'': None
      then have none: "\<forall>r \<in> set (threads w). user_id r = user_id t \<longrightarrow> status r \<noteq> OPEN"
        by (simp add: findOpenThreadByUserId_None)
      have same: "\<forall>r \<in> set (threads w). thread_id r = thread_id t \<longrightarrow> user_id r = user_id t"
        using distinct_key_eq [OF ids _ t(1)] by blast
      have "one_open_per_user (final_state (thread_unsuspend (thread_id t) w))"
      proof (cases "thread_unsuspend (thread_id t) w")
        case (Inl p)
        with inv show ?thesis
          by (cases p) (auto simp: thread_unsuspend_def dest: checked_update_Inl)
      next
        case (Inr w1)
        then have "w1 = w\<lparr>threads := update_by thread_id (thread_id t) (\<lambda>r. r\<lparr>status := OPEN\<rparr>) (threads w)\<rparr>"
          by (auto simp: thread_unsuspend_def checked_update_Inr)
        with Inr one_open_update_reopen [OF inv none same] show ?thesis by simp
      qed
      with None None'' \<open>_ = Some t\<close> show ?thesis
        by (cases "thread_unsuspend (thread_id t) w") (auto simp: unsuspend_cmd_def)
    qed
  qed
qed

text \<open>
  C6. \<^verbatim>\<open>unsuspend\<close> in a suspended thread's channel reopens that thread exactly when
  the user has no other open thread at the moment of the check; otherwise it posts the
  other thread's channel and leaves the suspended thread as it was. Either way the
  handler completes.
\<close>

theorem unsuspend_cmd_reopens_iff:
  assumes ids: "distinct (map thread_id (threads w))"
    and c: "msg_channel_id msg = Some c" and t: "findSuspendedThreadByChannelId c w = Some t"
    and nf: "thread_id t \<notin> set (failing w)"
  shows "\<exists>w'. unsuspend_cmd msg None w = Inr w' \<and>
           (get_thread (thread_id t) w' = Some (t\<lparr>status := OPEN\<rparr>) \<longleftrightarrow>
            findOpenThreadByUserId (user_id t) w = None)"
proof -
  have row: "t \<in> set (threads w)" "status t = SUSPENDED" using find_open_SomeD(3) [OF t] by simp_all
  have gt: "get_thread (thread_id t) w = Some t" by (rule get_thread_row [OF ids row(1)])
  show ?thesis
  proof (cases "findOpenThreadByUserId (user_id t) w")
    case (Some d)
    have "t\<lparr>status := OPEN\<rparr> \<noteq> t" using row(2) by (metis thread.select_convs(5) thread.surjective
        thread.update_convs(5) thread_status.distinct(3))
    with Some c t gt show ?thesis
      by (simp add: unsuspend_cmd_def get_thread_def postSystemMessage_def)
  next
    case None
    let ?w1 = "w\<lparr>threads := update_by thread_id (thread_id t) (\<lambda>r. r\<lparr>status := OPEN\<rparr>) (threads w)\<rparr>"
    have "thread_unsuspend (thread_id t) w = Inr ?w1"
      using gt row(2) nf by (simp add: thread_unsuspend_def checked_update_def store_update_def)
    moreover have "get_thread (thread_id t) ?w1 = Some (t\<lparr>status := OPEN\<rparr>)"
      using gt by (simp add: get_thread_def find_update_by_same)
    ultimately show ?thesis using None c t
      by (simp add: unsuspend_cmd_def get_thread_def postSystemMessage_def)
  qed
qed

text \<open>
  C7. \<^verbatim>\<open>unsuspend\<close> typed in an inbox channel that is neither an open nor a
  suspended thread throws: the handler calls \<^verbatim>\<open>postSystemMessage\<close> on the
  \<^verbatim>\<open>null\<close> it has just found, instead of answering that the channel is not a thread.
\<close>

theorem unsuspend_cmd_outside_thread_throws:
  assumes "msg_channel_id msg = Some c" "findSuspendedThreadByChannelId c w = None"
  shows "unsuspend_cmd msg None w = Inl (NullDeref, w)"
  using assms by (simp add: unsuspend_cmd_def)

lemmas example_sdefs =
  example_sthread_def example_sworld_def example_staff_msg_def new_thread_def msg_channel_id_def
  getThreadsThatShouldBeSuspended_def is_due_def db_format_def

theorem applyScheduledSuspensions_fires_due_witness:
  "distinct (map thread_id (threads (example_sworld [example_sthread 1 OPEN]))) \<and>
   map thread_id (getThreadsThatShouldBeSuspended (example_sworld [example_sthread 1 OPEN])) = [1] \<and>
   failing (example_sworld [example_sthread 1 OPEN]) = [] \<and>
   (\<exists>w'. applyScheduledSuspensions (example_sworld [example_sthread 1 OPEN]) = Inr w' \<and>
         getThreadsThatShouldBeSuspended w' = [])"
proof -
  let ?w = "example_sworld [example_sthread 1 OPEN]"
  have h1: "distinct (map thread_id (threads ?w))" by (simp add: example_sdefs)
  have h2: "\<forall>t \<in> set (getThreadsThatShouldBeSuspended ?w). thread_id t \<notin> set (failing ?w)"
    by (simp add: example_sdefs)
  have h3: "map thread_id (getThreadsThatShouldBeSuspended ?w) = [1]" by (simp add: example_sdefs)
  have h4: "failing ?w = []" by (simp add: example_sdefs)
  from applyScheduledSuspensions_fires_due [OF h1 h2] h1 h3 h4 show ?thesis by blast
qed

theorem unsuspend_cmd_keeps_one_open_witness:
  "one_open_per_user (example_sworld [example_sthread 1 SUSPENDED, example_sthread 2 OPEN]) \<and>
   distinct (map thread_id (threads (example_sworld [example_sthread 1 SUSPENDED, example_sthread 2 OPEN]))) \<and>
   one_open_per_user (final_state (unsuspend_cmd (example_staff_msg 1) None
     (example_sworld [example_sthread 1 SUSPENDED, example_sthread 2 OPEN])))"
proof -
  let ?w = "example_sworld [example_sthread 1 SUSPENDED, example_sthread 2 OPEN]"
  have h1: "one_open_per_user ?w" by (simp add: example_sdefs one_open_per_user_def)
  have h2: "distinct (map thread_id (threads ?w))" by (simp add: example_sdefs)
  from unsuspend_cmd_keeps_one_open [OF h1 h2] h1 h2 show ?thesis by blast
qed

theorem unsuspend_cmd_reopens_iff_witness:
  "(\<exists>w'. unsuspend_cmd (example_staff_msg 1) None (example_sworld [example_sthread 1 SUSPENDED]) = Inr w' \<and>
        get_thread 1 w' = Some ((example_sthread 1 SUSPENDED)\<lparr>status := OPEN\<rparr>)) \<and>
   (\<exists>w'. unsuspend_cmd (example_staff_msg 1) None
           (example_sworld [example_sthread 1 SUSPENDED, example_sthread 2 OPEN]) = Inr w' \<and>
        get_thread 1 w' \<noteq> Some ((example_sthread 1 SUSPENDED)\<lparr>status := OPEN\<rparr>))"
proof -
  let ?t = "example_sthread 1 SUSPENDED"
  let ?w1 = "example_sworld [?t]"
  let ?w2 = "example_sworld [?t, example_sthread 2 OPEN]"
  have a1: "distinct (map thread_id (threads ?w1))" "msg_channel_id (example_staff_msg 1) = Some 1"
    "findSuspendedThreadByChannelId 1 ?w1 = Some ?t" "thread_id ?t \<notin> set (failing ?w1)"
    "findOpenThreadByUserId (user_id ?t) ?w1 = None"
    by (simp_all add: example_sdefs findSuspendedThreadByChannelId_def findOpenThreadByUserId_def)
  have a2: "distinct (map thread_id (threads ?w2))"
    "findSuspendedThreadByChannelId 1 ?w2 = Some ?t" "thread_id ?t \<notin> set (failing ?w2)"
    "findOpenThreadByUserId (user_id ?t) ?w2 \<noteq> None"
    by (simp_all add: example_sdefs findSuspendedThreadByChannelId_def findOpenThreadByUserId_def)
  from unsuspend_cmd_reopens_iff [OF a1(1,2,3,4)] a1(5)
  have r1: "\<exists>w'. unsuspend_cmd (example_staff_msg 1) None ?w1 = Inr w' \<and>
        get_thread 1 w' = Some (?t\<lparr>status := OPEN\<rparr>)"
    by (simp add: example_sdefs findOpenThreadByUserId_def)
  from unsuspend_cmd_reopens_iff [OF a2(1) a1(2) a2(2,3)] a2(4)
  have r2: "\<exists>w'. unsuspend_cmd (example_staff_msg 1) None ?w2 = Inr w' \<and>
        get_thread 1 w' \<noteq> Some (?t\<lparr>status := OPEN\<rparr>)"
    by (simp add: example_sdefs findOpenThreadByUserId_def)
  from r1 r2 show ?thesis by blast
qed

theorem unsuspend_cmd_outside_thread_throws_witness:
  "unsuspend_cmd (example_staff_msg 7) None (example_sworld [example_sthread 1 SUSPENDED]) =
     Inl (NullDeref, example_sworld [example_sthread 1 SUSPENDED])"
proof -
  have "msg_channel_id (example_staff_msg 7) = Some 7"
    "findSuspendedThreadByChannelId 7 (example_sworld [example_sthread 1 SUSPENDED]) = None"
    by (simp_all add: example_sdefs findSuspendedThreadByChannelId_def)
  then show ?thesis by (rule unsuspend_cmd_outside_thread_throws)
qed

end
