(* ===== verification/Loops.thy ===== *)
theory Loops
  imports Close Suspend
begin

text \<open>
  The two polling loops over time (\<^verbatim>\<open>scheduledCloseLoop\<close> in \<^verbatim>\<open>close.js\<close>,
  \<^verbatim>\<open>scheduledSuspendLoop\<close> in \<^verbatim>\<open>suspend.js\<close>): each run performs one pass and then
  re-arms itself with \<^verbatim>\<open>setTimeout(..., 2000)\<close>. The loops never end by design, so they
  are modelled with fuel: \<open>close_loop cfg n w\<close> and \<open>suspend_loop n w\<close> are the world
  after \<open>n\<close> runs, nothing else happening in between, each run starting 2000 ms after the
  previous one (the time a pass itself takes is not counted, so real runs are at least that
  far apart). One generic lemma, \<open>loop_closed_form\<close>, gives the closed form of \<open>n\<close> runs
  of such a loop; it is instantiated for both loops when no write fails. The properties are
  the exact run at which a scheduled close or suspend fires, how the truncation of the
  stored time to whole seconds shifts it, and the starvation of the threads after a row
  whose write keeps failing.
\<close>

fun close_loop :: "config \<Rightarrow> nat \<Rightarrow> world \<Rightarrow> world" where
  "close_loop cfg 0 w = w"
| "close_loop cfg (Suc n) w =
     close_loop cfg n ((scheduledCloseLoop_tick cfg w)\<lparr>clock := clock w + close_loop_period\<rparr>)"

text \<open>
  \<^verbatim>\<open>scheduledSuspendLoop\<close> in \<^verbatim>\<open>suspend.js\<close> (lines 20--28) has the same shape.
\<close>

fun suspend_loop :: "nat \<Rightarrow> world \<Rightarrow> world" where
  "suspend_loop 0 w = w"
| "suspend_loop (Suc n) w =
     suspend_loop n ((scheduledSuspendLoop_tick w)\<lparr>clock := clock w + suspend_loop_period\<rparr>)"

text \<open>
  Thread 1 (user 10) open with its close scheduled at 13 s, the clock at 10 000 ms, no
  failing row.
\<close>

definition example_lworld :: world where
  "example_lworld = (example_world [])\<lparr>threads := [example_thread 1 10 ''ana'' 13]\<rparr>"

text \<open>
  A delay parser that reads every option as one second, and thread 1 open at the clock
  10 500 ms.
\<close>

definition example_tdp :: delay_parser where
  "example_tdp = \<lparr>delayStringRegex_test = (\<lambda>_. True), convertDelayStringToMS = (\<lambda>_. Some 1000)\<rparr>"

definition example_tworld :: world where
  "example_tworld = (example_world [])\<lparr>threads := [new_thread 1 10 ''ana'' 1], clock := 10500\<rparr>"

definition example_sworld :: world where
  "example_sworld = (example_world [])\<lparr>threads :=
     [(new_thread 1 10 ''ana'' 1)\<lparr>scheduled_suspend_at := Some 13, scheduled_suspend_id := Some 99,
                                 scheduled_suspend_name := Some ''mod''\<rparr>]\<rparr>"

section \<open>Due times\<close>

lemma is_due_Some_iff: "is_due (Some a) now \<longleftrightarrow> a * 1000 \<le> now"
  by (simp add: is_due_def db_format_def less_eq_div_iff_mult_less_eq)

lemma is_due_mono: "is_due at now \<Longrightarrow> now \<le> now' \<Longrightarrow> is_due at now'"
  by (auto simp: is_due_def db_format_def intro: order_trans div_le_mono split: option.splits)

lemma is_due_close_row [simp]: "is_due (scheduled_close_at (close_row r)) now = False"
  by (simp add: is_due_def)

section \<open>One run\<close>

lemma thread_close_frame:
  "failing (final_state (thread_close tid w)) = failing w \<and> clock (final_state (thread_close tid w)) = clock w"
proof (cases "thread_close tid w")
  case (Inl p)
  then show ?thesis using thread_close_Inl [of tid w "fst p" "snd p"] by (cases p) simp
next
  case (Inr w')
  then have "failing w' = failing w \<and> clock w' = clock w" by (auto simp: thread_close_Inr)
  with Inr show ?thesis by simp
qed

lemma close_due_frame:
  "failing (final_state (close_due cfg t w)) = failing w \<and> clock (final_state (close_due cfg t w)) = clock w"
proof -
  define w1 where "w1 = (if js_truthy (closeMessage cfg) \<and> \<not> scheduled_close_silent t
                then postToUser_caught (user_id t) (close_text cfg) w else w)"
  have "failing w1 = failing w \<and> clock w1 = clock w"
    by (simp add: w1_def postToUser_caught_def)
  moreover have "close_due cfg t w = andThen (thread_close (thread_id t) w1) (\<lambda>w2. Inr (postLog (scheduled_close_log t) w2))"
    by (simp add: close_due_def w1_def)
  ultimately show ?thesis
    using thread_close_frame [of "thread_id t" w1]
    by (cases "thread_close (thread_id t) w1") (auto simp: postLog_def)
qed

lemma tick_frame:
  "failing (scheduledCloseLoop_tick cfg w) = failing w \<and> clock (scheduledCloseLoop_tick cfg w) = clock w"
proof -
  have "holds_after (\<lambda>s. failing s = failing w \<and> clock s = clock w) (applyScheduledCloses cfg w)"
    unfolding applyScheduledCloses_def
    by (rule foreach_r_holds_after) (simp_all add: holds_after_def close_due_frame)
  then show ?thesis
    by (cases "applyScheduledCloses cfg w") (auto simp: scheduledCloseLoop_tick_def holds_after_def)
qed

lemma key_in_filter:
  "distinct (map key xs) \<Longrightarrow> x \<in> set xs \<Longrightarrow> (key x \<in> key ` set (filter P xs)) = P x"
  by (induction xs) (auto simp: image_iff)

lemma tick_nofail:
  assumes ids: "distinct (map thread_id (threads w))" and nf: "failing w = []"
  shows "threads (scheduledCloseLoop_tick cfg w) =
           map (\<lambda>r. if status r = OPEN \<and> is_due (scheduled_close_at r) (clock w) then close_row r else r)
             (threads w)"
proof -
  let ?D = "getThreadsThatShouldBeClosed w"
  have "\<forall>t \<in> set ?D. thread_id t \<notin> set (failing w) \<and>
           (\<exists>r \<in> set (threads w). thread_id r = thread_id t \<and> status r \<noteq> CLOSED)"
    using nf by (auto simp: getThreadsThatShouldBeClosed_def)
  then obtain w' where w': "foreach_r (close_due cfg) ?D w = Inr w'"
    using close_due_pass_progress [OF ids distinct_due [OF ids]] by blast
  have "threads w' = map (\<lambda>r. if thread_id r \<in> thread_id ` set ?D then close_row r else r) (threads w)"
    using close_due_pass_Inr [OF w'] by simp
  also have "\<dots> = map (\<lambda>r. if status r = OPEN \<and> is_due (scheduled_close_at r) (clock w) then close_row r else r)
                     (threads w)"
    using ids by (intro map_cong) (simp_all add: getThreadsThatShouldBeClosed_def key_in_filter del: set_filter)
  finally show ?thesis
    using w' by (simp add: scheduledCloseLoop_tick_def applyScheduledCloses_def)
qed

section \<open>Runs without failures\<close>

text \<open>
  The closed form of \<open>n\<close> runs of a polling loop whose run applies \<open>f\<close> to exactly the
  rows due at the poll time, when being due is monotone in time and a row written by the
  loop is never due again.
\<close>

lemma loop_closed_form:
  assumes L0: "\<And>w. L 0 w = w"
    and LS: "\<And>n w. L (Suc n) w = L n ((tick w)\<lparr>clock := clock w + p\<rparr>)"
    and tk: "\<And>w. Q w \<Longrightarrow> threads (tick w) = map (\<lambda>r. if D r (clock w) then f r else r) (threads w)
                        \<and> Q ((tick w)\<lparr>clock := clock w + p\<rparr>)"
    and mono: "\<And>r t t'. D r t \<Longrightarrow> t \<le> t' \<Longrightarrow> D r t'"
    and fin: "\<And>r t. \<not> D (f r) t"
    and Q: "Q w"
  shows "threads (L n w) = map (\<lambda>r. if 0 < n \<and> D r (clock w + (n - 1) * p) then f r else r) (threads w)
         \<and> clock (L n w) = clock w + n * p \<and> Q (L n w)"
  using Q
proof (induction n arbitrary: w)
  case 0
  then show ?case by (simp add: L0)
next
  case (Suc n)
  let ?w1 = "(tick w)\<lparr>clock := clock w + p\<rparr>"
  note t1 = tk [OF Suc.prems]
  note IH = Suc.IH [OF conjunct2 [OF t1]]
  have "(if 0 < n \<and> D r' (clock ?w1 + (n - 1) * p) then f r' else r') =
        (if D r (clock w + n * p) then f r else r)"
    if "r' = (if D r (clock w) then f r else r)" for r r'
  proof (cases "D r (clock w)")
    case True
    then show ?thesis using that fin mono [of r "clock w"] by auto
  next
    case False
    then show ?thesis using that by (cases n) (auto simp: algebra_simps)
  qed
  then show ?case
    using IH t1 by (simp add: LS algebra_simps)
qed

lemma close_loop_nofail:
  assumes "distinct (map thread_id (threads w))" and "failing w = []"
  shows "threads (close_loop cfg n w) =
           map (\<lambda>r. if 0 < n \<and> status r = OPEN \<and>
                        is_due (scheduled_close_at r) (clock w + (n - 1) * close_loop_period)
                     then close_row r else r) (threads w)
         \<and> clock (close_loop cfg n w) = clock w + n * close_loop_period \<and> failing (close_loop cfg n w) = []"
proof -
  have "threads (close_loop cfg n w) =
           map (\<lambda>r. if 0 < n \<and> (status r = OPEN \<and> is_due (scheduled_close_at r) (clock w + (n - 1) * close_loop_period))
                     then close_row r else r) (threads w)
         \<and> clock (close_loop cfg n w) = clock w + n * close_loop_period
         \<and> (distinct (map thread_id (threads (close_loop cfg n w))) \<and> failing (close_loop cfg n w) = [])"
  proof (rule loop_closed_form [where tick = "scheduledCloseLoop_tick cfg"])
    fix v :: world assume v: "distinct (map thread_id (threads v)) \<and> failing v = []"
    have t: "threads (scheduledCloseLoop_tick cfg v) =
        map (\<lambda>r. if status r = OPEN \<and> is_due (scheduled_close_at r) (clock v) then close_row r else r) (threads v)"
      using tick_nofail v by blast
    then show "threads (scheduledCloseLoop_tick cfg v) =
        map (\<lambda>r. if status r = OPEN \<and> is_due (scheduled_close_at r) (clock v) then close_row r else r) (threads v)
      \<and> distinct (map thread_id (threads ((scheduledCloseLoop_tick cfg v)\<lparr>clock := clock v + close_loop_period\<rparr>)))
      \<and> failing ((scheduledCloseLoop_tick cfg v)\<lparr>clock := clock v + close_loop_period\<rparr>) = []"
      using v tick_frame [of cfg v] by (simp add: comp_def if_distrib [of thread_id] cong: if_cong)
  qed (use assms in \<open>auto intro: is_due_mono\<close>)
  then show ?thesis by simp
qed

section \<open>The suspend loop\<close>

lemma suspend_due_frame:
  "failing (final_state (suspend_due t w)) = failing w \<and> clock (final_state (suspend_due t w)) = clock w"
proof (cases "suspend_due t w")
  case (Inl p)
  then have "thread_suspend (thread_id t) w = Inl p"
    by (auto simp: suspend_due_def andThen_Inr_Inl split: if_splits)
  then have "snd p = w"
    by (cases p) (auto simp: thread_suspend_def dest: checked_update_Inl)
  then show ?thesis
    using Inl by (cases p) (simp add: final_state_def)
next
  case (Inr w')
  then show ?thesis
    by (cases "status t = OPEN") (auto simp: suspend_due_Inr, auto simp: suspend_due_def)
qed

lemma suspend_tick_frame:
  "failing (scheduledSuspendLoop_tick w) = failing w \<and> clock (scheduledSuspendLoop_tick w) = clock w"
proof -
  have "holds_after (\<lambda>s. failing s = failing w \<and> clock s = clock w) (applyScheduledSuspensions w)"
    unfolding applyScheduledSuspensions_def
    by (rule foreach_r_holds_after) (simp_all add: holds_after_def suspend_due_frame)
  then show ?thesis
    by (cases "applyScheduledSuspensions w") (auto simp: scheduledSuspendLoop_tick_def holds_after_def)
qed

lemma suspend_tick_nofail:
  assumes ids: "distinct (map thread_id (threads w))" and nf: "failing w = []"
  shows "threads (scheduledSuspendLoop_tick w) =
           map (\<lambda>r. if status r = OPEN \<and> is_due (scheduled_suspend_at r) (clock w) then suspend_row r else r)
             (threads w)"
proof -
  let ?D = "getThreadsThatShouldBeSuspended w"
  obtain w' where w': "applyScheduledSuspensions w = Inr w'"
    using applyScheduledSuspensions_progress [OF ids] nf by auto
  have "threads w' = map (\<lambda>r. if thread_id r \<in> thread_id ` set ?D then suspend_row r else r) (threads w)"
    using applyScheduledSuspensions_Inr [OF w'] by blast
  also have "\<dots> = map (\<lambda>r. if status r = OPEN \<and> is_due (scheduled_suspend_at r) (clock w) then suspend_row r else r)
                     (threads w)"
    using ids by (intro map_cong) (simp_all add: getThreadsThatShouldBeSuspended_def key_in_filter del: set_filter)
  finally show ?thesis
    using w' by (simp add: scheduledSuspendLoop_tick_def)
qed

lemma suspend_loop_nofail:
  assumes "distinct (map thread_id (threads w))" and "failing w = []"
  shows "threads (suspend_loop n w) =
           map (\<lambda>r. if 0 < n \<and> (status r = OPEN \<and>
                        is_due (scheduled_suspend_at r) (clock w + (n - 1) * suspend_loop_period))
                     then suspend_row r else r) (threads w)
         \<and> clock (suspend_loop n w) = clock w + n * suspend_loop_period
         \<and> (distinct (map thread_id (threads (suspend_loop n w))) \<and> failing (suspend_loop n w) = [])"
proof (rule loop_closed_form [where tick = scheduledSuspendLoop_tick])
  fix v :: world assume v: "distinct (map thread_id (threads v)) \<and> failing v = []"
  have "threads (scheduledSuspendLoop_tick v) =
      map (\<lambda>r. if status r = OPEN \<and> is_due (scheduled_suspend_at r) (clock v) then suspend_row r else r) (threads v)"
    using suspend_tick_nofail v by blast
  then show "threads (scheduledSuspendLoop_tick v) =
      map (\<lambda>r. if status r = OPEN \<and> is_due (scheduled_suspend_at r) (clock v) then suspend_row r else r) (threads v)
    \<and> distinct (map thread_id (threads ((scheduledSuspendLoop_tick v)\<lparr>clock := clock v + suspend_loop_period\<rparr>)))
    \<and> failing ((scheduledSuspendLoop_tick v)\<lparr>clock := clock v + suspend_loop_period\<rparr>) = []"
    using v suspend_tick_frame [of v] by (simp add: comp_def if_distrib [of thread_id] cong: if_cong)
qed (use assms in \<open>auto intro: is_due_mono\<close>)

lemma get_thread_mapped:
  assumes thr: "threads w' = map g (threads w)" and ids: "distinct (map thread_id (threads w))"
    and key: "\<And>r. thread_id (g r) = thread_id r" and t: "t \<in> set (threads w)"
  shows "get_thread (thread_id t) w' = Some (g t)"
proof -
  have "map thread_id (threads w') = map thread_id (threads w)"
    using thr key by (simp add: comp_def)
  then have "distinct (map thread_id (threads w'))" using ids by simp
  moreover have "g t \<in> set (threads w')" using thr t by simp
  ultimately show ?thesis
    using get_thread_row [of w' "g t"] key by simp
qed

section \<open>A row whose write keeps failing\<close>

text \<open>
  A pass over a due list in which a failing row \<open>r\<close> follows \<open>D1\<close> closes at most some
  threads of \<open>D1\<close>: the rows from \<open>r\<close> on are left as they were.
\<close>

lemma pass_blocked:
  assumes ids: "distinct (map thread_id (threads w))"
    and due: "getThreadsThatShouldBeClosed w = D1 @ r # D2"
    and bad: "thread_id r \<in> set (failing w)"
  shows "\<exists>S \<subseteq> thread_id ` set D1.
           threads (scheduledCloseLoop_tick cfg w) = map (\<lambda>q. if thread_id q \<in> S then close_row q else q) (threads w)"
proof -
  have dD: "distinct (map thread_id (D1 @ r # D2))" using distinct_due [OF ids] due by simp
  have r: "r \<in> set (threads w)" "status r = OPEN" using due_rows [of r w] due by auto
  obtain k where k: "threads (final_state (foreach_r (close_due cfg) D1 w)) =
      map (\<lambda>q. if thread_id q \<in> thread_id ` set (take k D1) then close_row q else q) (threads w)"
    using close_due_pass_final [of cfg D1 w] by blast
  have S: "thread_id ` set (take k D1) \<subseteq> thread_id ` set D1" by (auto dest: in_set_takeD)
  have "threads (scheduledCloseLoop_tick cfg w) = threads (final_state (foreach_r (close_due cfg) D1 w))"
  proof (cases "foreach_r (close_due cfg) D1 w")
    case (Inl p)
    then show ?thesis
      by (cases p) (simp add: scheduledCloseLoop_tick_def applyScheduledCloses_def due foreach_r_append)
  next
    case (Inr w1)
    note f1 = close_due_pass_Inr [OF Inr]
    have "thread_id r \<notin> thread_id ` set D1" using dD by auto
    then have "r \<in> set (threads w1)" using f1 r(1) by force
    moreover have "distinct (map thread_id (threads w1))" using ids f1 by (simp add: comp_def)
    ultimately have "get_thread (thread_id r) w1 = Some r" by (simp add: get_thread_row)
    then obtain w2 where w2: "close_due cfg r w1 = Inl (StoreFailure, w2)" "threads w2 = threads w1"
      using close_due_fail [of r w1 r] r(2) bad f1 by auto
    then show ?thesis
      using Inr by (simp add: scheduledCloseLoop_tick_def applyScheduledCloses_def due foreach_r_append)
  qed
  then show ?thesis
    using k S by (intro exI [of _ "thread_id ` set (take k D1)"]) simp
qed

lemma close_row_if_id [simp]:
  "thread_id (if c then close_row q else q) = thread_id q"
  by simp

section \<open>Properties of the loop\<close>

text \<open>
  C15. When no write fails and nothing else touches the table, a thread that is open with
  its close scheduled at second \<open>a\<close> is closed by run \<open>n + 1\<close> of the loop exactly when
  the clock at that run, \<open>clock w + n * 2000\<close>, has reached \<open>a\<close> whole seconds: the
  close happens at the first run at or after the stored time, never before it, and at
  most one period after it.
\<close>

theorem close_loop_fires_on_time:
  assumes ids: "distinct (map thread_id (threads w))" and nf: "failing w = []"
    and t: "t \<in> set (threads w)" "status t = OPEN" "scheduled_close_at t = Some a"
  shows "get_thread (thread_id t) (close_loop cfg (Suc n) w) =
           Some (if a * 1000 \<le> clock w + n * close_loop_period then close_row t else t)"
proof -
  have "get_thread (thread_id t) (close_loop cfg (Suc n) w) =
      Some (if 0 < Suc n \<and> status t = OPEN \<and>
                is_due (scheduled_close_at t) (clock w + (Suc n - 1) * close_loop_period)
            then close_row t else t)"
    using close_loop_nofail [OF ids nf, of cfg "Suc n"] ids t(1)
    by (intro get_thread_mapped) simp_all
  then show ?thesis
    using t(2,3) by (simp add: is_due_Some_iff)
qed

text \<open>
  C16. A timed close (\<^verbatim>\<open>!close 1h\<close>) stores the close time truncated to whole seconds,
  so the loop treats it as due from the first poll at or after \<open>clock + delay\<close>, and
  possibly up to 999 ms earlier, never earlier than that: the row written by a successful
  timed close is due at every poll time at or after \<open>clock w + delay\<close> and at no poll
  time 1000 ms or more before it.
\<close>

theorem timed_close_due_window:
  assumes conv: "convertDelayStringToMS dp d = Some delay" and nz: "delay \<noteq> 0"
    and ok: "timed_close dp a t s d w = Inr w'" and r: "get_thread (thread_id t) w' = Some r"
  shows "scheduled_close_at r = Some (db_format (clock w + delay)) \<and>
         (clock w + delay \<le> now \<longrightarrow> is_due (scheduled_close_at r) now) \<and>
         (is_due (scheduled_close_at r) now \<longrightarrow> clock w + delay < now + 1000)"
proof -
  obtain w1 where w1: "thread_scheduleClose (thread_id t) (db_format (clock w + delay)) a s w = Inr w1"
      "w' = postSystemMessage (thread_id t) (CloseScheduledMsg (if s then True else True) delay) w1"
    using ok conv nz by (auto simp: timed_close_def andThen_Inr_iff)
  obtain t0 where "get_thread (thread_id t) w = Some t0"
      "w1 = w\<lparr>threads := update_by thread_id (thread_id t)
              (\<lambda>t. t\<lparr>scheduled_close_at := Some (db_format (clock w + delay)), scheduled_close_id := Some (author_id a),
                    scheduled_close_name := Some (username a), scheduled_close_silent := s\<rparr>) (threads w)\<rparr>"
    using w1(1) by (auto simp: thread_scheduleClose_def checked_update_Inr)
  then have at: "scheduled_close_at r = Some (db_format (clock w + delay))"
    using r w1(2) by (auto simp: get_thread_def postSystemMessage_def find_update_by_same)
  show ?thesis
  proof (intro conjI impI)
    show "scheduled_close_at r = Some (db_format (clock w + delay))" by (rule at)
  next
    assume "clock w + delay \<le> now"
    then show "is_due (scheduled_close_at r) now"
      using at by (simp add: is_due_def db_format_def div_le_mono)
  next
    assume "is_due (scheduled_close_at r) now"
    then have "(clock w + delay) div 1000 * 1000 \<le> now"
      using at by (simp add: is_due_Some_iff db_format_def)
    then show "clock w + delay < now + 1000"
      by (metis add_le_cancel_right div_mult_mod_eq le_less_trans mod_less_divisor nat_add_left_cancel_less zero_less_numeral)
  qed
qed

text \<open>
  C17. A row whose write keeps failing starves every thread after it in the query order,
  for ever: if an open thread \<open>r\<close> is due and its writes fail, then however many runs of
  the loop follow, every row after \<open>r\<close> is still in the table unchanged, due or not. The
  specification requires the opposite (section 4.4: a single bad thread must not halt the
  loop).
\<close>

theorem close_loop_starves_after_failing_row:
  assumes ids: "distinct (map thread_id (threads w))"
    and rows: "threads w = xs @ r # ys"
    and r: "status r = OPEN" "is_due (scheduled_close_at r) (clock w)" "thread_id r \<in> set (failing w)"
    and t: "t \<in> set ys"
  shows "t \<in> set (threads (close_loop cfg n w))"
  using ids rows r(2,3)
proof (induction n arbitrary: w xs)
  case 0
  then show ?case using t by simp
next
  case (Suc n)
  let ?P = "\<lambda>t. status t = OPEN \<and> is_due (scheduled_close_at t) (clock w)"
  let ?w1 = "(scheduledCloseLoop_tick cfg w)\<lparr>clock := clock w + close_loop_period\<rparr>"
  have "getThreadsThatShouldBeClosed w = filter ?P xs @ r # filter ?P ys"
    using Suc.prems(2,3) r(1) by (simp add: getThreadsThatShouldBeClosed_def)
  then obtain S where S: "S \<subseteq> thread_id ` set (filter ?P xs)"
    and thr: "threads (scheduledCloseLoop_tick cfg w) = map (\<lambda>q. if thread_id q \<in> S then close_row q else q) (threads w)"
    using pass_blocked [OF Suc.prems(1) _ Suc.prems(4)] by blast
  have Sx: "S \<subseteq> thread_id ` set xs" using S by auto
  have disj: "thread_id ` set xs \<inter> thread_id ` set (r # ys) = {}"
    using Suc.prems(1,2) by auto
  have out: "thread_id q \<notin> S" if "q \<in> set (r # ys)" for q
    using Sx disj imageI [OF that, of thread_id] by blast
  have "threads ?w1 = map (\<lambda>q. if thread_id q \<in> S then close_row q else q) xs @ r # ys"
    using thr Suc.prems(2) out by (simp add: map_idI)
  moreover have "distinct (map thread_id (threads ?w1))"
    using Suc.prems(1) thr by (simp add: comp_def)
  moreover have "is_due (scheduled_close_at r) (clock ?w1)" "thread_id r \<in> set (failing ?w1)"
    using tick_frame [of cfg w] Suc.prems(3,4) is_due_mono [of "scheduled_close_at r" "clock w"] by simp_all
  ultimately have "t \<in> set (threads (close_loop cfg n ?w1))"
    using Suc.IH by blast
  then show ?case by simp
qed

text \<open>
  C23. The scheduled-suspend loop meets its deadlines as the close loop does: when no
  write fails and nothing else touches the table, an open thread whose suspend is
  scheduled at second \<open>a\<close> is suspended by run \<open>n + 1\<close> of \<^verbatim>\<open>scheduledSuspendLoop\<close>
  exactly when the clock at that run, \<open>clock w + n * 2000\<close>, has reached \<open>a\<close> whole
  seconds, and is left as it is before.
\<close>

theorem suspend_loop_fires_on_time:
  assumes ids: "distinct (map thread_id (threads w))" and nf: "failing w = []"
    and t: "t \<in> set (threads w)" "status t = OPEN" "scheduled_suspend_at t = Some a"
  shows "get_thread (thread_id t) (suspend_loop (Suc n) w) =
           Some (if a * 1000 \<le> clock w + n * suspend_loop_period then suspend_row t else t)"
proof -
  have "get_thread (thread_id t) (suspend_loop (Suc n) w) =
      Some (if 0 < Suc n \<and> status t = OPEN \<and>
                is_due (scheduled_suspend_at t) (clock w + (Suc n - 1) * suspend_loop_period)
            then suspend_row t else t)"
    using suspend_loop_nofail [OF ids nf, of "Suc n"] ids t(1)
    by (intro get_thread_mapped) simp_all
  then show ?thesis
    using t(2,3) by (simp add: is_due_Some_iff)
qed

lemmas example_ldefs = example_lworld_def example_tworld_def example_tdp_def example_world_def
  example_thread_def new_thread_def close_loop_period_def example_sworld_def suspend_loop_period_def

theorem close_loop_fires_on_time_witness:
  "get_thread 1 (close_loop example_config 2 example_lworld) = Some (example_thread 1 10 ''ana'' 13) \<and>
   get_thread 1 (close_loop example_config 3 example_lworld) = Some (close_row (example_thread 1 10 ''ana'' 13))"
proof -
  have pre: "distinct (map thread_id (threads example_lworld))" "failing example_lworld = []"
    "example_thread 1 10 ''ana'' 13 \<in> set (threads example_lworld)"
    "status (example_thread 1 10 ''ana'' 13) = OPEN"
    "scheduled_close_at (example_thread 1 10 ''ana'' 13) = Some 13"
    by (simp_all add: example_ldefs)
  have "thread_id (example_thread 1 10 ''ana'' 13) = 1" "clock example_lworld = 10000"
    by (simp_all add: example_ldefs)
  then show ?thesis
    using close_loop_fires_on_time [OF pre, of example_config 1]
      close_loop_fires_on_time [OF pre, of example_config 2]
    by (simp add: close_loop_period_def numeral_2_eq_2 numeral_3_eq_3 del: close_loop.simps)
qed

theorem timed_close_due_window_witness:
  "\<exists>w' r. timed_close example_tdp (msg_author (example_staff_msg 1)) (new_thread 1 10 ''ana'' 1) False ''1s''
             example_tworld = Inr w' \<and> get_thread 1 w' = Some r \<and>
           scheduled_close_at r = Some 11 \<and> is_due (scheduled_close_at r) 11000 \<and>
           11000 < clock example_tworld + 1000"
proof -
  let ?a = "msg_author (example_staff_msg 1)" and ?t = "new_thread 1 10 ''ana'' 1"
  let ?w' = "postSystemMessage 1 (CloseScheduledMsg True 1000)
     (example_tworld\<lparr>threads := [?t\<lparr>scheduled_close_at := Some 11, scheduled_close_id := Some 99,
         scheduled_close_name := Some ''mod'', scheduled_close_silent := False\<rparr>]\<rparr>)"
  have run: "timed_close example_tdp ?a ?t False ''1s'' example_tworld = Inr ?w'"
    by (simp add: timed_close_def thread_scheduleClose_def checked_update_def store_update_def
        get_thread_def db_format_def example_ldefs example_staff_msg_def)
  have row: "get_thread 1 ?w' = Some (?t\<lparr>scheduled_close_at := Some 11, scheduled_close_id := Some 99,
         scheduled_close_name := Some ''mod'', scheduled_close_silent := False\<rparr>)"
    by (simp add: get_thread_def postSystemMessage_def example_ldefs)
  have conv: "convertDelayStringToMS example_tdp ''1s'' = Some 1000" by (simp add: example_tdp_def)
  have "scheduled_close_at (?t\<lparr>scheduled_close_at := Some 11, scheduled_close_id := Some 99,
         scheduled_close_name := Some ''mod'', scheduled_close_silent := False\<rparr>) = Some (db_format (10500 + 1000))"
    using timed_close_due_window [OF conv _ run, of "?t\<lparr>scheduled_close_at := Some 11, scheduled_close_id := Some 99,
         scheduled_close_name := Some ''mod'', scheduled_close_silent := False\<rparr>" 11000] row
    by (simp add: example_tworld_def db_format_def)
  then show ?thesis
    using run row by (simp add: is_due_def db_format_def example_tworld_def)
qed

theorem close_loop_starves_after_failing_row_witness:
  "example_thread 2 20 ''bo'' 7 \<in> set (threads (close_loop example_config 5 (example_world [1]))) \<and>
   is_due (scheduled_close_at (example_thread 2 20 ''bo'' 7)) (clock (example_world [1]))"
proof -
  have pre: "distinct (map thread_id (threads (example_world [1])))"
    "threads (example_world [1]) = [] @ example_thread 1 10 ''ana'' 5 # [example_thread 2 20 ''bo'' 7]"
    "status (example_thread 1 10 ''ana'' 5) = OPEN"
    "is_due (scheduled_close_at (example_thread 1 10 ''ana'' 5)) (clock (example_world [1]))"
    "thread_id (example_thread 1 10 ''ana'' 5) \<in> set (failing (example_world [1]))"
    "example_thread 2 20 ''bo'' 7 \<in> set [example_thread 2 20 ''bo'' 7]"
    by (simp_all add: example_ldefs is_due_def db_format_def)
  have "is_due (scheduled_close_at (example_thread 2 20 ''bo'' 7)) (clock (example_world [1]))"
    by (simp add: example_ldefs is_due_def db_format_def)
  then show ?thesis
    using close_loop_starves_after_failing_row [OF pre, of example_config 5] by (simp del: close_loop.simps)
qed

theorem suspend_loop_fires_on_time_witness:
  "get_thread 1 (suspend_loop 2 example_sworld) = Some (hd (threads example_sworld)) \<and>
   get_thread 1 (suspend_loop 3 example_sworld) = Some (suspend_row (hd (threads example_sworld)))"
proof -
  let ?t = "hd (threads example_sworld)"
  have pre: "distinct (map thread_id (threads example_sworld))" "failing example_sworld = []"
    "?t \<in> set (threads example_sworld)" "status ?t = OPEN" "scheduled_suspend_at ?t = Some 13"
    by (simp_all add: example_ldefs)
  have "thread_id ?t = 1" "clock example_sworld = 10000"
    by (simp_all add: example_ldefs)
  then show ?thesis
    using suspend_loop_fires_on_time [OF pre, of 1] suspend_loop_fires_on_time [OF pre, of 2]
    by (simp add: suspend_loop_period_def numeral_2_eq_2 numeral_3_eq_3 del: suspend_loop.simps)
qed

end
