(* ===== verification/Scenarios.thy ===== *)
theory Scenarios
  imports Loops Suspend
begin

text \<open>
  Scenarios of the specification (section 8) run through the handlers of the sources:
  a scheduled close cancelled by staff, and a scheduled suspend overtaken by a close.
  The examples reuse \<open>example_tworld\<close> and \<open>example_tdp\<close> of theory \<open>Loops\<close>:
  thread 1 (user 10, channel 1) open, no schedule, clock 10 500 ms.
\<close>

text \<open>
  C18. Scheduling a close with \<^verbatim>\<open>!close <delay>\<close> and then cancelling it with
  \<^verbatim>\<open>!close cancel\<close> is a round trip (specification section 8): both commands
  complete, and the table afterwards is the table before, so the thread is
  indistinguishable from one that was never scheduled.
\<close>

theorem close_schedule_cancel_roundtrip:
  assumes ids: "distinct (map thread_id (threads w))"
    and ch: "msg_channel msg = TextChannel (inbox_guild cfg) c" and staff: "author_is_staff msg"
    and t: "findOpenThreadByChannelId c w = Some t"
    and never: "scheduled_close_at t = None" "scheduled_close_id t = None"
      "scheduled_close_name t = None" "\<not> scheduled_close_silent t"
    and d: "delayStringRegex_test dp d" "convertDelayStringToMS dp d = Some delay" "delay \<noteq> 0"
      "d \<notin> {''cancel'', ''c'', ''silent'', ''s''}"
    and nf: "thread_id t \<notin> set (failing w)"
  shows "\<exists>w1 w2. close_cmd cfg dp msg [d] w = Inr w1 \<and> close_cmd cfg dp msg [''cancel''] w1 = Inr w2 \<and>
           threads w2 = threads w"
proof -
  let ?tid = "thread_id t" and ?a = "msg_author msg"
  let ?f = "\<lambda>r. r\<lparr>scheduled_close_at := Some (db_format (clock w + delay)), scheduled_close_id := Some (author_id ?a),
              scheduled_close_name := Some (username ?a), scheduled_close_silent := False\<rparr>"
  have row: "t \<in> set (threads w)" "channel_id t = c" "status t = OPEN"
    using find_open_SomeD(2) [OF t] by simp_all
  have gt: "get_thread ?tid w = Some t" using get_thread_row [OF ids row(1)] .
  let ?w1 = "postSystemMessage ?tid (CloseScheduledMsg True delay) (w\<lparr>threads := update_by thread_id ?tid ?f (threads w)\<rparr>)"
  have dd: "''cancel'' \<noteq> d" "''c'' \<noteq> d" "''silent'' \<noteq> d" "''s'' \<noteq> d"
    using d(4) by auto
  have run1: "close_cmd cfg dp msg [d] w = Inr ?w1"
    using ch staff t d(1-3) dd gt row nf
    by (simp add: close_cmd_def messageIsOnInboxServer_def staff_close_def timed_close_def
        thread_scheduleClose_def checked_update_def store_update_def)
  have t1: "findOpenThreadByChannelId c ?w1 = Some (?f t)"
    using t row by (simp add: findOpenThreadByChannelId_def postSystemMessage_def find_update_by_keep)
  have gt1: "get_thread ?tid (w\<lparr>threads := update_by thread_id ?tid ?f (threads w)\<rparr>) = Some (?f t)"
    using gt by (simp add: get_thread_def find_update_by_same)
  let ?w2 = "postSystemMessage ?tid CloseCancelledMsg
     (?w1\<lparr>threads := update_by thread_id ?tid clear_close_schedule (update_by thread_id ?tid ?f (threads w))\<rparr>)"
  have run2: "close_cmd cfg dp msg [''cancel''] ?w1 = Inr ?w2"
    using ch staff t1 gt1 nf
    by (simp add: close_cmd_def messageIsOnInboxServer_def staff_close_def thread_cancelScheduledClose_def
        checked_update_def store_update_def postSystemMessage_def get_thread_def)
  have restored: "clear_close_schedule (?f t) = t"
    using never by (cases t) (simp add: clear_close_schedule_def)
  have "update_by thread_id ?tid clear_close_schedule (update_by thread_id ?tid ?f (threads w)) = threads w"
    by (rule update_by_roundtrip [where key = thread_id and g = clear_close_schedule and f = ?f, OF ids row(1) restored])
       simp
  then have "threads ?w2 = threads w" by (simp add: postSystemMessage_def)
  with run1 run2 show ?thesis by blast
qed

text \<open>
  C19. The specification's scenario for the two schedules (section 8): a staff member
  schedules a suspend with \<^verbatim>\<open>!suspend <delay>\<close> and then closes the thread with
  \<^verbatim>\<open>!close\<close>. Both commands complete. The suspend command does not suspend: it
  leaves the thread open and stores the suspend time \<open>clock + delay\<close> truncated to
  seconds with the staff member as initiator (suspend.js lines 43--46), and announces the
  delay. After the close the thread is closed with no scheduled suspend, and at no later
  poll time is it due for the suspend loop, so the tick that would have suspended it does
  nothing to it.
\<close>

theorem scheduled_suspend_then_close:
  assumes ids: "distinct (map thread_id (threads w))"
    and t: "t \<in> set (threads w)" "status t = OPEN" and nf: "thread_id t \<notin> set (failing w)"
    and d: "d \<noteq> 0"
  shows "\<exists>w1 w2. suspend_cmd a (Some d) t w = Inr w1 \<and>
           get_thread (thread_id t) w1 = Some (t\<lparr>scheduled_suspend_at := Some (db_format (clock w + d)),
              scheduled_suspend_id := Some (author_id a), scheduled_suspend_name := Some (username a)\<rparr>) \<and>
           sys_messages (out w1) = sys_messages (out w) @ [(thread_id t, SuspendScheduledMsg d)] \<and>
           staff_close cfg dp a [] t w1 = Inr w2 \<and>
           (\<exists>r. get_thread (thread_id t) w2 = Some r \<and> status r = CLOSED \<and> scheduled_suspend_at r = None) \<and>
           (\<forall>now. thread_id t \<notin> thread_id ` set (getThreadsThatShouldBeSuspended (w2\<lparr>clock := now\<rparr>)))"
proof -
  let ?tid = "thread_id t"
  let ?g = "\<lambda>r. r\<lparr>scheduled_suspend_at := Some (db_format (clock w + d)), scheduled_suspend_id := Some (author_id a),
              scheduled_suspend_name := Some (username a)\<rparr>"
  have gt: "get_thread ?tid w = Some t" using get_thread_row [OF ids t(1)] .
  let ?w1 = "postSystemMessage ?tid (SuspendScheduledMsg d) (w\<lparr>threads := update_by thread_id ?tid ?g (threads w)\<rparr>)"
  have run1: "suspend_cmd a (Some d) t w = Inr ?w1"
    using gt t(2) nf d
    by (simp add: suspend_cmd_def thread_scheduleSuspend_def checked_update_def store_update_def)
  have gt1: "get_thread ?tid ?w1 = Some (?g t)"
    using gt by (simp add: get_thread_def postSystemMessage_def find_update_by_same)
  obtain w2 where run2: "staff_close cfg dp a [] t ?w1 = Inr w2"
    and thr2: "threads w2 = update_by thread_id ?tid close_row (update_by thread_id ?tid ?g (threads w))"
    using gt1 t(2) nf
    by (auto simp: staff_close_def thread_close_def checked_update_def store_update_def close_epilogue_def
        Let_def postSystemMessage_def postToUser_caught_def postLog_def)
  have "get_thread ?tid w2 = Some (close_row (?g t))"
    using gt thr2 by (simp add: get_thread_def find_update_by_same)
  moreover have "thread_id r \<noteq> ?tid" if "r \<in> set (getThreadsThatShouldBeSuspended (w2\<lparr>clock := now\<rparr>))" for r now
    using that thr2 by (auto simp: getThreadsThatShouldBeSuspended_def mem_update_by)
  moreover have "sys_messages (out ?w1) = sys_messages (out w) @ [(?tid, SuspendScheduledMsg d)]"
    by (simp add: postSystemMessage_def emit_def)
  ultimately show ?thesis
    using run1 run2 gt1 by force
qed

theorem close_schedule_cancel_roundtrip_witness:
  "\<exists>w1 w2. close_cmd example_config example_tdp (example_staff_msg 1) [''1h''] example_tworld = Inr w1 \<and>
     close_cmd example_config example_tdp (example_staff_msg 1) [''cancel''] w1 = Inr w2 \<and>
     threads w2 = threads example_tworld"
proof -
  have pre: "distinct (map thread_id (threads example_tworld))"
    "msg_channel (example_staff_msg 1) = TextChannel (inbox_guild example_config) 1"
    "author_is_staff (example_staff_msg 1)"
    "findOpenThreadByChannelId 1 example_tworld = Some (new_thread 1 10 ''ana'' 1)"
    "scheduled_close_at (new_thread 1 10 ''ana'' 1) = None" "scheduled_close_id (new_thread 1 10 ''ana'' 1) = None"
    "scheduled_close_name (new_thread 1 10 ''ana'' 1) = None" "\<not> scheduled_close_silent (new_thread 1 10 ''ana'' 1)"
    "delayStringRegex_test example_tdp ''1h''" "convertDelayStringToMS example_tdp ''1h'' = Some 1000"
    "(1000::nat) \<noteq> 0" "''1h'' \<notin> {''cancel'', ''c'', ''silent'', ''s''}"
    "thread_id (new_thread 1 10 ''ana'' 1) \<notin> set (failing example_tworld)"
    by (simp_all add: example_ldefs example_config_def example_staff_msg_def findOpenThreadByChannelId_def)
  show ?thesis using close_schedule_cancel_roundtrip [OF pre] .
qed

theorem scheduled_suspend_then_close_witness:
  "\<exists>w1 w2. suspend_cmd (msg_author (example_staff_msg 1)) (Some 3600000) (new_thread 1 10 ''ana'' 1) example_tworld = Inr w1 \<and>
     get_thread 1 w1 = Some ((new_thread 1 10 ''ana'' 1)\<lparr>scheduled_suspend_at := Some (db_format (clock example_tworld + 3600000)),
        scheduled_suspend_id := Some (author_id (msg_author (example_staff_msg 1))),
        scheduled_suspend_name := Some (username (msg_author (example_staff_msg 1)))\<rparr>) \<and>
     sys_messages (out w1) = sys_messages (out example_tworld) @ [(1, SuspendScheduledMsg 3600000)] \<and>
     staff_close example_config example_tdp (msg_author (example_staff_msg 1)) [] (new_thread 1 10 ''ana'' 1) w1 = Inr w2 \<and>
     (\<exists>r. get_thread 1 w2 = Some r \<and> status r = CLOSED \<and> scheduled_suspend_at r = None) \<and>
     (\<forall>now. (1::nat) \<notin> thread_id ` set (getThreadsThatShouldBeSuspended (w2\<lparr>clock := now\<rparr>)))"
proof -
  have pre: "distinct (map thread_id (threads example_tworld))"
    "new_thread 1 10 ''ana'' 1 \<in> set (threads example_tworld)" "status (new_thread 1 10 ''ana'' 1) = OPEN"
    "thread_id (new_thread 1 10 ''ana'' 1) \<notin> set (failing example_tworld)" "(3600000::nat) \<noteq> 0"
    by (simp_all add: example_ldefs)
  have "thread_id (new_thread 1 10 ''ana'' 1) = 1" by (simp add: new_thread_def)
  then show ?thesis
    using scheduled_suspend_then_close [OF pre, of "msg_author (example_staff_msg 1)" example_config example_tdp]
    by simp
qed

end
