(* ===== verification/Commands.thy ===== *)
theory Commands
  imports Thread
begin

text \<open>
  \<^verbatim>\<open>src/modmailbot/src/modules/newthread.js\<close> (staff open a thread for a user) and
  \<^verbatim>\<open>src/modmailbot/src/modules/alert.js\<close> (staff ask to be mentioned on the thread's
  next reply, or cancel that). \<^verbatim>\<open>newthread\<close> is an inbox-server command and receives
  the channel's open thread or \<^verbatim>\<open>null\<close>; \<^verbatim>\<open>alert\<close> is an inbox-thread command and
  receives the channel's open thread.
\<close>

section \<open>Replies outside a thread\<close>

text \<open>
  \<^verbatim>\<open>utils.postSystemMessageWithFallback(channel, thread, text)\<close>: a system message in
  the thread when there is one, otherwise a plain message in the channel.
\<close>

definition postSystemMessageWithFallback ::
  "message \<Rightarrow> thread option \<Rightarrow> sysmsg \<Rightarrow> world \<Rightarrow> world" where
  "postSystemMessageWithFallback msg thr m w =
     (case thr of
        Some t \<Rightarrow> postSystemMessage (thread_id t) m w
      | None \<Rightarrow> (case msg_channel_id msg of Some c \<Rightarrow> emit (ChannelMessage c m) w | None \<Rightarrow> w))"

text \<open>\<^verbatim>\<open>msg.channel.createMessage(text)\<close>.\<close>

definition channel_reply :: "message \<Rightarrow> sysmsg \<Rightarrow> world \<Rightarrow> world" where
  "channel_reply msg m w =
     (case msg_channel_id msg of Some c \<Rightarrow> emit (ChannelMessage c m) w | None \<Rightarrow> w)"

section \<open>newthread (newthread.js, lines 5--22)\<close>

text \<open>\<^verbatim>\<open>bot.users.get(args.userId)\<close> reads the bot's user cache.\<close>

definition newthread_cmd :: "message \<Rightarrow> user_id \<Rightarrow> thread option \<Rightarrow> world \<Rightarrow> world result" where
  "newthread_cmd msg uid thr w =
     (case map_of (known_users w) uid of
        None \<Rightarrow> Inr (postSystemMessageWithFallback msg thr UserNotFoundMsg w)
      | Some name \<Rightarrow>
          (case findOpenThreadByUserId uid w of
             Some existing \<Rightarrow>
               Inr (postSystemMessageWithFallback msg thr (ExistingThreadMsg (channel_id existing)) w)
           | None \<Rightarrow>
               (let (t, w1) = createNewThreadForUser uid name w;
                    w2 = postSystemMessage (thread_id t)
                           (OpenedByMsg (username (msg_author msg)) (discriminator (msg_author msg))) w1
                in Inr (channel_reply msg (ThreadOpenedMsg (channel_id t)) w2))))"

section \<open>alert (alert.js, lines 2--10)\<close>

text \<open>\<^verbatim>\<open>args.opt && args.opt.startsWith('c')\<close>.\<close>

definition starts_with_c :: "string option \<Rightarrow> bool" where
  "starts_with_c opt = (case opt of Some (x # _) \<Rightarrow> x = CHR ''c'' | _ \<Rightarrow> False)"

definition alert_cmd :: "message \<Rightarrow> string option \<Rightarrow> thread \<Rightarrow> world \<Rightarrow> world result" where
  "alert_cmd msg opt t w =
     (if starts_with_c opt
      then andThen (thread_setAlert (thread_id t) None w)
             (\<lambda>w'. Inr (postSystemMessage (thread_id t) AlertCancelledMsg w'))
      else andThen (thread_setAlert (thread_id t) (Some (author_id (msg_author msg))) w)
             (\<lambda>w'. Inr (postSystemMessage (thread_id t)
                          (AlertSetMsg (username (msg_author msg)) (discriminator (msg_author msg))) w')))"

section \<open>Example worlds\<close>

text \<open>User 10 (\<open>ana\<close>) is in the bot's user cache; the table holds the given rows.\<close>

definition example_cworld :: "thread list \<Rightarrow> world" where
  "example_cworld ts =
     \<lparr>threads = ts, clock = 10000, next_id = 5, blocked = [], unreachable = [],
      known_users = [(10, ''ana'')], failing = [], out = []\<rparr>"

section \<open>Properties\<close>

lemma fallback_threads [simp]:
  "threads (postSystemMessageWithFallback msg thr m w) = threads w"
  "threads (channel_reply msg m w) = threads w"
  by (simp_all add: postSystemMessageWithFallback_def channel_reply_def postSystemMessage_def
      split: option.splits)

lemma one_open_fallback [simp]:
  "one_open_per_user (postSystemMessageWithFallback msg thr m w) = one_open_per_user w"
  "one_open_per_user (channel_reply msg m w) = one_open_per_user w"
  by (simp_all add: one_open_per_user_def)

text \<open>
  C8. Opening a thread by staff command keeps the main invariant: if at most one thread
  per user is open before \<^verbatim>\<open>newthread\<close>, the same holds after it (when the handler
  runs alone: its lookup and its insert are separated by an \<^verbatim>\<open>await\<close>).
\<close>

theorem newthread_cmd_keeps_one_open:
  assumes inv: "one_open_per_user w"
  shows "one_open_per_user (final_state (newthread_cmd msg uid thr w))"
proof (cases "map_of (known_users w) uid")
  case None
  with inv show ?thesis by (simp add: newthread_cmd_def)
next
  case (Some name)
  show ?thesis
  proof (cases "findOpenThreadByUserId uid w")
    case (Some e)
    with \<open>map_of _ _ = Some name\<close> inv show ?thesis by (simp add: newthread_cmd_def)
  next
    case None
    then have none: "\<forall>r \<in> set (threads w). user_id r = uid \<longrightarrow> status r \<noteq> OPEN"
      by (simp add: findOpenThreadByUserId_None)
    have "one_open_per_user (w\<lparr>threads := threads w @ [new_thread (next_id w) uid name (next_id w)],
                                next_id := Suc (next_id w)\<rparr>)"
      by (rule one_open_append [OF inv]) (use none in \<open>simp add: new_thread_def\<close>)
    with None \<open>map_of _ _ = Some name\<close> show ?thesis
      by (simp add: newthread_cmd_def createNewThreadForUser_def Let_def)
  qed
qed

text \<open>
  C9. \<^verbatim>\<open>newthread\<close> always completes, and adds exactly one new open thread for the
  user precisely when the user is in the bot's cache and has no open thread; otherwise the
  table is unchanged.
\<close>

theorem newthread_cmd_opens_iff:
  "\<exists>w'. newthread_cmd msg uid thr w = Inr w' \<and>
     ((\<exists>t. threads w' = threads w @ [t] \<and> user_id t = uid \<and> status t = OPEN) \<longleftrightarrow>
      (map_of (known_users w) uid \<noteq> None \<and> findOpenThreadByUserId uid w = None)) \<and>
     (threads w' = threads w \<longleftrightarrow>
      \<not> (map_of (known_users w) uid \<noteq> None \<and> findOpenThreadByUserId uid w = None))"
  by (auto simp: newthread_cmd_def createNewThreadForUser_def new_thread_def Let_def split: option.splits)

text \<open>
  C10. Setting an alert and then cancelling it is a round trip: the first command stores
  the author as the thread's alert target, and after the cancel the table is exactly as
  it was when the thread had no alert.
\<close>

theorem alert_cmd_set_cancel_roundtrip:
  assumes ids: "distinct (map thread_id (threads w))"
    and r: "get_thread (thread_id t) w = Some r" and clear: "alert_id r = None"
    and set: "alert_cmd msg None t w = Inr w1"
    and cancel: "alert_cmd msg (Some ''cancel'') t w1 = Inr w2"
  shows "get_thread (thread_id t) w1 = Some (r\<lparr>alert_id := Some (author_id (msg_author msg))\<rparr>)
         \<and> threads w2 = threads w"
proof -
  have w1: "threads w1 = update_by thread_id (thread_id t) (\<lambda>x. x\<lparr>alert_id := Some (author_id (msg_author msg))\<rparr>) (threads w)"
    using set by (auto simp: alert_cmd_def starts_with_c_def thread_setAlert_def andThen_Inr_iff
        store_update_Inr postSystemMessage_def)
  have w2: "threads w2 = update_by thread_id (thread_id t) (\<lambda>x. x\<lparr>alert_id := None\<rparr>) (threads w1)"
    using cancel by (auto simp: alert_cmd_def starts_with_c_def thread_setAlert_def andThen_Inr_iff
        store_update_Inr postSystemMessage_def)
  have row: "r \<in> set (threads w)" "thread_id r = thread_id t" using get_thread_SomeD [OF r] by simp_all
  have "\<And>x. x \<in> set (threads w) \<Longrightarrow> thread_id x = thread_id t \<Longrightarrow> x\<lparr>alert_id := None\<rparr> = x"
    using distinct_key_eq [OF ids _ row(1)] row(2) clear by fastforce
  then have "threads w2 = threads w"
    using w1 w2 by (simp add: update_by_update_by update_by_id)
  moreover have "get_thread (thread_id t) w1 = Some (r\<lparr>alert_id := Some (author_id (msg_author msg))\<rparr>)"
    using w1 r by (simp add: get_thread_def find_update_by_same)
  ultimately show ?thesis by simp
qed

lemmas example_cdefs = example_cworld_def example_staff_msg_def new_thread_def msg_channel_id_def

theorem newthread_cmd_keeps_one_open_witness:
  "one_open_per_user (example_cworld [new_thread 1 20 ''bo'' 1]) \<and>
   one_open_per_user (final_state (newthread_cmd (example_staff_msg 3) 10 None
                                    (example_cworld [new_thread 1 20 ''bo'' 1])))"
proof -
  have h: "one_open_per_user (example_cworld [new_thread 1 20 ''bo'' 1])"
    by (simp add: example_cdefs one_open_per_user_def)
  from h newthread_cmd_keeps_one_open [OF h] show ?thesis by blast
qed

theorem newthread_cmd_opens_iff_witness:
  "\<exists>w'. newthread_cmd (example_staff_msg 3) 10 None (example_cworld []) = Inr w' \<and>
        (\<exists>t. threads w' = [t] \<and> user_id t = 10 \<and> status t = OPEN)"
proof -
  have pre: "map_of (known_users (example_cworld [])) 10 \<noteq> None \<and>
             findOpenThreadByUserId 10 (example_cworld []) = None"
    by (simp add: example_cdefs findOpenThreadByUserId_def)
  from newthread_cmd_opens_iff [of "example_staff_msg 3" 10 None "example_cworld []"] pre
  show ?thesis by (auto simp: example_cdefs)
qed

theorem alert_cmd_set_cancel_roundtrip_witness:
  "\<exists>w1 w2. alert_cmd (example_staff_msg 1) None (new_thread 1 10 ''ana'' 1)
              (example_cworld [new_thread 1 10 ''ana'' 1]) = Inr w1 \<and>
           alert_cmd (example_staff_msg 1) (Some ''cancel'') (new_thread 1 10 ''ana'' 1) w1 = Inr w2 \<and>
           threads w2 = threads (example_cworld [new_thread 1 10 ''ana'' 1])"
proof -
  let ?t = "new_thread 1 10 ''ana'' 1"
  let ?w = "example_cworld [?t]"
  obtain w1 where w1: "alert_cmd (example_staff_msg 1) None ?t ?w = Inr w1"
    by (simp add: alert_cmd_def starts_with_c_def thread_setAlert_def store_update_def example_cdefs)
  obtain w2 where w2: "alert_cmd (example_staff_msg 1) (Some ''cancel'') ?t w1 = Inr w2"
  proof -
    have "failing w1 = []" using w1
      by (auto simp: alert_cmd_def starts_with_c_def thread_setAlert_def store_update_def
          example_cdefs postSystemMessage_def)
    then show ?thesis using that
      by (simp add: alert_cmd_def starts_with_c_def thread_setAlert_def store_update_def)
  qed
  have h: "distinct (map thread_id (threads ?w))" "get_thread (thread_id ?t) ?w = Some ?t"
    "alert_id ?t = None"
    by (simp_all add: example_cdefs get_thread_def)
  from alert_cmd_set_cancel_roundtrip [OF h w1 w2] w1 w2 show ?thesis by blast
qed

end
