(* ===== verification/Invariant.thy ===== *)
theory Invariant
  imports Thread
begin

text \<open>
  The invariant of the thread table that every handler keeps, and the lemmas that let a
  handler's proof follow its code: \<open>sys_inv\<close> is the conjunction of distinct ids and
  channels numbered below \<open>next_id\<close> (\<open>ids_ok\<close>), at most one open thread per user
  (\<open>one_open_per_user\<close>), no scheduled close or suspend on a thread that is not open
  (\<open>no_stale_schedules\<close>), and exactly one close entry in the audit log per closed thread,
  none for any other, and none for a thread not in the table (\<open>audit_exact\<close>). The
  lemmas cover each guarded write of theory \<open>Thread\<close> (\<open>inv_methods\<close>,
  \<open>inv_setAlert\<close>, \<open>inv_unsuspend\<close>), a close followed by its audit entry
  (\<open>inv_close_log\<close>), thread creation (\<open>inv_create\<close>), and notifications, which
  leave the invariant as it was (\<open>sys_inv_notifications\<close>).
\<close>

fun log_tid :: "log_entry \<Rightarrow> thread_id" where
  "log_tid (LogScheduledClose _ _ _ tid) = tid"
| "log_tid (LogClosedBy _ _ _ tid) = tid"
| "log_tid (LogChannelDeleted _ _ tid) = tid"

definition ids_ok :: "world \<Rightarrow> bool" where
  "ids_ok w =
     (distinct (map thread_id (threads w)) \<and> distinct (map channel_id (threads w)) \<and>
      (\<forall>t \<in> set (threads w). thread_id t < next_id w \<and> channel_id t < next_id w))"

definition no_stale_schedules :: "world \<Rightarrow> bool" where
  "no_stale_schedules w =
     (\<forall>t \<in> set (threads w). status t \<noteq> OPEN \<longrightarrow>
        scheduled_close_at t = None \<and> scheduled_suspend_at t = None)"

definition audit_exact :: "world \<Rightarrow> bool" where
  "audit_exact w =
     ((\<forall>t \<in> set (threads w).
         count_list (map log_tid (audit_logs (out w))) (thread_id t) = (if status t = CLOSED then 1 else 0))
      \<and> (\<forall>l \<in> set (audit_logs (out w)). log_tid l \<in> thread_id ` set (threads w)))"

definition sys_inv :: "world \<Rightarrow> bool" where
  "sys_inv w = (ids_ok w \<and> one_open_per_user w \<and> no_stale_schedules w \<and> audit_exact w)"

lemma one_open_threads:
  "threads w' = threads w \<Longrightarrow> one_open_per_user w' = one_open_per_user w"
  by (simp add: one_open_per_user_def)

lemma update_by_guard:
  "\<forall>x \<in> set xs. key x = k \<longrightarrow> ok x \<Longrightarrow>
   update_by key k f xs = update_by key k (\<lambda>x. if ok x then f x else x) xs"
  by (induction xs) auto

lemma sys_inv_frame:
  "threads w' = threads w \<Longrightarrow> next_id w' = next_id w \<Longrightarrow> audit_logs (out w') = audit_logs (out w) \<Longrightarrow>
   sys_inv w' = sys_inv w"
  by (simp add: sys_inv_def ids_ok_def one_open_per_user_def no_stale_schedules_def audit_exact_def)

lemma sys_inv_notifications [simp]:
  "sys_inv (postSystemMessage tid m w) = sys_inv w"
  "sys_inv (postToUser_caught u x w) = sys_inv w"
  "sys_inv (emit (ConsoleError e) w) = sys_inv w"
  "sys_inv (emit (ChannelMessage c m) w) = sys_inv w"
  "sys_inv (emit (ChannelDeleted c) w) = sys_inv w"
  "sys_inv (emit (DirectMessage u x) w) = sys_inv w"
  "sys_inv (emit (SystemMessage tid m) w) = sys_inv w"
  "sys_inv (w\<lparr>clock := n\<rparr>) = sys_inv w"
  by (rule sys_inv_frame; simp add: postSystemMessage_def postToUser_caught_def)+

lemma ids_ok_update_by:
  assumes ids: "ids_ok w" and thr: "threads w' = update_by thread_id tid g (threads w)"
    and nid: "next_id w' = next_id w"
    and gk: "\<And>r. thread_id (g r) = thread_id r" "\<And>r. channel_id (g r) = channel_id r"
  shows "ids_ok w'"
proof -
  have "map thread_id (threads w') = map thread_id (threads w)"
    "map channel_id (threads w') = map channel_id (threads w)"
    using thr gk by (simp_all add: map_key_update_by map_update_by_keep)
  moreover have "thread_id r < next_id w' \<and> channel_id r < next_id w'" if "r \<in> set (threads w')" for r
    using that ids thr nid gk by (auto simp: ids_ok_def mem_update_by)
  ultimately show ?thesis using ids by (simp add: ids_ok_def)
qed

lemma thread_ids_update_by:
  "(\<And>r. thread_id (g r) = thread_id r) \<Longrightarrow>
     thread_id ` set (update_by thread_id tid g xs) = thread_id ` set xs"
  using arg_cong [OF map_key_update_by [of thread_id g tid xs], of set] by simp

lemma inv_rest_store_update:
  assumes inv: "sys_inv w" and upd: "store_update tid f w = Inr w'"
    and rows: "\<forall>r \<in> set (threads w). thread_id r = tid \<longrightarrow> ok r"
    and keys: "\<And>r. thread_id (f r) = thread_id r" "\<And>r. user_id (f r) = user_id r"
      "\<And>r. channel_id (f r) = channel_id r"
    and closed: "\<And>r. ok r \<Longrightarrow> (status (f r) = CLOSED) = (status r = CLOSED)"
    and sched: "\<And>r. ok r \<Longrightarrow> (status r \<noteq> OPEN \<longrightarrow> scheduled_close_at r = None \<and> scheduled_suspend_at r = None) \<Longrightarrow>
       status (f r) \<noteq> OPEN \<Longrightarrow> scheduled_close_at (f r) = None \<and> scheduled_suspend_at (f r) = None"
  shows "ids_ok w' \<and> no_stale_schedules w' \<and> audit_exact w'"
proof -
  let ?g = "\<lambda>x. if ok x then f x else x"
  have "w' = w\<lparr>threads := update_by thread_id tid f (threads w)\<rparr>"
    using upd by (simp add: store_update_Inr)
  also have "update_by thread_id tid f (threads w) = update_by thread_id tid ?g (threads w)"
    using rows by (rule update_by_guard)
  finally have w': "w' = w\<lparr>threads := update_by thread_id tid ?g (threads w)\<rparr>" .
  have gk: "thread_id (?g r) = thread_id r" "user_id (?g r) = user_id r" "channel_id (?g r) = channel_id r" for r
    using keys by simp_all
  have mem: "r \<in> set (threads w') \<longleftrightarrow> (\<exists>x \<in> set (threads w). r = (if thread_id x = tid then ?g x else x))" for r
    using w' by (simp add: mem_update_by)
  have ids: "ids_ok w'"
    using ids_ok_update_by [of w w' tid ?g] inv w' gk by (simp add: sys_inv_def)
  have ns: "no_stale_schedules w'"
    unfolding no_stale_schedules_def
  proof
    fix r assume "r \<in> set (threads w')"
    then obtain x where x: "x \<in> set (threads w)" "r = (if thread_id x = tid then ?g x else x)"
      using mem by blast
    have xs: "status x \<noteq> OPEN \<longrightarrow> scheduled_close_at x = None \<and> scheduled_suspend_at x = None"
      using inv x(1) by (auto simp: sys_inv_def no_stale_schedules_def)
    show "status r \<noteq> OPEN \<longrightarrow> scheduled_close_at r = None \<and> scheduled_suspend_at r = None"
      using x(2) xs sched [of x] by auto
  qed
  have ae: "audit_exact w'"
    unfolding audit_exact_def
  proof
    show "\<forall>t \<in> set (threads w'). count_list (map log_tid (audit_logs (out w'))) (thread_id t) =
             (if status t = CLOSED then 1 else 0)"
    proof
      fix r assume "r \<in> set (threads w')"
      then obtain x where x: "x \<in> set (threads w)" "r = (if thread_id x = tid then ?g x else x)"
        using mem by blast
      have "thread_id r = thread_id x" "(status r = CLOSED) = (status x = CLOSED)"
        using x(2) gk closed [of x] by auto
      then show "count_list (map log_tid (audit_logs (out w'))) (thread_id r) = (if status r = CLOSED then 1 else 0)"
        using inv x(1) w' by (simp add: sys_inv_def audit_exact_def)
    qed
    show "\<forall>l \<in> set (audit_logs (out w')). log_tid l \<in> thread_id ` set (threads w')"
      using inv w' thread_ids_update_by [of ?g tid "threads w", OF gk(1)] by (simp add: sys_inv_def audit_exact_def)
  qed
  from ids ns ae show ?thesis by simp
qed

lemma checked_update_rows:
  assumes ids: "ids_ok w" and upd: "checked_update tid ok f w = Inr w'"
  shows "store_update tid f w = Inr w' \<and> (\<forall>r \<in> set (threads w). thread_id r = tid \<longrightarrow> ok r)"
proof -
  obtain t where t: "get_thread tid w = Some t" "ok t" "tid \<notin> set (failing w)"
    and w': "w' = w\<lparr>threads := update_by thread_id tid f (threads w)\<rparr>"
    using upd by (auto simp: checked_update_Inr)
  have "t \<in> set (threads w)" "thread_id t = tid"
    using get_thread_SomeD [OF t(1)] by simp_all
  then have "r = t" if "r \<in> set (threads w)" "thread_id r = tid" for r
    using ids that distinct_key_eq [of thread_id "threads w" r t] by (simp add: ids_ok_def)
  then show ?thesis
    using t w' by (auto simp: store_update_Inr)
qed

lemma inv_checked_update:
  assumes inv: "sys_inv w"
    and keys: "\<And>r. thread_id (f r) = thread_id r" "\<And>r. user_id (f r) = user_id r"
      "\<And>r. channel_id (f r) = channel_id r"
    and closed: "\<And>r. ok r \<Longrightarrow> (status (f r) = CLOSED) = (status r = CLOSED)"
    and opens: "\<And>r. ok r \<Longrightarrow> status (f r) = OPEN \<Longrightarrow> status r = OPEN"
    and sched: "\<And>r. ok r \<Longrightarrow> (status r \<noteq> OPEN \<longrightarrow> scheduled_close_at r = None \<and> scheduled_suspend_at r = None) \<Longrightarrow>
       status (f r) \<noteq> OPEN \<Longrightarrow> scheduled_close_at (f r) = None \<and> scheduled_suspend_at (f r) = None"
  shows "holds_after sys_inv (checked_update tid ok f w)"
proof (cases "checked_update tid ok f w")
  case (Inl p)
  then show ?thesis
    using inv checked_update_Inl [of tid ok f w "fst p" "snd p"] by (cases p) simp
next
  case (Inr w')
  have ids: "ids_ok w" using inv by (simp add: sys_inv_def)
  note rows = checked_update_rows [OF ids Inr]
  have "ids_ok w' \<and> no_stale_schedules w' \<and> audit_exact w'"
    using inv_rest_store_update [OF inv conjunct1 [OF rows] conjunct2 [OF rows] keys closed sched] by blast
  moreover have "one_open_per_user w'"
  proof -
    let ?g = "\<lambda>x. if ok x then f x else x"
    have w': "w' = w\<lparr>threads := update_by thread_id tid ?g (threads w)\<rparr>"
      using rows update_by_guard [of "threads w" thread_id tid ok f] by (simp add: store_update_Inr)
    have gst: "status (?g r) = OPEN \<Longrightarrow> status r = OPEN" for r
      using opens by (cases "ok r") auto
    show ?thesis
      using one_open_update_by [of w ?g, OF _ gst] inv w' keys by (simp add: sys_inv_def)
  qed
  ultimately show ?thesis
    using Inr by (simp add: sys_inv_def)
qed

lemma inv_methods:
  assumes "sys_inv w"
  shows "holds_after sys_inv (thread_suspend tid w)"
    and "holds_after sys_inv (thread_scheduleClose tid at a silent w)"
    and "holds_after sys_inv (thread_cancelScheduledClose tid w)"
    and "holds_after sys_inv (thread_scheduleSuspend tid at a w)"
    and "holds_after sys_inv (thread_cancelScheduledSuspend tid w)"
  using assms
  by (auto simp: thread_suspend_def thread_scheduleClose_def thread_cancelScheduledClose_def
        thread_scheduleSuspend_def thread_cancelScheduledSuspend_def suspend_row_def
        clear_close_schedule_def clear_suspend_schedule_def intro!: inv_checked_update)

lemma inv_setAlert:
  assumes inv: "sys_inv w"
  shows "holds_after sys_inv (thread_setAlert tid a w)"
proof (cases "thread_setAlert tid a w")
  case (Inl p)
  then show ?thesis
    using inv store_update_Inl [of tid "\<lambda>t. t\<lparr>alert_id := a\<rparr>" w "fst p" "snd p"]
    by (cases p) (simp add: thread_setAlert_def)
next
  case (Inr w')
  have "ids_ok w' \<and> no_stale_schedules w' \<and> audit_exact w'"
    using inv_rest_store_update [of w tid "\<lambda>t. t\<lparr>alert_id := a\<rparr>" w' "\<lambda>_. True"] inv Inr
    by (simp add: thread_setAlert_def)
  moreover have "one_open_per_user w'"
    using Inr one_open_update_by [of w "\<lambda>t. t\<lparr>alert_id := a\<rparr>"] inv
    by (auto simp: thread_setAlert_def store_update_Inr sys_inv_def)
  ultimately show ?thesis
    using Inr by (simp add: sys_inv_def)
qed

lemma inv_unsuspend:
  assumes inv: "sys_inv w" and t: "t \<in> set (threads w)"
    and none: "findOpenThreadByUserId (user_id t) w = None"
  shows "holds_after sys_inv (thread_unsuspend (thread_id t) w)"
proof (cases "thread_unsuspend (thread_id t) w")
  case (Inl p)
  then show ?thesis
    using inv checked_update_Inl [of "thread_id t" "\<lambda>t. status t = SUSPENDED" "\<lambda>t. t\<lparr>status := OPEN\<rparr>" w "fst p" "snd p"]
    by (cases p) (simp add: thread_unsuspend_def)
next
  case (Inr w')
  have ids: "ids_ok w" using inv by (simp add: sys_inv_def)
  note rows = checked_update_rows [OF ids Inr [unfolded thread_unsuspend_def]]
  have "ids_ok w' \<and> no_stale_schedules w' \<and> audit_exact w'"
    by (rule inv_rest_store_update [OF inv conjunct1 [OF rows] conjunct2 [OF rows]]) auto
  moreover have "one_open_per_user w'"
  proof -
    have same: "\<forall>r \<in> set (threads w). thread_id r = thread_id t \<longrightarrow> user_id r = user_id t"
      using ids t distinct_key_eq [of thread_id "threads w"] by (auto simp: ids_ok_def)
    have "one_open_per_user (w\<lparr>threads := update_by thread_id (thread_id t) (\<lambda>r. r\<lparr>status := OPEN\<rparr>) (threads w)\<rparr>)"
      using one_open_update_reopen [OF _ _ same] inv none by (simp add: sys_inv_def findOpenThreadByUserId_None)
    then show ?thesis
      using conjunct1 [OF rows] by (simp add: store_update_Inr)
  qed
  ultimately show ?thesis
    using Inr by (simp add: sys_inv_def)
qed

text \<open>
  A close followed by its audit log keeps the invariant: the closed row gets exactly the one
  log entry; the state between the two is not an invariant state.
\<close>

lemma inv_close_log:
  assumes inv: "sys_inv w" and cl: "thread_close tid w = Inr w2" and l: "log_tid l = tid"
  shows "sys_inv (postLog l w2)"
proof -
  obtain t where t: "get_thread tid w = Some t" "status t \<noteq> CLOSED"
    and w2: "w2 = emit (ChannelDeleted (channel_id t)) (w\<lparr>threads := update_by thread_id tid close_row (threads w)\<rparr>)"
    using cl by (auto simp: thread_close_Inr)
  have tin: "t \<in> set (threads w)" "thread_id t = tid"
    using get_thread_SomeD [OF t(1)] by simp_all
  let ?w = "postLog l w2"
  have thr: "threads ?w = update_by thread_id tid close_row (threads w)"
    and nid: "next_id ?w = next_id w"
    and logs: "audit_logs (out ?w) = audit_logs (out w) @ [l]"
    using w2 by (simp_all add: postLog_def audit_logs_append)
  have ids: "ids_ok w" and inv': "one_open_per_user w" "no_stale_schedules w" "audit_exact w"
    using inv by (simp_all add: sys_inv_def)
  have only: "x = t" if "x \<in> set (threads w)" "thread_id x = tid" for x
    using ids that tin distinct_key_eq [of thread_id "threads w" x t] by (simp add: ids_ok_def)
  have mem: "r \<in> set (threads ?w) \<longleftrightarrow> (\<exists>x \<in> set (threads w). r = (if thread_id x = tid then close_row x else x))" for r
    using thr by (simp add: mem_update_by)
  have "ids_ok ?w"
    using ids_ok_update_by [OF ids thr nid] by simp
  moreover have "one_open_per_user ?w"
    using one_open_update_by [OF inv'(1), of close_row tid]
      one_open_threads [of ?w "w\<lparr>threads := update_by thread_id tid close_row (threads w)\<rparr>"] thr
    by simp
  moreover have "no_stale_schedules ?w"
    using inv'(2) thr by (auto simp: no_stale_schedules_def mem_update_by)
  moreover have "audit_exact ?w"
    unfolding audit_exact_def
  proof (intro conjI ballI)
    fix r assume "r \<in> set (threads ?w)"
    then obtain x where x: "x \<in> set (threads w)" "r = (if thread_id x = tid then close_row x else x)"
      using iffD1 [OF mem] by blast
    have cx: "count_list (map log_tid (audit_logs (out w))) (thread_id x) = (if status x = CLOSED then 1 else 0)"
      using inv'(3) x(1) by (simp add: audit_exact_def)
    show "count_list (map log_tid (audit_logs (out ?w))) (thread_id r) = (if status r = CLOSED then 1 else 0)"
    proof (cases "thread_id x = tid")
      case True
      then show ?thesis using x only [OF x(1)] cx t(2) logs l by simp
    next
      case False
      then show ?thesis using x cx logs l by simp
    qed
  next
    fix e assume e: "e \<in> set (audit_logs (out ?w))"
    have img: "thread_id ` set (threads ?w) = thread_id ` set (threads w)"
      using thr thread_ids_update_by [of close_row tid "threads w"] by simp
    have "tid \<in> thread_id ` set (threads w)"
      using tin by force
    then show "log_tid e \<in> thread_id ` set (threads ?w)"
      using inv'(3) e logs l img by (auto simp: audit_exact_def)
  qed
  ultimately show ?thesis by (simp add: sys_inv_def)
qed

lemma inv_create:
  assumes inv: "sys_inv w" and none: "findOpenThreadByUserId u w = None"
    and cr: "createNewThreadForUser u name w = (t, w1)"
  shows "sys_inv w1"
proof -
  have ids: "ids_ok w" and inv': "one_open_per_user w" "no_stale_schedules w" "audit_exact w"
    using inv by (simp_all add: sys_inv_def)
  have tw: "t = new_thread (next_id w) u name (next_id w) \<and>
      w1 = w\<lparr>threads := threads w @ [t], next_id := Suc (next_id w)\<rparr>"
    using cr by (auto simp: createNewThreadForUser_def Let_def)
  note t = conjunct1 [OF tw] and w1 = conjunct2 [OF tw]
  have nt: "thread_id t = next_id w" "channel_id t = next_id w" "user_id t = u" "status t = OPEN"
    "scheduled_close_at t = None" "scheduled_suspend_at t = None"
    using t by (simp_all add: new_thread_def)
  have fresh: "next_id w \<notin> set (map thread_id (threads w))" "next_id w \<notin> set (map channel_id (threads w))"
    using ids by (auto simp: ids_ok_def)
  have nolog: "next_id w \<notin> set (map log_tid (audit_logs (out w)))"
    using inv'(3) ids by (fastforce simp: audit_exact_def ids_ok_def)
  have "ids_ok w1"
    using ids fresh nt w1 by (auto simp: ids_ok_def less_SucI)
  moreover have "one_open_per_user w1"
    using one_open_append [OF inv'(1)] none nt w1 by (simp add: findOpenThreadByUserId_None)
  moreover have "no_stale_schedules w1"
    using inv'(2) nt w1 by (auto simp: no_stale_schedules_def)
  moreover have "audit_exact w1"
    using inv'(3) nt nolog w1 by (auto simp: audit_exact_def)
  ultimately show ?thesis by (simp add: sys_inv_def)
qed

lemma sys_inv_env [simp]:
  "sys_inv (w\<lparr>blocked := b, unreachable := u, known_users := k, failing := f\<rparr>) = sys_inv w"
  "sys_inv (postLog l (postToUser_caught v x w)) = sys_inv (postLog l w)"
  by (rule sys_inv_frame; simp add: postLog_def postToUser_caught_def)+

lemma inv_then_notify:
  "holds_after sys_inv r \<Longrightarrow> holds_after sys_inv (andThen r (\<lambda>w'. Inr (postSystemMessage tid m w')))"
  by (rule holds_after_andThenI) simp_all

lemma inv_close_then:
  assumes "sys_inv w"
    and "\<And>w2. thread_close tid w = Inr w2 \<Longrightarrow> holds_after sys_inv (f w2)"
  shows "holds_after sys_inv (andThen (thread_close tid w) f)"
proof (cases "thread_close tid w")
  case (Inl p)
  then show ?thesis
    using assms(1) thread_close_Inl [of tid w "fst p" "snd p"] by (cases p) simp
next
  case (Inr w2)
  then show ?thesis using assms(2) by simp
qed

lemma inv_close_then_log:
  "sys_inv w \<Longrightarrow> log_tid l = tid \<Longrightarrow>
   holds_after sys_inv (andThen (thread_close tid w) (\<lambda>w2. Inr (postLog l w2)))"
  by (rule inv_close_then) (simp_all add: inv_close_log)

end
