(* ===== verification/System.thy ===== *)
theory System
  imports Close Suspend Commands Invariant
begin

text \<open>
  The whole bot as one transition system. An input is an event the process reacts to: a
  command typed in Discord, the deletion of a channel, a run of one of the two polling
  loops, the passing of time, or a change of the environment (users who block the bot
  or cannot be reached, the user cache, the rows whose writes fail). \<open>step\<close> runs the
  handler the input selects; the command framework (\<^verbatim>\<open>commands.js\<close>, not among the
  sources) is modelled from the specification by \<open>addInboxThreadCommand\<close> and
  \<open>addInboxServerCommand\<close>. A handler that throws leaves the world it reached: the
  table is durable, so what was written stays written. \<open>reachable\<close> collects the worlds
  reachable from an empty table, and the invariant \<open>sys_inv\<close> of theory
  \<open>Invariant\<close> holds in all of them.
\<close>

section \<open>Inputs and the command framework\<close>

datatype input =
    CloseCommand message "string list"
  | DeleteChannel chan
  | SuspendCommand message "nat option"
  | SuspendCancelCommand message
  | UnsuspendCommand message
  | NewThreadCommand message user_id
  | AlertCommand message "string option"
  | CloseLoopTick
  | SuspendLoopTick
  | TimePasses ms
  | EnvChange "user_id list" "user_id list" "(user_id \<times> string) list" "thread_id list"

text \<open>
  \<^verbatim>\<open>commands.addInboxThreadCommand\<close>: the handler runs for a staff member's message on
  the inbox server, in the channel of an open thread, and receives that thread.
\<close>

definition addInboxThreadCommand ::
  "config \<Rightarrow> message \<Rightarrow> (thread \<Rightarrow> world \<Rightarrow> world result) \<Rightarrow> world \<Rightarrow> world result" where
  "addInboxThreadCommand cfg msg h w =
     (if messageIsOnInboxServer cfg msg \<and> author_is_staff msg
      then (case msg_channel_id msg of
              Some c \<Rightarrow> (case findOpenThreadByChannelId c w of Some t \<Rightarrow> h t w | None \<Rightarrow> Inr w)
            | None \<Rightarrow> Inr w)
      else Inr w)"

text \<open>
  \<^verbatim>\<open>commands.addInboxServerCommand\<close>: the handler runs for a staff member's message on
  the inbox server and receives the open thread of the channel, or \<^verbatim>\<open>null\<close>.
\<close>

definition addInboxServerCommand ::
  "config \<Rightarrow> message \<Rightarrow> (thread option \<Rightarrow> world \<Rightarrow> world result) \<Rightarrow> world \<Rightarrow> world result" where
  "addInboxServerCommand cfg msg h w =
     (if messageIsOnInboxServer cfg msg \<and> author_is_staff msg
      then h (case msg_channel_id msg of Some c \<Rightarrow> findOpenThreadByChannelId c w | None \<Rightarrow> None) w
      else Inr w)"

section \<open>One step and runs\<close>

definition step :: "config \<Rightarrow> delay_parser \<Rightarrow> input \<Rightarrow> world \<Rightarrow> world result" where
  "step cfg dp i w =
     (case i of
        CloseCommand msg opts \<Rightarrow> close_cmd cfg dp msg opts w
      | DeleteChannel ch \<Rightarrow> channelDelete cfg ch w
      | SuspendCommand msg d \<Rightarrow> addInboxThreadCommand cfg msg (suspend_cmd (msg_author msg) d) w
      | SuspendCancelCommand msg \<Rightarrow> addInboxThreadCommand cfg msg suspend_cancel_cmd w
      | UnsuspendCommand msg \<Rightarrow> addInboxServerCommand cfg msg (unsuspend_cmd msg) w
      | NewThreadCommand msg u \<Rightarrow> addInboxServerCommand cfg msg (newthread_cmd msg u) w
      | AlertCommand msg opt \<Rightarrow> addInboxThreadCommand cfg msg (alert_cmd msg opt) w
      | CloseLoopTick \<Rightarrow> Inr (scheduledCloseLoop_tick cfg w)
      | SuspendLoopTick \<Rightarrow> Inr (scheduledSuspendLoop_tick w)
      | TimePasses d \<Rightarrow> Inr (w\<lparr>clock := clock w + d\<rparr>)
      | EnvChange b u k f \<Rightarrow>
          Inr (w\<lparr>blocked := b, unreachable := u, known_users := k, failing := f\<rparr>))"

fun run :: "config \<Rightarrow> delay_parser \<Rightarrow> input list \<Rightarrow> world \<Rightarrow> world" where
  "run cfg dp [] w = w"
| "run cfg dp (i # is) w = run cfg dp is (final_state (step cfg dp i w))"

text \<open>A fresh installation: an empty table and nothing posted yet.\<close>

definition initial :: "world \<Rightarrow> bool" where
  "initial w = (threads w = [] \<and> out w = [])"

inductive reachable :: "config \<Rightarrow> delay_parser \<Rightarrow> world \<Rightarrow> bool" for cfg dp where
  start: "initial w \<Longrightarrow> reachable cfg dp w"
| step: "reachable cfg dp w \<Longrightarrow> reachable cfg dp (final_state (step cfg dp i w))"

section \<open>Example run\<close>

text \<open>
  No delay strings are recognised; from the cache of \<open>example_cworld\<close> with an empty
  table, staff open a thread for user 10 (thread and channel 5) and then close it.
\<close>

definition example_dp :: delay_parser where
  "example_dp = \<lparr>delayStringRegex_test = (\<lambda>_. False), convertDelayStringToMS = (\<lambda>_. None)\<rparr>"

definition example_inputs :: "input list" where
  "example_inputs = [NewThreadCommand (example_staff_msg 0) 10, CloseCommand (example_staff_msg 5) []]"

section \<open>Every handler keeps the invariant\<close>

lemma inv_close_due: "sys_inv w \<Longrightarrow> holds_after sys_inv (close_due cfg t w)"
  unfolding close_due_def Let_def
  by (rule inv_close_then_log) (simp_all add: scheduled_close_log_def)

lemma inv_applyScheduledCloses: "sys_inv w \<Longrightarrow> holds_after sys_inv (applyScheduledCloses cfg w)"
  unfolding applyScheduledCloses_def
  by (rule foreach_r_holds_after) (simp_all add: inv_close_due)

lemma inv_close_epilogue:
  "sys_inv w \<Longrightarrow> holds_after sys_inv (andThen (thread_close (thread_id t) w) (close_epilogue cfg t s c))"
  by (rule inv_close_then) (simp_all add: close_epilogue_def Let_def inv_close_log)

lemma inv_timed_close: "sys_inv w \<Longrightarrow> holds_after sys_inv (timed_close dp a t s d w)"
  by (simp add: timed_close_def inv_then_notify inv_methods split: option.split)

lemma inv_staff_close: "sys_inv w \<Longrightarrow> holds_after sys_inv (staff_close cfg dp a opts t w)"
  by (simp add: staff_close_def Let_def inv_then_notify inv_methods inv_timed_close inv_close_epilogue
      split: option.split)

lemma inv_user_close: "sys_inv w \<Longrightarrow> holds_after sys_inv (user_close cfg a w)"
  by (simp add: user_close_def inv_close_epilogue split: option.split)

lemma inv_close_cmd: "sys_inv w \<Longrightarrow> holds_after sys_inv (close_cmd cfg dp msg opts w)"
  by (simp add: close_cmd_def inv_user_close inv_staff_close split: chan.split option.split)

lemma inv_channelDelete: "sys_inv w \<Longrightarrow> holds_after sys_inv (channelDelete cfg ch w)"
  unfolding channelDelete_def Let_def
  by (simp add: inv_close_then_log split: chan.split option.split)

lemma inv_suspend_due: "sys_inv w \<Longrightarrow> holds_after sys_inv (suspend_due t w)"
  by (simp add: suspend_due_def inv_then_notify inv_methods)

lemma inv_applyScheduledSuspensions: "sys_inv w \<Longrightarrow> holds_after sys_inv (applyScheduledSuspensions w)"
  unfolding applyScheduledSuspensions_def
  by (rule foreach_r_holds_after) (simp_all add: inv_suspend_due)

lemma inv_suspend_cancel_cmd: "sys_inv w \<Longrightarrow> holds_after sys_inv (suspend_cancel_cmd t w)"
  by (simp add: suspend_cancel_cmd_def inv_then_notify inv_methods)

lemma inv_suspend_cmd: "sys_inv w \<Longrightarrow> holds_after sys_inv (suspend_cmd a d t w)"
  by (simp add: suspend_cmd_def inv_then_notify inv_methods split: option.split)

lemma inv_unsuspend_cmd: "sys_inv w \<Longrightarrow> holds_after sys_inv (unsuspend_cmd msg thr w)"
  by (auto simp: unsuspend_cmd_def inv_then_notify inv_unsuspend dest: find_open_SomeD(3)
      split: option.split)

lemma sys_inv_replies [simp]:
  "sys_inv (postSystemMessageWithFallback msg thr m w) = sys_inv w"
  "sys_inv (channel_reply msg m w) = sys_inv w"
  by (simp_all add: postSystemMessageWithFallback_def channel_reply_def split: option.split)

lemma inv_newthread_cmd: "sys_inv w \<Longrightarrow> holds_after sys_inv (newthread_cmd msg u thr w)"
  by (auto simp: newthread_cmd_def Let_def intro: inv_create split: option.split prod.split)

lemma inv_alert_cmd: "sys_inv w \<Longrightarrow> holds_after sys_inv (alert_cmd msg opt t w)"
  by (simp add: alert_cmd_def inv_then_notify inv_setAlert)

lemma inv_addInboxThreadCommand:
  "sys_inv w \<Longrightarrow> (\<And>t. holds_after sys_inv (h t w)) \<Longrightarrow> holds_after sys_inv (addInboxThreadCommand cfg msg h w)"
  by (simp add: addInboxThreadCommand_def split: option.split)

lemma inv_addInboxServerCommand:
  "sys_inv w \<Longrightarrow> (\<And>thr. holds_after sys_inv (h thr w)) \<Longrightarrow> holds_after sys_inv (addInboxServerCommand cfg msg h w)"
  by (simp add: addInboxServerCommand_def)

lemmas inv_handlers =
  inv_close_cmd inv_channelDelete inv_suspend_cmd inv_suspend_cancel_cmd inv_unsuspend_cmd
  inv_newthread_cmd inv_alert_cmd

lemma inv_ticks:
  "sys_inv w \<Longrightarrow> sys_inv (scheduledCloseLoop_tick cfg w)"
  "sys_inv w \<Longrightarrow> sys_inv (scheduledSuspendLoop_tick w)"
  using inv_applyScheduledCloses [of w cfg] inv_applyScheduledSuspensions [of w]
  by (auto simp: scheduledCloseLoop_tick_def scheduledSuspendLoop_tick_def split: sum.split prod.split)

lemma inv_step: "sys_inv w \<Longrightarrow> sys_inv (final_state (step cfg dp i w))"
  unfolding holds_after_def [symmetric]
  by (cases i) (simp_all add: step_def inv_handlers inv_ticks inv_addInboxThreadCommand inv_addInboxServerCommand)

lemma inv_initial: "initial w \<Longrightarrow> sys_inv w"
  by (simp add: initial_def sys_inv_def ids_ok_def one_open_per_user_def no_stale_schedules_def audit_exact_def)

lemma reachable_inv: "reachable cfg dp w \<Longrightarrow> sys_inv w"
  by (induction rule: reachable.induct) (simp_all add: inv_initial inv_step)

lemma reachable_run: "reachable cfg dp w \<Longrightarrow> reachable cfg dp (run cfg dp is w)"
  by (induction "is" arbitrary: w) (simp_all add: reachable.step)

lemma example_run_reachable:
  "reachable example_config example_dp (run example_config example_dp example_inputs (example_cworld []))"
  by (rule reachable_run, rule reachable.start) (simp add: initial_def example_cworld_def)

lemmas example_run_defs = example_inputs_def step_def addInboxServerCommand_def newthread_cmd_def
  example_cdefs example_config_def messageIsOnInboxServer_def findOpenThreadByUserId_def
  createNewThreadForUser_def Let_def close_cmd_def findOpenThreadByChannelId_def
  staff_close_def thread_close_def checked_update_def get_thread_def store_update_def
  close_epilogue_def postSystemMessageWithFallback_def channel_reply_def postSystemMessage_def
  postToUser_caught_def postLog_def js_truthy_def

lemma example_run_threads:
  "threads (run example_config example_dp example_inputs (example_cworld [])) =
     [close_row (new_thread 5 10 ''ana'' 5)]"
  by (simp add: example_run_defs)

lemma example_run_logs:
  "audit_logs (out (run example_config example_dp example_inputs (example_cworld []))) =
     [LogClosedBy ''ana'' 10 ''mod'' 5]"
  by (simp add: example_run_defs)

section \<open>Properties of all reachable worlds\<close>

text \<open>
  C13. The specification's main invariant holds in every reachable world, whatever the
  sequence of commands, channel deletions, loop runs, clock advances and failures: at most
  one thread per user is open.
\<close>

theorem reachable_one_open_per_user:
  "reachable cfg dp w \<Longrightarrow> one_open_per_user w"
  using reachable_inv by (simp add: sys_inv_def)

text \<open>
  C14. In every reachable world each thread has exactly one close entry in the audit log
  if it is closed and none otherwise: no path closes a thread without logging it, logs a
  close twice, or logs a close that did not happen.
\<close>

theorem reachable_closed_logged_once:
  assumes "reachable cfg dp w" and "t \<in> set (threads w)"
  shows "count_list (map log_tid (audit_logs (out w))) (thread_id t) = (if status t = CLOSED then 1 else 0)"
  using reachable_inv [OF assms(1)] assms(2) by (simp add: sys_inv_def audit_exact_def)

theorem reachable_one_open_per_user_witness:
  "one_open_per_user (run example_config example_dp example_inputs (example_cworld []))"
  using reachable_one_open_per_user [OF example_run_reachable] .

theorem reachable_closed_logged_once_witness:
  "count_list (map log_tid (audit_logs (out (run example_config example_dp example_inputs (example_cworld [])))))
     5 = 1"
  using reachable_closed_logged_once [OF example_run_reachable, of "close_row (new_thread 5 10 ''ana'' 5)"]
  by (simp add: example_run_threads new_thread_def)

end
