(* ===== verification/Interleave.thy ===== *)
theory Interleave
  imports System
begin

text \<open>
  Handlers run concurrently. Node runs one handler at a time only between \<^verbatim>\<open>await\<close>s:
  at each \<^verbatim>\<open>await\<close> on the database another event's handler may run to completion
  before the first one resumes. The handlers that check the table and then write it are
  split here at the \<^verbatim>\<open>await\<close> that separates the check from the write: a lookup
  phase that reads the world and returns a plan, and an action phase that carries the plan
  out on the world as it is when the handler resumes. Run back to back the two phases are
  the handler (\<open>handlers_split_at_await\<close>); \<open>interleave\<close> runs another handler
  between them. The message queue of \<^verbatim>\<open>queue.js\<close> is used only by the user's close,
  whose queued job is one action phase here.
\<close>

section \<open>newthread (newthread.js, lines 6--21)\<close>

datatype newthread_plan = NT_Reply sysmsg | NT_Create string

text \<open>Lines 6--16, up to the answer of \<^verbatim>\<open>await threads.findOpenThreadByUserId\<close>.\<close>

definition newthread_lookup :: "user_id \<Rightarrow> world \<Rightarrow> newthread_plan" where
  "newthread_lookup uid w =
     (case map_of (known_users w) uid of
        None \<Rightarrow> NT_Reply UserNotFoundMsg
      | Some name \<Rightarrow>
          (case findOpenThreadByUserId uid w of
             Some existing \<Rightarrow> NT_Reply (ExistingThreadMsg (channel_id existing))
           | None \<Rightarrow> NT_Create name))"

text \<open>The replies of lines 8 and 14, and lines 18--21 from \<^verbatim>\<open>createNewThreadForUser\<close> on.\<close>

definition newthread_act ::
  "message \<Rightarrow> user_id \<Rightarrow> thread option \<Rightarrow> newthread_plan \<Rightarrow> world \<Rightarrow> world result" where
  "newthread_act msg uid thr p w =
     (case p of
        NT_Reply m \<Rightarrow> Inr (postSystemMessageWithFallback msg thr m w)
      | NT_Create name \<Rightarrow>
          (let (t, w1) = createNewThreadForUser uid name w;
               w2 = postSystemMessage (thread_id t)
                      (OpenedByMsg (username (msg_author msg)) (discriminator (msg_author msg))) w1
           in Inr (channel_reply msg (ThreadOpenedMsg (channel_id t)) w2)))"

section \<open>unsuspend (suspend.js, lines 56--76)\<close>

datatype unsuspend_plan = US_Reply thread_id sysmsg | US_Null | US_Reopen thread

text \<open>Lines 57--72, up to the answer of \<^verbatim>\<open>await threads.findOpenThreadByUserId\<close>.\<close>

definition unsuspend_lookup :: "message \<Rightarrow> thread option \<Rightarrow> world \<Rightarrow> unsuspend_plan" where
  "unsuspend_lookup msg thr w =
     (case thr of
        Some t \<Rightarrow> US_Reply (thread_id t) NotSuspendedMsg
      | None \<Rightarrow>
          (case (case msg_channel_id msg of Some c \<Rightarrow> findSuspendedThreadByChannelId c w | None \<Rightarrow> None) of
             None \<Rightarrow> US_Null
           | Some t \<Rightarrow>
               (case findOpenThreadByUserId (user_id t) w of
                  Some other \<Rightarrow> US_Reply (thread_id t) (OtherOpenThreadMsg (channel_id other))
                | None \<Rightarrow> US_Reopen t)))"

text \<open>The replies of lines 58, 64 and 70, and lines 74--75.\<close>

definition unsuspend_act :: "unsuspend_plan \<Rightarrow> world \<Rightarrow> world result" where
  "unsuspend_act p w =
     (case p of
        US_Reply tid m \<Rightarrow> Inr (postSystemMessage tid m w)
      | US_Null \<Rightarrow> Inl (NullDeref, w)
      | US_Reopen t \<Rightarrow>
          andThen (thread_unsuspend (thread_id t) w)
            (\<lambda>w'. Inr (postSystemMessage (thread_id t) UnsuspendedMsg w')))"

section \<open>The user's close (close.js, lines 48--61 and 118--128)\<close>

text \<open>Lines 48--52, up to the answer of \<^verbatim>\<open>await threads.findOpenThreadByUserId\<close>.\<close>

definition user_close_lookup :: "config \<Rightarrow> author \<Rightarrow> world \<Rightarrow> thread option" where
  "user_close_lookup cfg a w =
     (if \<not> allowUserClose cfg then None
      else if author_id a \<in> set (blocked w) then None
      else findOpenThreadByUserId (author_id a) w)"

text \<open>The job queued on \<^verbatim>\<open>messageQueue\<close> (lines 56--59), then the epilogue.\<close>

definition user_close_act :: "config \<Rightarrow> thread \<Rightarrow> world \<Rightarrow> world result" where
  "user_close_act cfg t w =
     andThen (thread_close (thread_id t) (postSystemMessage (thread_id t) ClosedByUserMsg w))
       (close_epilogue cfg t False ''the user'')"

section \<open>Interleaving\<close>

text \<open>
  A handler reads the world, another handler then runs to completion, and the first
  resumes and acts on the plan it made.
\<close>

definition interleave ::
  "(world \<Rightarrow> 'p) \<Rightarrow> ('p \<Rightarrow> world \<Rightarrow> world result) \<Rightarrow> (world \<Rightarrow> world result) \<Rightarrow> world \<Rightarrow> world" where
  "interleave lookup act other w = final_state (act (lookup w) (final_state (other w)))"

section \<open>Example data\<close>

text \<open>Thread 1 (user 10, channel 1) suspended; and user 10 writing to the bot.\<close>

definition example_suspended :: thread where
  "example_suspended = (new_thread 1 10 ''ana'' 1)\<lparr>status := SUSPENDED\<rparr>"

definition example_user :: author where
  "example_user = \<lparr>author_id = 10, username = ''ana'', discriminator = ''0002''\<rparr>"

section \<open>Properties\<close>

text \<open>
  The split is faithful: each split handler is its lookup phase followed at once by its
  action phase, so with nothing in between the split model is the sequential one.
\<close>

lemma handlers_split_at_await:
  "newthread_cmd msg uid thr w = newthread_act msg uid thr (newthread_lookup uid w) w \<and>
   unsuspend_cmd msg thr w = unsuspend_act (unsuspend_lookup msg thr w) w \<and>
   user_close cfg a w = (case user_close_lookup cfg a w of None \<Rightarrow> Inr w | Some t \<Rightarrow> user_close_act cfg t w)"
  by (simp add: newthread_cmd_def newthread_act_def newthread_lookup_def unsuspend_cmd_def
      unsuspend_act_def unsuspend_lookup_def user_close_def user_close_act_def user_close_lookup_def
      split: option.split)

text \<open>
  C20. Two \<^verbatim>\<open>newthread\<close> commands for the same user race: if the second runs to
  completion while the first waits for its \<^verbatim>\<open>findOpenThreadByUserId\<close>, the first
  still creates its thread, and the user has two open threads. The check and the creation
  are not atomic and no queue orders them, so the specification's main invariant fails
  under concurrency.
\<close>

theorem newthread_double_open_race:
  assumes known: "map_of (known_users w) u = Some name" and none: "findOpenThreadByUserId u w = None"
  shows "\<not> one_open_per_user (interleave (newthread_lookup u) (newthread_act msg u thr) (newthread_cmd msg' u thr') w)"
proof -
  let ?t1 = "new_thread (next_id w) u name (next_id w)" and ?t2 = "new_thread (Suc (next_id w)) u name (Suc (next_id w))"
  have "threads (interleave (newthread_lookup u) (newthread_act msg u thr) (newthread_cmd msg' u thr') w) =
          threads w @ [?t1, ?t2]"
    using known none
    by (simp add: interleave_def newthread_lookup_def newthread_act_def newthread_cmd_def
        createNewThreadForUser_def Let_def postSystemMessage_def channel_reply_def split: option.split)
  moreover have "status ?t1 = OPEN" "status ?t2 = OPEN" "user_id ?t1 = user_id ?t2" "thread_id ?t1 \<noteq> thread_id ?t2"
    by (simp_all add: new_thread_def)
  ultimately show ?thesis
    unfolding one_open_per_user_def by auto
qed

lemma unsuspend_newthread_interleave_threads:
  assumes inv: "sys_inv w" and c: "msg_channel_id msg = Some c"
    and t: "findSuspendedThreadByChannelId c w = Some t"
    and none: "findOpenThreadByUserId (user_id t) w = None"
    and known: "map_of (known_users w) (user_id t) = Some name" and nf: "thread_id t \<notin> set (failing w)"
  shows "threads (interleave (unsuspend_lookup msg None) unsuspend_act (newthread_cmd msg' (user_id t) thr') w) =
      update_by thread_id (thread_id t) (\<lambda>r. r\<lparr>status := OPEN\<rparr>)
        (threads w @ [new_thread (next_id w) (user_id t) name (next_id w)])"
proof -
  let ?n = "new_thread (next_id w) (user_id t) name (next_id w)"
  have row: "t \<in> set (threads w)" "status t = SUSPENDED" using find_open_SomeD(3) [OF t] by simp_all
  have ids: "distinct (map thread_id (threads w))"
    using inv by (auto simp: sys_inv_def ids_ok_def)
  let ?w1 = "channel_reply msg' (ThreadOpenedMsg (next_id w))
     (postSystemMessage (next_id w) (OpenedByMsg (username (msg_author msg')) (discriminator (msg_author msg')))
       (w\<lparr>threads := threads w @ [?n], next_id := Suc (next_id w)\<rparr>))"
  have nt: "newthread_cmd msg' (user_id t) thr' w = Inr ?w1"
    using known none by (simp add: newthread_cmd_def createNewThreadForUser_def Let_def new_thread_def)
  have thr1: "threads ?w1 = threads w @ [?n]" by (simp add: postSystemMessage_def)
  have "find (\<lambda>x. thread_id x = thread_id t) (threads w) = Some t"
    using row(1) ids by (simp add: find_key_distinct)
  then have "get_thread (thread_id t) ?w1 = Some t"
    using thr1 by (simp add: get_thread_def find_append_Some)
  then have "thread_unsuspend (thread_id t) ?w1 =
      Inr (?w1\<lparr>threads := update_by thread_id (thread_id t) (\<lambda>r. r\<lparr>status := OPEN\<rparr>) (threads w @ [?n])\<rparr>)"
    using row(2) nf thr1 by (simp add: thread_unsuspend_def checked_update_def store_update_def postSystemMessage_def
        channel_reply_def split: option.split)
  then show ?thesis
    using c t none nt by (simp add: interleave_def unsuspend_lookup_def unsuspend_act_def postSystemMessage_def)
qed

lemma reopened_and_new_not_one_open:
  assumes inv: "sys_inv w" and c: "msg_channel_id msg = Some c"
    and t: "findSuspendedThreadByChannelId c w = Some t"
    and w': "threads w' = update_by thread_id (thread_id t) (\<lambda>r. r\<lparr>status := OPEN\<rparr>)
           (threads w @ [new_thread (next_id w) (user_id t) name (next_id w)])"
  shows "\<not> one_open_per_user w'"
proof -
  let ?n = "new_thread (next_id w) (user_id t) name (next_id w)"
  have row: "t \<in> set (threads w)" using find_open_SomeD(3) [OF t] by simp
  have lt: "thread_id t < next_id w"
    using inv row by (auto simp: sys_inv_def ids_ok_def)
  have "t\<lparr>status := OPEN\<rparr> \<in> set (update_by thread_id (thread_id t) (\<lambda>r. r\<lparr>status := OPEN\<rparr>) (threads w @ [?n]))"
    using row by (force simp: mem_update_by)
  moreover have "?n \<in> set (update_by thread_id (thread_id t) (\<lambda>r. r\<lparr>status := OPEN\<rparr>) (threads w @ [?n]))"
    using lt by (force simp: mem_update_by new_thread_def)
  moreover have "status ?n = OPEN" "user_id ?n = user_id t" "thread_id ?n \<noteq> thread_id t"
    using lt by (simp_all add: new_thread_def)
  ultimately show ?thesis
    unfolding one_open_per_user_def w' by (metis thread.select_convs(5) thread.surjective thread.update_convs(5)
        thread.select_convs(2) thread.select_convs(1))
qed

text \<open>
  C21. \<^verbatim>\<open>unsuspend\<close> races with \<^verbatim>\<open>newthread\<close>: the check for another open
  thread of the user (suspend.js, line 68) and the reopening (line 74) are separated by an
  \<^verbatim>\<open>await\<close>; a \<^verbatim>\<open>newthread\<close> for that user completing in between leaves the user
  with two open threads, although the specification has the check made immediately
  before the transition.
\<close>

theorem unsuspend_newthread_race:
  assumes inv: "sys_inv w" and c: "msg_channel_id msg = Some c"
    and t: "findSuspendedThreadByChannelId c w = Some t"
    and none: "findOpenThreadByUserId (user_id t) w = None"
    and known: "map_of (known_users w) (user_id t) = Some name" and nf: "thread_id t \<notin> set (failing w)"
  shows "\<not> one_open_per_user (interleave (unsuspend_lookup msg None) unsuspend_act (newthread_cmd msg' (user_id t) thr') w)"
  using reopened_and_new_not_one_open [OF inv c t unsuspend_newthread_interleave_threads [OF assms]] .

text \<open>
  C22. A user's close and a staff member's close of the same thread, arriving together
  (specification section 8): the user's handler finds the thread, the staff close then
  runs to completion, and the user's queued close resumes. Exactly one of them closes the
  thread: the staff close completes, the user's close is rejected because the thread is
  already closed, and the audit log holds exactly one close entry for the thread.
\<close>

theorem user_close_staff_close_race:
  assumes inv: "sys_inv w" and t: "user_close_lookup cfg a w = Some t"
    and nf: "thread_id t \<notin> set (failing w)"
  shows "\<exists>w1 w2. staff_close cfg dp a' [] t w = Inr w1 \<and> user_close_act cfg t w1 = Inl (Rejected, w2) \<and>
           count_list (map log_tid (audit_logs (out (interleave (user_close_lookup cfg a)
              (\<lambda>p w. case p of None \<Rightarrow> Inr w | Some t \<Rightarrow> user_close_act cfg t w) (staff_close cfg dp a' [] t) w))))
            (thread_id t) = 1"
proof -
  have row: "t \<in> set (threads w)" "status t = OPEN"
    using t find_open_SomeD(1) [of "author_id a" w t] by (auto simp: user_close_lookup_def split: if_splits)
  have ids: "distinct (map thread_id (threads w))" using inv by (simp add: sys_inv_def ids_ok_def)
  have gt: "get_thread (thread_id t) w = Some t" using get_thread_row [OF ids row(1)] .
  obtain w1 where run1: "staff_close cfg dp a' [] t w = Inr w1"
    and thr1: "threads w1 = update_by thread_id (thread_id t) close_row (threads w)"
    using gt row(2) nf
    by (auto simp: staff_close_def thread_close_def checked_update_def store_update_def close_epilogue_def
        Let_def postLog_def postToUser_caught_def)
  have inv1: "sys_inv w1"
    using inv_staff_close [OF inv, of cfg dp a' "[]" t] run1 by simp
  have gt1: "get_thread (thread_id t) w1 = Some (close_row t)"
    using gt thr1 by (simp add: get_thread_def find_update_by_same)
  let ?w2 = "postSystemMessage (thread_id t) ClosedByUserMsg w1"
  have rej: "user_close_act cfg t w1 = Inl (Rejected, ?w2)"
    using gt1 by (simp add: user_close_act_def thread_close_def checked_update_def postSystemMessage_def get_thread_def)
  have "close_row t \<in> set (threads ?w2)"
    using gt1 get_thread_SomeD [OF gt1] by (simp add: postSystemMessage_def)
  then have "count_list (map log_tid (audit_logs (out ?w2))) (thread_id t) = 1"
    using inv1 by (auto simp: sys_inv_def audit_exact_def postSystemMessage_def)
  then show ?thesis
    using run1 rej t by (simp add: interleave_def)
qed

lemmas example_idefs = example_suspended_def example_user_def example_cdefs example_config_def

lemma example_sys_inv:
  "sys_inv (example_cworld [example_suspended])" "sys_inv (example_cworld [new_thread 1 10 ''ana'' 1])"
  by (simp_all add: sys_inv_def ids_ok_def one_open_per_user_def no_stale_schedules_def audit_exact_def
      example_idefs)

theorem newthread_double_open_race_witness:
  "\<not> one_open_per_user (interleave (newthread_lookup 10) (newthread_act (example_staff_msg 0) 10 None)
        (newthread_cmd (example_staff_msg 0) 10 None) (example_cworld []))"
proof -
  have "map_of (known_users (example_cworld [])) 10 = Some ''ana''" "findOpenThreadByUserId 10 (example_cworld []) = None"
    by (simp_all add: example_idefs findOpenThreadByUserId_def)
  then show ?thesis by (rule newthread_double_open_race)
qed

theorem unsuspend_newthread_race_witness:
  "\<not> one_open_per_user (interleave (unsuspend_lookup (example_staff_msg 1) None) unsuspend_act
        (newthread_cmd (example_staff_msg 0) 10 None) (example_cworld [example_suspended]))"
proof -
  have pre: "msg_channel_id (example_staff_msg 1) = Some 1"
    "findSuspendedThreadByChannelId 1 (example_cworld [example_suspended]) = Some example_suspended"
    "findOpenThreadByUserId (user_id example_suspended) (example_cworld [example_suspended]) = None"
    "map_of (known_users (example_cworld [example_suspended])) (user_id example_suspended) = Some ''ana''"
    "thread_id example_suspended \<notin> set (failing (example_cworld [example_suspended]))"
    by (simp_all add: example_idefs msg_channel_id_def findSuspendedThreadByChannelId_def findOpenThreadByUserId_def)
  have "user_id example_suspended = 10" by (simp add: example_idefs)
  then show ?thesis
    using unsuspend_newthread_race [OF example_sys_inv(1) pre, of "example_staff_msg 0" None] by simp
qed

theorem user_close_staff_close_race_witness:
  "\<exists>w1 w2. staff_close example_config example_dp (msg_author (example_staff_msg 1)) [] (new_thread 1 10 ''ana'' 1)
        (example_cworld [new_thread 1 10 ''ana'' 1]) = Inr w1 \<and>
     user_close_act example_config (new_thread 1 10 ''ana'' 1) w1 = Inl (Rejected, w2) \<and>
     count_list (map log_tid (audit_logs (out (interleave (user_close_lookup example_config example_user)
        (\<lambda>p w. case p of None \<Rightarrow> Inr w | Some t \<Rightarrow> user_close_act example_config t w)
        (staff_close example_config example_dp (msg_author (example_staff_msg 1)) [] (new_thread 1 10 ''ana'' 1))
        (example_cworld [new_thread 1 10 ''ana'' 1]))))) 1 = 1"
proof -
  have pre: "user_close_lookup example_config example_user (example_cworld [new_thread 1 10 ''ana'' 1]) =
      Some (new_thread 1 10 ''ana'' 1)"
    "thread_id (new_thread 1 10 ''ana'' 1) \<notin> set (failing (example_cworld [new_thread 1 10 ''ana'' 1]))"
    by (simp_all add: example_idefs user_close_lookup_def findOpenThreadByUserId_def)
  have "thread_id (new_thread 1 10 ''ana'' 1) = 1" by (simp add: new_thread_def)
  then show ?thesis
    using user_close_staff_close_race [OF example_sys_inv(2) pre, of example_dp "msg_author (example_staff_msg 1)"]
    by simp
qed

end
