(* ===== verification/Index.thy ===== *)
theory Index
  imports Prelude
begin

text \<open>
  \<^verbatim>\<open>src/modmailbot/src/index.js\<close>: the start-up checks (Node.js major version,
  installed dependencies) and the two process-wide error handlers. Migrations and the
  start of the bot are in theory Startup.
\<close>

section \<open>Outcomes\<close>

datatype process_outcome = Continue | Exit nat

section \<open>JavaScript's parseInt in base 10\<close>

definition is_digit :: "char \<Rightarrow> bool" where
  "is_digit c = (48 \<le> (of_char c :: nat) \<and> (of_char c :: nat) \<le> 57)"

definition digit_value :: "char \<Rightarrow> nat" where
  "digit_value c = of_char c - 48"

definition digits_value :: "string \<Rightarrow> nat" where
  "digits_value ds = foldl (\<lambda>acc c. 10 * acc + digit_value c) 0 ds"

definition is_js_space :: "char \<Rightarrow> bool" where
  "is_js_space c = ((of_char c :: nat) \<in> {9, 10, 11, 12, 13, 32})"

text \<open>
  \<^verbatim>\<open>parseInt(s, 10)\<close>: leading white space is skipped, one sign is read, then the
  longest run of decimal digits; with no digit the result is \<^verbatim>\<open>NaN\<close> (\<open>None\<close>).
\<close>

definition js_parseInt10 :: "string \<Rightarrow> int option" where
  "js_parseInt10 s =
     (let s1 = dropWhile is_js_space s;
          (neg, s2) = (case s1 of
                         c # r \<Rightarrow> if c = CHR ''-'' then (True, r)
                                 else if c = CHR ''+'' then (False, r) else (False, s1)
                       | [] \<Rightarrow> (False, []));
          ds = takeWhile is_digit s2
      in if ds = [] then None else Some ((if neg then -1 else 1) * int (digits_value ds)))"

section \<open>Start-up checks (index.js, lines 1--17 and 31--42)\<close>

text \<open>
  \<^verbatim>\<open>parseInt(process.versions.node.split('.')[0], 10) < 10\<close> exits; a \<^verbatim>\<open>NaN\<close>
  compares false and passes.
\<close>

definition node_version_check :: "string \<Rightarrow> process_outcome" where
  "node_version_check v =
     (case js_parseInt10 (takeWhile (\<lambda>c. c \<noteq> CHR ''.'') v) of
        Some n \<Rightarrow> if n < 10 then Exit 1 else Continue
      | None \<Rightarrow> Continue)"

text \<open>
  The dependency check: \<open>deps\<close> is the dependency list of \<^verbatim>\<open>package.json\<close>
  (\<open>None\<close> when it cannot be read) and \<open>installed\<close> whether a module directory is
  accessible. The result is \<open>None\<close> to go on, or the package the error message names:
  the last one tried, which is the first one missing.
\<close>

definition check_dependencies :: "string list option \<Rightarrow> (string \<Rightarrow> bool) \<Rightarrow> string option" where
  "check_dependencies deps installed =
     (case deps of
        None \<Rightarrow> Some []
      | Some ms \<Rightarrow> find (\<lambda>m. \<not> installed m) ms)"

section \<open>Error handlers (index.js, lines 19--29 and 50--60)\<close>

record js_error =
  err_message :: "string option"
  err_code :: "string option"
  is_BotError :: bool

text \<open>What a handler prints: the whole error object, or only \<^verbatim>\<open>Error: message\<close>.\<close>

datatype console_output = FullError | MessageOnly string

datatype handler_effect = Ignored | Report console_output nat

definition starts_with :: "string \<Rightarrow> string \<Rightarrow> bool" where
  "starts_with p s = (take (length p) s = p)"

definition on_uncaughtException :: "js_error option \<Rightarrow> handler_effect" where
  "on_uncaughtException err =
     (case err of
        Some e \<Rightarrow>
          (case err_message e of
             Some m \<Rightarrow> if m \<noteq> [] \<and> starts_with ''Unhandled MESSAGE_CREATE type'' m
                       then Ignored else Report FullError 1
           | None \<Rightarrow> Report FullError 1)
      | None \<Rightarrow> Report FullError 1)"

definition on_unhandledRejection :: "js_error option \<Rightarrow> handler_effect" where
  "on_unhandledRejection err =
     (case err of
        Some e \<Rightarrow>
          if is_BotError e \<or> (case err_code e of Some c \<Rightarrow> c \<noteq> [] | None \<Rightarrow> False)
          then Report (MessageOnly (''Error: '' @ (case err_message e of Some m \<Rightarrow> m | None \<Rightarrow> ''undefined''))) 1
          else Report FullError 1
      | None \<Rightarrow> Report FullError 1)"

section \<open>Decimal notation\<close>

text \<open>How a natural number is written in decimal (as in \<^verbatim>\<open>process.versions.node\<close>).\<close>

fun decimal :: "nat \<Rightarrow> string" where
  "decimal n = (if n < 10 then [char_of (48 + n)] else decimal (n div 10) @ [char_of (48 + n mod 10)])"

declare decimal.simps [simp del]

section \<open>Properties\<close>

lemma of_char_digit: "(d::nat) < 10 \<Longrightarrow> (of_char (char_of (48 + d)) :: nat) = 48 + d"
  by simp

lemma digit_char [simp]:
  assumes "(d::nat) < 10"
  shows "is_digit (char_of (48 + d)) \<and> digit_value (char_of (48 + d)) = d
     \<and> \<not> is_js_space (char_of (48 + d)) \<and> char_of (48 + d) \<noteq> CHR ''-''
     \<and> char_of (48 + d) \<noteq> CHR ''+'' \<and> char_of (48 + d) \<noteq> CHR ''.''"
proof -
  have oc: "(of_char (char_of (48 + d)) :: nat) = 48 + d" using assms by (rule of_char_digit)
  have ne: "char_of (48 + d) \<noteq> c" if "(of_char c :: nat) < 48" for c
  proof
    assume "char_of (48 + d) = c"
    then have "(of_char c :: nat) = 48 + d" using oc by simp
    with that show False by simp
  qed
  have "(of_char (CHR ''-'') :: nat) < 48" "(of_char (CHR ''+'') :: nat) < 48"
    "(of_char (CHR ''.'') :: nat) < 48" by simp_all
  with ne oc assms show ?thesis by (simp add: is_digit_def digit_value_def is_js_space_def)
qed

lemma decimal_chars:
  "c \<in> set (decimal n) \<Longrightarrow> \<exists>d::nat. d < 10 \<and> c = char_of (48 + d)"
proof (induction n rule: decimal.induct)
  case (1 n)
  then show ?case by (cases "n < 10") (auto simp: decimal.simps [of n] intro: exI [of _ "n mod 10"])
qed

lemma decimal_nonempty: "decimal n \<noteq> []"
  by (subst decimal.simps) simp

lemma digits_value_decimal: "digits_value (decimal n) = n"
proof (induction n rule: decimal.induct)
  case (1 n)
  show ?case
  proof (cases "n < 10")
    case True
    then show ?thesis by (simp add: decimal.simps [of n] digits_value_def)
  next
    case False
    with "1.IH" have "digits_value (decimal (n div 10)) = n div 10" by simp
    with False show ?thesis
      by (simp add: decimal.simps [of n] digits_value_def)
  qed
qed

text \<open>\<^verbatim>\<open>parseInt(_, 10)\<close> reads back every natural number written in decimal.\<close>

lemma js_parseInt10_decimal: "js_parseInt10 (decimal n) = Some (int n)"
proof -
  obtain c r where cr: "decimal n = c # r" using decimal_nonempty by (cases "decimal n") auto
  have all: "\<forall>x \<in> set (decimal n). is_digit x \<and> \<not> is_js_space x"
    using decimal_chars by fastforce
  from cr obtain d :: nat where d: "d < 10" "c = char_of (48 + d)"
    using decimal_chars [of c n] by auto
  have dw: "dropWhile is_js_space (c # r) = c # r" using cr all by simp
  have tr: "takeWhile is_digit r = r" using cr all by (simp add: takeWhile_eq_all_conv)
  have "js_parseInt10 (c # r) = Some (int (digits_value (c # r)))"
    using dw tr d by (simp add: js_parseInt10_def del: takeWhile_eq_all_conv)
  then show ?thesis using cr digits_value_decimal [of n] by simp
qed

text \<open>
  C11. The start-up version check exits with code 1 exactly when the major version is
  below 10, for every version string of the form \<open>major.rest\<close>.
\<close>

theorem node_version_check_decimal:
  "node_version_check (decimal major @ ''.'' @ rest) = (if major < 10 then Exit 1 else Continue)"
proof -
  have "x \<noteq> CHR ''.''" if "x \<in> set (decimal major)" for x
  proof -
    from decimal_chars [OF that] obtain d :: nat where "d < 10" "x = char_of (48 + d)" by blast
    with digit_char [of d] show ?thesis by simp
  qed
  then have "takeWhile (\<lambda>c. c \<noteq> CHR ''.'') (decimal major @ ''.'' @ rest) = decimal major"
    by (simp add: takeWhile_append2)
  then show ?thesis by (simp add: node_version_check_def js_parseInt10_decimal)
qed

text \<open>
  C12. The process-wide handlers: an uncaught exception is ignored exactly when it
  carries a message starting with \<^verbatim>\<open>Unhandled MESSAGE_CREATE type\<close>, and otherwise
  is printed whole and ends the process with code 1; every unhandled promise rejection
  ends the process with code 1.
\<close>

theorem error_handlers_exit:
  "(on_uncaughtException err = Ignored \<or> on_uncaughtException err = Report FullError 1) \<and>
   (on_uncaughtException err = Ignored \<longleftrightarrow>
      (\<exists>e m. err = Some e \<and> err_message e = Some m \<and> starts_with ''Unhandled MESSAGE_CREATE type'' m)) \<and>
   (\<exists>output. on_unhandledRejection err = Report output 1)"
proof -
  have ne: "starts_with ''Unhandled MESSAGE_CREATE type'' m \<Longrightarrow> m \<noteq> []" for m
    by (auto simp: starts_with_def)
  show ?thesis
    by (auto simp: on_uncaughtException_def on_unhandledRejection_def dest: ne
        split: option.splits)
qed

end
