(* ===== verification/Startup.thy ===== *)
theory Startup
  imports Index
begin

text \<open>
  The start-up sequence of \<^verbatim>\<open>src/modmailbot/src/index.js\<close> as one run of the process: the
  version check (lines 1--6), the \<^verbatim>\<open>node_modules\<close> check (lines 12--17), the dependency
  loop with its \<^verbatim>\<open>testedPackage\<close> variable (lines 31--42), and the asynchronous block
  (lines 62--93): database migrations, the legacy-data migration when it is needed, and the
  start of the bot. The outside world the sequence consults (the file system, the package
  file, the database and the legacy migrator) is a record \<open>startup_env\<close>, each awaited
  call either resolving or rejecting. A rejection of the block reaches the
  \<^verbatim>\<open>unhandledRejection\<close> handler registered on line 51, before the block runs. The run
  is a list of the observable events: console messages, the migrations, the start, and the
  exit of the process. The lemmas show that the loop computes the first missing package,
  that every run either starts the bot or exits with code 1, exactly when it starts, and in
  which order the migrations and the start happen.
\<close>

section \<open>The environment\<close>

text \<open>The outcome of an awaited call: its value, or a rejection with the error thrown.\<close>

datatype 'a awaited = Resolves 'a | Rejects "js_error option"

record startup_env =
  node_version :: string
  node_modules_accessible :: bool
  package_dependencies :: "string list option"
  module_installed :: "string \<Rightarrow> bool"
  migrate_latest :: "unit awaited"
  shouldMigrate :: "bool awaited"
  legacy_migrate :: "unit awaited"

datatype startup_event =
    UnsupportedNode
  | RunNpmInstall
  | MissingPackage string
  | DatabaseMigrated
  | LegacyMigrationStarted
  | LegacyMigrated
  | BotStarted
  | RejectionReported console_output
  | ProcessExit nat

section \<open>The dependency loop (index.js, lines 31--42)\<close>

text \<open>
  \<^verbatim>\<open>modules.forEach(mod => { testedPackage = mod; fs.accessSync(...) })\<close>: each
  iteration assigns \<^verbatim>\<open>testedPackage\<close> and then accesses the module directory, which throws
  when it is missing. The result is the final value of \<^verbatim>\<open>testedPackage\<close> and whether the
  loop threw.
\<close>

fun dependencies_forEach :: "(string \<Rightarrow> bool) \<Rightarrow> string list \<Rightarrow> string \<Rightarrow> string \<times> bool" where
  "dependencies_forEach installed [] testedPackage = (testedPackage, False)"
| "dependencies_forEach installed (m # ms) testedPackage =
     (if installed m then dependencies_forEach installed ms m else (m, True))"

text \<open>
  The \<^verbatim>\<open>try\<close> block: \<open>deps = None\<close> is a \<^verbatim>\<open>package.json\<close> that cannot be read or
  has no \<^verbatim>\<open>dependencies\<close> (the \<^verbatim>\<open>require\<close> or \<^verbatim>\<open>Object.keys\<close> throws before the
  loop), so the message names the initial empty \<^verbatim>\<open>testedPackage\<close>.
\<close>

definition dependency_check :: "string list option \<Rightarrow> (string \<Rightarrow> bool) \<Rightarrow> string option" where
  "dependency_check deps installed =
     (let testedPackage = [] in
      case deps of
        None \<Rightarrow> Some testedPackage
      | Some modules \<Rightarrow>
          (case dependencies_forEach installed modules testedPackage of
             (p, True) \<Rightarrow> Some p
           | (_, False) \<Rightarrow> None))"

section \<open>The run of the process\<close>

text \<open>What the \<^verbatim>\<open>unhandledRejection\<close> handler of line 51 does with a rejection.\<close>

definition rejection :: "js_error option \<Rightarrow> startup_event list" where
  "rejection e =
     (case on_unhandledRejection e of
        Report output code \<Rightarrow> [RejectionReported output, ProcessExit code]
      | Ignored \<Rightarrow> [])"

text \<open>The asynchronous block of lines 62--93.\<close>

definition startup_async :: "startup_env \<Rightarrow> startup_event list" where
  "startup_async env =
     (case migrate_latest env of
        Rejects e \<Rightarrow> rejection e
      | Resolves _ \<Rightarrow> DatabaseMigrated #
          (case shouldMigrate env of
             Rejects e \<Rightarrow> rejection e
           | Resolves False \<Rightarrow> [BotStarted]
           | Resolves True \<Rightarrow> LegacyMigrationStarted #
               (case legacy_migrate env of
                  Rejects e \<Rightarrow> rejection e
                | Resolves _ \<Rightarrow> [LegacyMigrated, BotStarted])))"

text \<open>
  The whole file, top to bottom. \<^verbatim>\<open>process.exit\<close> ends the run at once; the
  \<^verbatim>\<open>uncaughtException\<close> handler (line 20) is registered but nothing in the file throws
  synchronously after it.
\<close>

definition startup :: "startup_env \<Rightarrow> startup_event list" where
  "startup env =
     (case node_version_check (node_version env) of
        Exit code \<Rightarrow> [UnsupportedNode, ProcessExit code]
      | Continue \<Rightarrow>
          if \<not> node_modules_accessible env then [RunNpmInstall, ProcessExit 1]
          else case dependency_check (package_dependencies env) (module_installed env) of
                 Some p \<Rightarrow> [MissingPackage p, ProcessExit 1]
               | None \<Rightarrow> startup_async env)"

definition example_env :: startup_env where
  "example_env =
     \<lparr>node_version = ''12.18.3'', node_modules_accessible = True,
      package_dependencies = Some [''eris'', ''knex'', ''moment''],
      module_installed = (\<lambda>m. m \<in> {''eris'', ''knex'', ''moment''}), migrate_latest = Resolves (),
      shouldMigrate = Resolves True, legacy_migrate = Resolves ()\<rparr>"

section \<open>Lemmas\<close>

lemma dependencies_forEach_find:
  "dependencies_forEach installed ms tp =
     (case find (\<lambda>m. \<not> installed m) ms of
        Some p \<Rightarrow> (p, True)
      | None \<Rightarrow> (if ms = [] then tp else last ms, False))"
  by (induction ms arbitrary: tp) (auto split: option.splits)

lemma rejection_eq:
  "rejection e = [RejectionReported (case on_unhandledRejection e of Report output _ \<Rightarrow> output
                                                               | Ignored \<Rightarrow> FullError), ProcessExit 1]"
  by (auto simp: rejection_def on_unhandledRejection_def split: option.splits)

lemma node_version_check_exit: "node_version_check v = Exit c \<Longrightarrow> c = 1"
  by (auto simp: node_version_check_def split: option.splits if_splits)

lemma dependency_check_find:
  "dependency_check deps installed =
     (case deps of None \<Rightarrow> Some [] | Some ms \<Rightarrow> find (\<lambda>m. \<not> installed m) ms)"
  by (simp add: dependency_check_def dependencies_forEach_find split: option.splits)

lemmas startup_unfold = startup_def startup_async_def rejection_eq

lemma started_async:
  "BotStarted \<in> set (startup_async env) \<longleftrightarrow>
     (\<exists>u. migrate_latest env = Resolves u) \<and>
     (shouldMigrate env = Resolves False \<or>
      shouldMigrate env = Resolves True \<and> (\<exists>u. legacy_migrate env = Resolves u))"
  by (auto simp: startup_async_def rejection_eq split: awaited.splits bool.splits)

section \<open>Properties of the start-up sequence\<close>

text \<open>
  C24. The dependency loop of \<^verbatim>\<open>index.js\<close>, which assigns \<^verbatim>\<open>testedPackage\<close> before
  each access, reports exactly what the specification of the check asks: nothing when every
  dependency is installed, and otherwise the first missing one in the order of
  \<^verbatim>\<open>package.json\<close> (the empty name when the dependency list cannot be read).
\<close>

theorem dependency_check_first_missing:
  "dependency_check deps installed = Index.check_dependencies deps installed"
  by (simp add: dependency_check_find check_dependencies_def)

text \<open>
  C25. Every run of the process ends in exactly one of two ways: the bot is started, as the
  last event, and the process never exits; or the process exits with code 1, as the last
  event, and the bot is never started.
\<close>

theorem startup_starts_or_exits:
  "startup env \<noteq> [] \<and>
   ((last (startup env) = BotStarted \<and> (\<forall>c. ProcessExit c \<notin> set (startup env))) \<or>
    (last (startup env) = ProcessExit 1 \<and> BotStarted \<notin> set (startup env)))"
  by (auto simp: startup_unfold dest: node_version_check_exit
      split: process_outcome.splits option.splits awaited.splits bool.splits)

text \<open>
  C26. The bot is started exactly when the Node.js version passes, \<^verbatim>\<open>node_modules\<close> is
  accessible, \<^verbatim>\<open>package.json\<close> lists its dependencies and every one is installed, the
  database migrations resolve, and either no legacy migration is needed or it resolves.
\<close>

theorem startup_starts_iff:
  "BotStarted \<in> set (startup env) \<longleftrightarrow>
     node_version_check (node_version env) = Continue \<and> node_modules_accessible env \<and>
     (\<exists>ms. package_dependencies env = Some ms \<and> (\<forall>m \<in> set ms. module_installed env m)) \<and>
     (\<exists>u. migrate_latest env = Resolves u) \<and>
     (shouldMigrate env = Resolves False \<or>
      shouldMigrate env = Resolves True \<and> (\<exists>u. legacy_migrate env = Resolves u))"
  by (auto simp: startup_def dependency_check_find find_None_iff started_async dest: find_Some_mem
      split: process_outcome.splits option.splits)

text \<open>
  C27. When the bot starts, the database has been migrated first, then the legacy data
  when the migrator asked for it, and nothing else has happened: start-up is the sequence
  migrate, legacy migration if needed, start.
\<close>

theorem startup_success_order:
  assumes "BotStarted \<in> set (startup env)"
  shows "startup env = DatabaseMigrated #
           (if shouldMigrate env = Resolves True then [LegacyMigrationStarted, LegacyMigrated] else []) @
           [BotStarted]"
  using assms
  by (auto simp: startup_unfold split: process_outcome.splits option.splits awaited.splits bool.splits
      if_splits)

lemmas example_env_defs = example_env_def node_version_check_def js_parseInt10_def is_js_space_def
  is_digit_def digits_value_def digit_value_def

theorem startup_starts_iff_witness:
  "BotStarted \<in> set (startup example_env) \<and>
   BotStarted \<notin> set (startup (example_env\<lparr>module_installed := (\<lambda>m. m \<noteq> ''moment'')\<rparr>))"
proof -
  have v: "node_version_check ''12.18.3'' = Continue"
    by (simp add: example_env_defs)
  show ?thesis
    using startup_starts_iff [of example_env]
      startup_starts_iff [of "example_env\<lparr>module_installed := (\<lambda>m. m \<noteq> ''moment'')\<rparr>"] v
    by (simp add: example_env_def)
qed

theorem startup_success_order_witness:
  "startup example_env = [DatabaseMigrated, LegacyMigrationStarted, LegacyMigrated, BotStarted]"
proof -
  have v: "node_version_check ''12.18.3'' = Continue"
    by (simp add: example_env_defs)
  have "BotStarted \<in> set (startup example_env)"
    using v by (simp add: startup_unfold dependency_check_find example_env_def)
  then show ?thesis
    using startup_success_order [of example_env] by (simp add: example_env_def)
qed

end
