(* ===== verification/Spec2Isabelle.thy ===== *)
theory Spec2Isabelle
  imports Scenarios Interleave Startup
begin

text \<open>
  \<^bold>\<open>A verification model of the modmail bot's thread lifecycle.\<close>

  \<^bold>\<open>The program.\<close> The bot (\<^verbatim>\<open>src/modmailbot/src\<close>) bridges users' direct messages
  with staff channels on an inbox server. Each conversation is a thread row (open, closed
  or suspended) that may carry a scheduled close and a scheduled suspend. The parts:
  \<^item> \<^verbatim>\<open>modules/close.js\<close>: a polling loop (\<^verbatim>\<open>scheduledCloseLoop\<close>, every 2000 ms)
    that closes the threads whose scheduled close is due; the \<^verbatim>\<open>close\<close> command
    (a user from direct messages, through the message queue; or staff in the thread
    channel: close now, close silently, schedule a close, cancel a scheduled close); the
    automatic close when a thread channel is deleted.
  \<^item> \<^verbatim>\<open>modules/suspend.js\<close>: the scheduled-suspend loop and the \<^verbatim>\<open>suspend\<close>,
    \<^verbatim>\<open>suspend cancel\<close> and \<^verbatim>\<open>unsuspend\<close> commands.
  \<^item> \<^verbatim>\<open>modules/newthread.js\<close>, \<^verbatim>\<open>modules/alert.js\<close>: opening a thread for a
    user by staff command; setting or clearing the one-shot reply alert.
  \<^item> \<^verbatim>\<open>index.js\<close>: start-up checks, the process-wide error handlers, the database
    and legacy-data migrations, and the start of the bot.
  The thread store (\<^verbatim>\<open>data/threads.js\<close>), the \<open>Thread\<close> methods
  (\<^verbatim>\<open>data/Thread.js\<close>), the command framework (\<^verbatim>\<open>commands.js\<close>), the message
  queue (\<^verbatim>\<open>queue.js\<close>), the configuration and the utilities are not among the sources;
  the model takes them from the specification. All parts share one mutable resource, the
  thread table, and interact only through it: the loops and the command handlers read
  rows, validate, write rows and then notify.

  \<^bold>\<open>The theories.\<close>
  \<^item> \<open>Prelude\<close>: identifiers, time (milliseconds; database timestamps in whole
    seconds, \<open>db_format\<close>), the error values, the result type
    \<open>(error \<times> 's) + 's\<close> of a handler that may throw part-way (the world at the throw
    is kept: writes before a rejected \<^verbatim>\<open>await\<close> are not rolled back), \<open>andThen\<close>
    (an \<^verbatim>\<open>await\<close>), \<open>foreach_r\<close> (a \<^verbatim>\<open>for ... of\<close> loop with \<^verbatim>\<open>await\<close>, stopping
    at the first exception), \<open>update_by\<close> (an \<^verbatim>\<open>UPDATE ... WHERE id\<close>) and their lemmas.
  \<^item> \<open>Store\<close>: the \<open>thread\<close> record with the columns the sources read, the events
    the handlers cause (direct messages, system messages, audit-log posts, channel
    deletions, console errors), the \<open>world\<close> (table, clock, environment, event list),
    the queries of \<^verbatim>\<open>data/threads.js\<close>, thread creation, the configuration and the
    incoming message.
  \<^item> \<open>Thread\<close>: the lifecycle methods \<open>thread_close\<close>, \<open>thread_suspend\<close>,
    \<open>thread_unsuspend\<close>, \<open>thread_scheduleClose\<close>, \<open>thread_cancelScheduledClose\<close>,
    \<open>thread_scheduleSuspend\<close>, \<open>thread_cancelScheduledSuspend\<close>,
    \<open>thread_setAlert\<close> as the specification states them: each re-reads the row,
    validates (\<open>Rejected\<close> otherwise), writes (\<open>StoreFailure\<close> for a row listed in
    \<open>failing\<close>), then has its effect; and the generic lemmas on a pass over rows.
  \<^item> \<open>Close\<close> (\<^verbatim>\<open>close.js\<close>): \<open>close_due\<close>, \<open>applyScheduledCloses\<close>,
    \<open>scheduledCloseLoop_tick\<close>, \<open>close_epilogue\<close>, \<open>timed_close\<close>,
    \<open>staff_close\<close>, \<open>user_close\<close>, \<open>close_cmd\<close>, \<open>channelDelete\<close>. Lemmas: the
    exact effect of one pass on the table and the audit log on success (C1), in general
    (C2), and when a row fails (C3).
  \<^item> \<open>Suspend\<close> (\<^verbatim>\<open>suspend.js\<close>): the suspend pass and loop run, \<open>suspend_cmd\<close>,
    \<open>suspend_cancel_cmd\<close>, \<open>unsuspend_cmd\<close>. Lemmas: one pass (C4), unsuspend keeps
    one open thread per user (C5), reopens exactly when the user has no other open thread
    (C6), and dereferences \<^verbatim>\<open>null\<close> outside a thread (C7).
  \<^item> \<open>Commands\<close> (\<^verbatim>\<open>newthread.js\<close>, \<^verbatim>\<open>alert.js\<close>): \<open>newthread_cmd\<close>,
    \<open>alert_cmd\<close> and the reply helpers. Lemmas C8--C10.
  \<^item> \<open>Index\<close> (\<^verbatim>\<open>index.js\<close>): JavaScript's \<^verbatim>\<open>parseInt(s, 10)\<close> (a model of the
    built-in, with the lemma that it reads back a decimal numeral), the version check
    (C11), the dependency check's reference \<open>check_dependencies\<close>, and the two
    process-wide error handlers (C12).
  \<^item> \<open>Startup\<close> (\<^verbatim>\<open>index.js\<close>, the whole file): \<open>startup\<close> is one run of
    the process over an environment \<open>startup_env\<close> (file system, \<^verbatim>\<open>package.json\<close>,
    database, legacy migrator; each awaited call resolves or rejects), producing its
    events. The dependency loop \<open>dependencies_forEach\<close> with its \<^verbatim>\<open>testedPackage\<close>
    variable names the first missing package (C24); every run either starts the bot or
    exits with code 1, never both (C25); when it starts (C26), and in which order the
    migrations and the start happen (C27).
  \<^item> \<open>Invariant\<close>: the system invariant \<open>sys_inv\<close> (distinct ids and channels below
    \<open>next_id\<close>, one open thread per user, no schedule on a thread that is not open,
    exactly one close entry in the audit log per closed thread and none otherwise) and
    its preservation by each method, by a close followed by its log, and by creation.
    The conjuncts on ids and schedules follow from the thread methods of the
    specification alone; they are carried because the proofs of C13 and C14 need them.
  \<^item> \<open>System\<close>: the inputs (every registered command, channel deletion, a run of each
    loop, time passing, a change of the environment), the command framework guards
    \<open>addInboxThreadCommand\<close> and \<open>addInboxServerCommand\<close>, \<open>step\<close>, \<open>run\<close> and the
    inductive set \<open>reachable\<close> of worlds reachable from an empty table. Every handler keeps
    \<open>sys_inv\<close> on every path, thrown or not, so all reachable worlds satisfy it: one
    open thread per user, which rests on the checks of \<^verbatim>\<open>newthread.js\<close> and
    \<^verbatim>\<open>suspend.js\<close> (C13), and exactly one audit entry per closed thread, which rests
    on every close path of \<^verbatim>\<open>close.js\<close> logging once after its close (C14).
  \<^item> \<open>Loops\<close>: both polling loops over time, \<open>close_loop\<close> and \<open>suspend_loop\<close>,
    with fuel, each an instance of one closed form of a polling loop
    (\<open>loop_closed_form\<close>: a tick that rewrites the due rows, a monotone due test, rows
    that are never due again once rewritten). With no failing write a scheduled close
    fires at the first run at or after its stored second (C15), and so does a scheduled
    suspend (C23); the stored second truncates \<open>clock + delay\<close>, so a timed close may
    fire up to 999 ms early and never earlier (C16); a row whose write keeps failing
    starves every row after it for ever (C17).
  \<^item> \<open>Scenarios\<close>: the specification's scenarios through the handlers: schedule then
    cancel a close is a round trip on the table (C18); \<^verbatim>\<open>!suspend <delay>\<close> leaves the
    thread open with the truncated suspend time stored and announced, and a close after it
    leaves nothing due (C19).
  \<^item> \<open>Interleave\<close>: handlers interleaved at their \<^verbatim>\<open>await\<close>s. \<open>newthread\<close>,
    \<open>unsuspend\<close> and the user's close are split into a lookup and an action phase
    (equal to the sequential handler, \<open>handlers_split_at_await\<close>); \<open>interleave\<close>
    runs another handler between them. Two concurrent \<open>newthread\<close>s for one user open
    two threads (C20); a \<open>newthread\<close> between unsuspend's check and its write does the
    same (C21); a staff close between the user's lookup and the user's queued close
    leaves exactly one close and one log (C22). The message queue of \<^verbatim>\<open>queue.js\<close>
    is used by the sources only for the user's close (\<^verbatim>\<open>close.js\<close> line 58); its
    queued job is the action phase \<open>user_close_act\<close>.

  \<^bold>\<open>Modelling choices.\<close> In \<open>System\<close> handlers run to completion one at a time (the
  sequential semantics); \<open>Interleave\<close> relaxes this at the \<^verbatim>\<open>await\<close> that separates a
  check from its write. A handler that throws leaves the world it reached (an unhandled
  rejection crashes the process, \<^verbatim>\<open>index.js\<close> line 59, and the restarted process finds the
  durable table as it was). A direct message to a user who cannot receive it is dropped,
  as the sources' \<^verbatim>\<open>.catch(() => {})\<close> does. The delay-string parser of
  \<^verbatim>\<open>utils.js\<close> is a parameter of the close handler. Message texts are constructors of
  \<open>sysmsg\<close>, keeping their parameters. The query order of the due threads is the table
  order.

  \<^bold>\<open>Bounds and fuel.\<close> The loops never end by design; \<open>close_loop cfg n\<close> and
  \<open>suspend_loop n\<close> are \<open>n\<close> runs, and every property of the loop holds for every \<open>n\<close>, so no bound on the fuel is
  needed. Runs are exactly \<open>close_loop_period\<close> = \<open>suspend_loop_period\<close> = 2000 ms apart (the time a pass takes is
  not counted, so real runs are at least that far apart and the bounds of C15 and C23 are lower bounds on
  the delay). Identifiers and times are unbounded naturals, as in the JavaScript and SQL
  of the sources, where they never wrap.

  \<^bold>\<open>Not modelled.\<close> The Discord gateway and Eris objects beyond the fields read, the
  SQL engine and migrations, the internals of legacy data migration, log rendering (the log URLs of the
  audit entries), the command parser, and the text of the start-up console output (each message is one event);
  these are I/O or libraries the sources only call. The implementation of the message
  queue (\<^verbatim>\<open>queue.js\<close>, not among the sources): no handler of the sources other than
  the user's close submits to it, so the per-key queue of the specification would verify
  a serialization the code does not have; the races C20 and C21 are the behaviour of the
  code. The delay-string parser and \<^verbatim>\<open>readMultilineConfigValue\<close> (utilities not
  among the sources): the parser is a parameter, and a close message is one string. The
  thread methods of \<^verbatim>\<open>data/Thread.js\<close> are taken from the specification; facts that
  follow from their guards alone (a thread that is not open has no schedule, ids are
  distinct) are conjuncts of \<open>sys_inv\<close>, not properties of the sources.
\<close>

end
